theory Spec2Isabelle
  imports Main "HOL-Library.Word" "HOL-Library.Monad_Syntax"
begin

unbundle bit_operations_syntax

section \<open>Low level ATA disk access (src/ata.c)\<close>

text \<open>
  The C integer types of the driver are machine words; the C type \<open>int\<close> is modelled by
  \<open>int\<close> wherever the values provably stay far from the 32-bit limits and by a 32-bit
  word where a product can leave the range (\<open>get_translation\<close>).
\<close>

type_synonym u8 = "8 word"
type_synonym u16 = "16 word"
type_synonym u32 = "32 word"
type_synonym u64 = "64 word"

subsection \<open>Constants of atabits.h and cmos.h\<close>

text \<open>
  Modelled from the spec: the header atabits.h (register offsets, status bits, command
  codes, type tags) and the CMOS index of cmos.h are included by ata.c but are not
  among the sources. The register layout is the bit-exact ATA command block the spec
  describes; slots never populated are "marked type=none", which after the zeroing
  \<open>memset\<close> of \<open>ata_init\<close> makes the tag of "none" the value 0.
\<close>

definition ATA_CB_DATA :: u16 where "ATA_CB_DATA = 0"
definition ATA_CB_ERR :: u16 where "ATA_CB_ERR = 1"
definition ATA_CB_FR :: u16 where "ATA_CB_FR = 1"
definition ATA_CB_SC :: u16 where "ATA_CB_SC = 2"
definition ATA_CB_SN :: u16 where "ATA_CB_SN = 3"
definition ATA_CB_CL :: u16 where "ATA_CB_CL = 4"
definition ATA_CB_CH :: u16 where "ATA_CB_CH = 5"
definition ATA_CB_DH :: u16 where "ATA_CB_DH = 6"
definition ATA_CB_STAT :: u16 where "ATA_CB_STAT = 7"
definition ATA_CB_CMD :: u16 where "ATA_CB_CMD = 7"
definition ATA_CB_ASTAT :: u16 where "ATA_CB_ASTAT = 6"
definition ATA_CB_DC :: u16 where "ATA_CB_DC = 6"

definition ATA_CB_STAT_BSY :: u8 where "ATA_CB_STAT_BSY = 0x80"
definition ATA_CB_STAT_RDY :: u8 where "ATA_CB_STAT_RDY = 0x40"
definition ATA_CB_STAT_DF :: u8 where "ATA_CB_STAT_DF = 0x20"
definition ATA_CB_STAT_DRQ :: u8 where "ATA_CB_STAT_DRQ = 0x08"
definition ATA_CB_STAT_ERR :: u8 where "ATA_CB_STAT_ERR = 0x01"

definition ATA_CB_DH_LBA :: u8 where "ATA_CB_DH_LBA = 0x40"
definition ATA_CB_DH_DEV0 :: u8 where "ATA_CB_DH_DEV0 = 0xa0"
definition ATA_CB_DH_DEV1 :: u8 where "ATA_CB_DH_DEV1 = 0xb0"

definition ATA_CB_DC_HD15 :: u8 where "ATA_CB_DC_HD15 = 0x08"
definition ATA_CB_DC_SRST :: u8 where "ATA_CB_DC_SRST = 0x04"
definition ATA_CB_DC_NIEN :: u8 where "ATA_CB_DC_NIEN = 0x02"

definition ATA_CMD_IDENTIFY_DEVICE :: u8 where "ATA_CMD_IDENTIFY_DEVICE = 0xEC"
definition ATA_CMD_IDENTIFY_DEVICE_PACKET :: u8 where "ATA_CMD_IDENTIFY_DEVICE_PACKET = 0xA1"
definition ATA_CMD_PACKET :: u8 where "ATA_CMD_PACKET = 0xA0"
definition ATA_CMD_READ_SECTORS :: u8 where "ATA_CMD_READ_SECTORS = 0x20"
definition ATA_CMD_WRITE_SECTORS :: u8 where "ATA_CMD_WRITE_SECTORS = 0x30"

definition ATA_TYPE_NONE :: u8 where "ATA_TYPE_NONE = 0x00"
definition ATA_TYPE_UNKNOWN :: u8 where "ATA_TYPE_UNKNOWN = 0x01"
definition ATA_TYPE_ATA :: u8 where "ATA_TYPE_ATA = 0x02"
definition ATA_TYPE_ATAPI :: u8 where "ATA_TYPE_ATAPI = 0x03"

definition ATA_DEVICE_NONE :: u8 where "ATA_DEVICE_NONE = 0x00"
definition ATA_DEVICE_HD :: u8 where "ATA_DEVICE_HD = 0xFF"
definition ATA_DEVICE_CDROM :: u8 where "ATA_DEVICE_CDROM = 0x05"

definition ATA_MODE_PIO16 :: u8 where "ATA_MODE_PIO16 = 0x00"
definition ATA_MODE_PIO32 :: u8 where "ATA_MODE_PIO32 = 0x01"

definition ATA_TRANSLATION_NONE :: u8 where "ATA_TRANSLATION_NONE = 0"
definition ATA_TRANSLATION_LBA :: u8 where "ATA_TRANSLATION_LBA = 1"
definition ATA_TRANSLATION_LARGE :: u8 where "ATA_TRANSLATION_LARGE = 2"
definition ATA_TRANSLATION_RECHS :: u8 where "ATA_TRANSLATION_RECHS = 3"

definition CMOS_BIOS_DISKTRANSFLAG :: u8 where "CMOS_BIOS_DISKTRANSFLAG = 0x39"

text \<open>The constants ata.c defines itself.\<close>

definition IDE_SECTOR_SIZE :: int where "IDE_SECTOR_SIZE = 512"
definition CDROM_SECTOR_SIZE :: int where "CDROM_SECTOR_SIZE = 2048"
definition IDE_TIMEOUT :: u16 where "IDE_TIMEOUT = 32000"

subsection \<open>Data structures\<close>

text \<open>
  Modelled from the spec: \<open>struct disk_op_s\<close>, \<open>struct ata_s\<close> and its members are
  declared in disk.h, which is not among the sources. The fields are the ones ata.c
  reads and writes, with the widths of the local variables ata.c copies them into
  (\<open>u64 lba\<close>, \<open>u16 heads\<close>, \<open>u8 type\<close>, \<open>u8 mode\<close>, \<open>u64 sectors\<close>); the block count
  has the two bytes the spec speaks of ("the block count's high byte"), as the masks
  \<open>0xff00\<close> and \<open>0x00ff\<close> of \<open>send_cmd_cdrom\<close> confirm.
\<close>

record disk_op_s =
  lba :: u64
  buf_fl :: u32
  count :: u16
  driveid :: u8
  command :: u8

record chs_s =
  heads :: u16
  cylinders :: u16
  spt :: u16

record ata_channel_s =
  iobase1 :: u16
  iobase2 :: u16
  pci_bdf :: u16
  irq :: u8

record ata_device_s =
  type :: u8
  device :: u8
  removable :: u8
  mode :: u8
  translation :: u8
  version :: u8
  blksize :: u16
  model :: "u8 list"
  lchs :: chs_s
  pchs :: chs_s
  sectors :: u64

record ata_s =
  channels :: "nat \<Rightarrow> ata_channel_s"
  devices :: "nat \<Rightarrow> ata_device_s"
  cdcount :: u8
  idmap :: "nat \<Rightarrow> nat \<Rightarrow> u8"

text \<open>\<open>struct ata_pio_command\<close>, declared in ata.c.\<close>

record ata_pio_command =
  feature :: u8
  sector_count :: u8
  lba_low :: u8
  lba_mid :: u8
  lba_high :: u8
  device_reg :: u8
  command_reg :: u8
  sector_count2 :: u8
  lba_low2 :: u8
  lba_mid2 :: u8
  lba_high2 :: u8

subsection \<open>The command block built by \<open>send_cmd_disk\<close>\<close>

text \<open>\<open>memset(&cmd, 0, sizeof(cmd))\<close>.\<close>

definition zero_cmd :: ata_pio_command where
  "zero_cmd = \<lparr>feature = 0, sector_count = 0, lba_low = 0, lba_mid = 0, lba_high = 0,
     device_reg = 0, command_reg = 0, sector_count2 = 0, lba_low2 = 0, lba_mid2 = 0,
     lba_high2 = 0\<rparr>"

text \<open>
  The condition of the \<open>if\<close> in \<open>send_cmd_disk\<close>:
  \<open>op->count >= (1<<8) || lba + op->count >= (1<<28)\<close>, the sum being a \<open>u64\<close>.
\<close>

definition lba48_cond :: "disk_op_s \<Rightarrow> bool" where
  "lba48_cond op \<longleftrightarrow> 0x100 \<le> count op \<or> 0x10000000 \<le> lba op + ucast (count op)"

text \<open>
  The part of \<open>send_cmd_disk\<close> before the call of \<open>send_cmd\<close>: the command block \<open>cmd\<close>.
\<close>

definition send_cmd_disk_cmd :: "disk_op_s \<Rightarrow> ata_pio_command" where
  "send_cmd_disk_cmd op =
     (let lba0 = lba op;
          cmd0 = zero_cmd\<lparr>command_reg := command op\<rparr>;
          (cmd1, lba1) =
            (if lba48_cond op
             then (cmd0\<lparr>sector_count2 := ucast (drop_bit 8 (count op)),
                        lba_low2 := ucast (drop_bit 24 lba0),
                        lba_mid2 := ucast (drop_bit 32 lba0),
                        lba_high2 := ucast (drop_bit 40 lba0),
                        command_reg := command_reg cmd0 OR 0x04\<rparr>,
                   lba0 AND 0xffffff)
             else (cmd0, lba0))
      in cmd1\<lparr>feature := 0,
              sector_count := ucast (count op),
              lba_low := ucast lba1,
              lba_mid := ucast (drop_bit 8 lba1),
              lba_high := ucast (drop_bit 16 lba1),
              device_reg := ucast ((drop_bit 24 lba1 AND 0xf) OR ucast ATA_CB_DH_LBA)\<rparr>)"


subsection \<open>Geometry translation: the arithmetic of \<open>get_translation\<close> and \<open>setup_translation\<close>\<close>

text \<open>
  The heuristic of \<open>get_translation\<close> (the branch taken on coreboot). The operands of
  \<open>cylinders * heads\<close> are \<open>u16\<close>, promoted to the 32-bit \<open>int\<close>: the product is
  formed in 32 bits and compared as a signed number.
\<close>

definition get_translation_heuristic :: "chs_s \<Rightarrow> u8" where
  "get_translation_heuristic p =
     (if cylinders p \<le> 1024 \<and> heads p \<le> 16 \<and> spt p \<le> 63 then ATA_TRANSLATION_NONE
      else if sint ((ucast (cylinders p) :: u32) * ucast (heads p)) \<le> 131072
      then ATA_TRANSLATION_LARGE
      else ATA_TRANSLATION_LBA)"

text \<open>The \<open>while (cylinders > 1024)\<close> loop of the "large" scheme.\<close>

function large_loop :: "u16 \<Rightarrow> u16 \<Rightarrow> u16 \<times> u16" where
  "large_loop cyls hds =
     (if 1024 < cyls
      then (let cyls' = drop_bit 1 cyls; hds' = push_bit 1 hds
            in if 127 < hds' then (cyls', hds') else large_loop cyls' hds')
      else (cyls, hds))"
  by pat_completeness auto
termination
proof (relation "measure (\<lambda>(cyls, hds). unat cyls)")
  show "wf (measure (\<lambda>(cyls, hds). unat cyls))" by simp
next
  fix cyls hds :: u16 and x xa
  assume a: "1024 < cyls" and b: "x = drop_bit 1 cyls"
  from a have "0 < unat cyls" by (simp add: word_less_nat_alt)
  then have "unat cyls div 2 < unat cyls" by simp
  then show "((x, xa), cyls, hds) \<in> measure (\<lambda>(cyls, hds). unat cyls)"
    by (simp add: b unat_drop_bit_eq drop_bit_eq_div unat_div)
qed

declare large_loop.simps [simp del]

text \<open>The head ladder of the LBA-assist scheme.\<close>

definition lba_heads :: "u16 \<Rightarrow> u16" where
  "lba_heads hds =
     (if 128 < hds then 255
      else if 64 < hds then 128
      else if 32 < hds then 64
      else if 16 < hds then 32
      else 16)"

text \<open>
  The \<open>switch\<close> of \<open>setup_translation\<close> and the clipping after it: from the translation
  tag, the physical geometry and the sector count to the logical geometry. The case
  \<open>ATA_TRANSLATION_RECHS\<close> falls through into \<open>ATA_TRANSLATION_LARGE\<close>.
\<close>

definition setup_translation_lchs :: "u8 \<Rightarrow> chs_s \<Rightarrow> u64 \<Rightarrow> chs_s" where
  "setup_translation_lchs transl p sects =
     (let hds = heads p; cyls = cylinders p; sp = spt p;
          (hds, cyls, sp) =
            (if transl = ATA_TRANSLATION_NONE then (hds, cyls, sp)
             else if transl = ATA_TRANSLATION_LBA then
               (if 63 * 255 * 1024 < sects then (255, 1024, 63)
                else let sect = (ucast sects :: u32) div 63;
                         hds = lba_heads (ucast (sect div 1024));
                         cyls = ucast (sect div ucast hds)
                     in (hds, cyls, 63))
             else if transl = ATA_TRANSLATION_RECHS then
               (let (hds, cyls) =
                      (if hds = 16
                       then (let cyls = (if 61439 < cyls then 61439 else cyls)
                             in (15, ucast ((ucast cyls :: u32) * 16 div 15)))
                       else (hds, cyls));
                    (cyls, hds) = large_loop cyls hds
                in (hds, cyls, sp))
             else if transl = ATA_TRANSLATION_LARGE then
               (let (cyls, hds) = large_loop cyls hds in (hds, cyls, sp))
             else (hds, cyls, sp));
          cyls = (if 1024 < cyls then 1024 else cyls)
      in \<lparr>heads = hds, cylinders = cyls, spt = sp\<rparr>)"

subsection \<open>The model name of \<open>extract_identify\<close>\<close>

text \<open>
  The identify buffer is an array of 16-bit words, \<open>buffer k\<close> being \<open>buffer[k]\<close>.
  \<open>maxsize\<close> is \<open>ARRAY_SIZE(ATA.devices[driveid].model)\<close>; the array is declared in
  disk.h, so its size is a parameter here.
\<close>

definition model_words :: "nat \<Rightarrow> (nat \<Rightarrow> u16) \<Rightarrow> u8 list \<Rightarrow> u8 list" where
  "model_words maxsize buffer mdl =
     fold (\<lambda>i m. (m[i * 2 := ucast (drop_bit 8 (buffer (27 + i)))])
                    [i * 2 + 1 := ucast (buffer (27 + i) AND 0xff)])
          [0 ..< maxsize div 2] mdl"

text \<open>\<open>for (i=maxsize-2; i>0 && model[i] == 0x20; i--) model[i] = 0x00;\<close>\<close>

fun trim_loop :: "nat \<Rightarrow> u8 list \<Rightarrow> u8 list" where
  "trim_loop i mdl =
     (if 0 < i \<and> mdl ! i = 0x20 then trim_loop (i - 1) (mdl[i := 0x00]) else mdl)"

definition extract_model :: "nat \<Rightarrow> (nat \<Rightarrow> u16) \<Rightarrow> u8 list \<Rightarrow> u8 list" where
  "extract_model maxsize buffer mdl =
     (let m1 = model_words maxsize buffer mdl;
          m2 = m1[maxsize - 1 := 0x00]
      in trim_loop (maxsize - 2) m2)"

text \<open>
  \<open>for (version=15; version>0; version--) if (ataversion & (1<<version)) break;\<close>
\<close>

fun version_loop :: "u16 \<Rightarrow> nat \<Rightarrow> nat" where
  "version_loop ataversion v =
     (if 0 < v
      then (if ataversion AND push_bit v 1 \<noteq> 0 then v else version_loop ataversion (v - 1))
      else v)"


subsection \<open>The machine: port input and output, memory, the BIOS variables\<close>

text \<open>
  Every access of the driver to the outside is an event; the events made so far, the
  newest first, are the \<open>trace\<close>. The hardware is a parameter: it answers an input from
  the whole history, so any deterministic controller, drive and clock is an instance.
  For a string input the second argument numbers the words of the burst.
\<close>

datatype io_event =
    E_inb u16 | E_inw u16 | E_inl u16
  | E_outb u8 u16
  | E_insw u16 u32 int | E_insl u16 u32 int
  | E_outsw u16 "u16 list" | E_outsl u16 "u32 list"
  | E_rdtscll | E_calc_future_tsc u32
  | E_ndelay nat | E_udelay nat | E_mdelay nat
  | E_inb_cmos u8
  | E_pci_config_readb u16 u32 | E_pci_config_readw u16 u32 | E_pci_config_readl u16 u32
  | E_add_bcv_hd nat "u8 list"
  | E_enable_hwirq nat

type_synonym hardware = "io_event list \<Rightarrow> nat \<Rightarrow> u64"

text \<open>
  The build configuration (config.h, not among the sources), the size of the model
  array (disk.h), the functions of the PCI bus that \<open>foreachpci\<close> visits (pci.h) and the
  flat address of the local array \<open>buffer\<close> of the identify functions are parameters,
  together with the hardware.
\<close>

record platform =
  hw :: hardware
  CONFIG_ATA :: bool
  CONFIG_COREBOOT :: bool
  CONFIG_DEBUG_LEVEL :: nat
  CONFIG_MAX_ATA_DEVICES :: nat
  CONFIG_MAX_ATA_INTERFACES :: nat
  model_size :: nat
  pci_functions :: "u16 list"
  identify_buffer :: u32

record machine =
  ATA :: ata_s
  ebda_sector_count :: u16
  bda_disk_control_byte :: u8
  ram :: "u32 \<Rightarrow> u8"
  trace :: "io_event list"

definition inb :: "platform \<Rightarrow> u16 \<Rightarrow> machine \<Rightarrow> u8 \<times> machine" where
  "inb P port s = (let t = E_inb port # trace s in (ucast (hw P t 0), s\<lparr>trace := t\<rparr>))"

definition inw :: "platform \<Rightarrow> u16 \<Rightarrow> machine \<Rightarrow> u16 \<times> machine" where
  "inw P port s = (let t = E_inw port # trace s in (ucast (hw P t 0), s\<lparr>trace := t\<rparr>))"

definition inl :: "platform \<Rightarrow> u16 \<Rightarrow> machine \<Rightarrow> u32 \<times> machine" where
  "inl P port s = (let t = E_inl port # trace s in (ucast (hw P t 0), s\<lparr>trace := t\<rparr>))"

definition outb :: "u8 \<Rightarrow> u16 \<Rightarrow> machine \<Rightarrow> machine" where
  "outb v port s = s\<lparr>trace := E_outb v port # trace s\<rparr>"

definition rdtscll :: "platform \<Rightarrow> machine \<Rightarrow> u64 \<times> machine" where
  "rdtscll P s = (let t = E_rdtscll # trace s in (hw P t 0, s\<lparr>trace := t\<rparr>))"

definition calc_future_tsc :: "platform \<Rightarrow> u32 \<Rightarrow> machine \<Rightarrow> u64 \<times> machine" where
  "calc_future_tsc P msecs s =
     (let t = E_calc_future_tsc msecs # trace s in (hw P t 0, s\<lparr>trace := t\<rparr>))"

definition ndelay :: "nat \<Rightarrow> machine \<Rightarrow> machine" where
  "ndelay n s = s\<lparr>trace := E_ndelay n # trace s\<rparr>"

definition udelay :: "nat \<Rightarrow> machine \<Rightarrow> machine" where
  "udelay n s = s\<lparr>trace := E_udelay n # trace s\<rparr>"

definition mdelay :: "nat \<Rightarrow> machine \<Rightarrow> machine" where
  "mdelay n s = s\<lparr>trace := E_mdelay n # trace s\<rparr>"

definition inb_cmos :: "platform \<Rightarrow> u8 \<Rightarrow> machine \<Rightarrow> u8 \<times> machine" where
  "inb_cmos P reg s = (let t = E_inb_cmos reg # trace s in (ucast (hw P t 0), s\<lparr>trace := t\<rparr>))"

definition pci_config_readb :: "platform \<Rightarrow> u16 \<Rightarrow> u32 \<Rightarrow> machine \<Rightarrow> u8 \<times> machine" where
  "pci_config_readb P bdf addr s =
     (let t = E_pci_config_readb bdf addr # trace s in (ucast (hw P t 0), s\<lparr>trace := t\<rparr>))"

definition pci_config_readw :: "platform \<Rightarrow> u16 \<Rightarrow> u32 \<Rightarrow> machine \<Rightarrow> u16 \<times> machine" where
  "pci_config_readw P bdf addr s =
     (let t = E_pci_config_readw bdf addr # trace s in (ucast (hw P t 0), s\<lparr>trace := t\<rparr>))"

definition pci_config_readl :: "platform \<Rightarrow> u16 \<Rightarrow> u32 \<Rightarrow> machine \<Rightarrow> u32 \<times> machine" where
  "pci_config_readl P bdf addr s =
     (let t = E_pci_config_readl bdf addr # trace s in (ucast (hw P t 0), s\<lparr>trace := t\<rparr>))"

text \<open>
  The division of C truncates towards zero (the division of HOL rounds down).
\<close>

definition c_div :: "int \<Rightarrow> int \<Rightarrow> int" where
  "c_div a b = sgn a * sgn b * (\<bar>a\<bar> div \<bar>b\<bar>)"

text \<open>
  The string inputs \<open>insw_fl\<close> and \<open>insl_fl\<close> store \<open>n\<close> words, little-endian, from the
  flat address \<open>buf\<close> on; the string outputs read them there. A negative \<open>n\<close> (which no
  caller in ata.c passes) moves nothing in the model.
\<close>

definition insw_fl :: "platform \<Rightarrow> u16 \<Rightarrow> u32 \<Rightarrow> int \<Rightarrow> machine \<Rightarrow> machine" where
  "insw_fl P port buf n s =
     (let t = E_insw port buf n # trace s
      in s\<lparr>trace := t,
            ram := (\<lambda>a. let off = unat (a - buf)
                        in if int off < 2 * n
                           then ucast (drop_bit (8 * (off mod 2)) (hw P t (off div 2)))
                           else ram s a)\<rparr>)"

definition insl_fl :: "platform \<Rightarrow> u16 \<Rightarrow> u32 \<Rightarrow> int \<Rightarrow> machine \<Rightarrow> machine" where
  "insl_fl P port buf n s =
     (let t = E_insl port buf n # trace s
      in s\<lparr>trace := t,
            ram := (\<lambda>a. let off = unat (a - buf)
                        in if int off < 4 * n
                           then ucast (drop_bit (8 * (off mod 4)) (hw P t (off div 4)))
                           else ram s a)\<rparr>)"

definition ram_word :: "machine \<Rightarrow> u32 \<Rightarrow> u16" where
  "ram_word s a = ucast (ram s a) OR push_bit 8 (ucast (ram s (a + 1)))"

definition ram_dword :: "machine \<Rightarrow> u32 \<Rightarrow> u32" where
  "ram_dword s a = ucast (ram_word s a) OR push_bit 16 (ucast (ram_word s (a + 2)))"

definition outsw_fl :: "u16 \<Rightarrow> u32 \<Rightarrow> int \<Rightarrow> machine \<Rightarrow> machine" where
  "outsw_fl port buf n s =
     s\<lparr>trace := E_outsw port (map (\<lambda>k. ram_word s (buf + 2 * of_nat k)) [0 ..< nat n]) # trace s\<rparr>"

definition outsl_fl :: "u16 \<Rightarrow> u32 \<Rightarrow> int \<Rightarrow> machine \<Rightarrow> machine" where
  "outsl_fl port buf n s =
     s\<lparr>trace := E_outsl port (map (\<lambda>k. ram_dword s (buf + 4 * of_nat k)) [0 ..< nat n]) # trace s\<rparr>"

text \<open>\<open>u8 channel = driveid / 2\<close> and \<open>u8 slave = driveid % 2\<close>, for a drive id that is not negative.\<close>

definition channel_of :: "nat \<Rightarrow> nat" where
  "channel_of drv = (drv div 2) mod 256"

definition slave_of :: "nat \<Rightarrow> nat" where
  "slave_of drv = drv mod 2"

definition set_device :: "nat \<Rightarrow> (ata_device_s \<Rightarrow> ata_device_s) \<Rightarrow> machine \<Rightarrow> machine" where
  "set_device drv f s = s\<lparr>ATA := (ATA s)\<lparr>devices := (devices (ATA s))(drv := f (devices (ATA s) drv))\<rparr>\<rparr>"

definition set_channel :: "nat \<Rightarrow> (ata_channel_s \<Rightarrow> ata_channel_s) \<Rightarrow> machine \<Rightarrow> machine" where
  "set_channel ch f s = s\<lparr>ATA := (ATA s)\<lparr>channels := (channels (ATA s))(ch := f (channels (ATA s) ch))\<rparr>\<rparr>"

subsection \<open>Helper functions\<close>

text \<open>
  \<open>await_ide\<close>: the \<open>for (;;)\<close> loop may run forever, so the result is an option and
  \<open>None\<close> stands for a loop that never leaves. The result \<open>int\<close> is the status byte or -1.
\<close>

partial_function (option) await_ide_loop ::
  "platform \<Rightarrow> u8 \<Rightarrow> u8 \<Rightarrow> u16 \<Rightarrow> u64 \<Rightarrow> machine \<Rightarrow> (int \<times> machine) option" where
  "await_ide_loop P msk flags base endt s =
     (let (status, s1) = inb P (base + ATA_CB_STAT) s
      in if status AND msk = flags then Some (uint status, s1)
         else let (now, s2) = rdtscll P s1
              in if endt \<le> now then Some (- 1, s2)
                 else await_ide_loop P msk flags base endt s2)"

declare await_ide_loop.simps [code]

definition await_ide ::
  "platform \<Rightarrow> u8 \<Rightarrow> u8 \<Rightarrow> u16 \<Rightarrow> u16 \<Rightarrow> machine \<Rightarrow> (int \<times> machine) option" where
  "await_ide P msk flags base timeout s =
     (let (endt, s1) = calc_future_tsc P (ucast timeout) s
      in await_ide_loop P msk flags base endt s1)"

definition await_not_bsy :: "platform \<Rightarrow> u16 \<Rightarrow> machine \<Rightarrow> (int \<times> machine) option" where
  "await_not_bsy P base s = await_ide P ATA_CB_STAT_BSY 0 base IDE_TIMEOUT s"

definition await_rdy :: "platform \<Rightarrow> u16 \<Rightarrow> machine \<Rightarrow> (int \<times> machine) option" where
  "await_rdy P base s = await_ide P ATA_CB_STAT_RDY ATA_CB_STAT_RDY base IDE_TIMEOUT s"

definition pause_await_not_bsy ::
  "platform \<Rightarrow> u16 \<Rightarrow> u16 \<Rightarrow> machine \<Rightarrow> (int \<times> machine) option" where
  "pause_await_not_bsy P iob1 iob2 s =
     (let (x, s1) = inb P (iob2 + ATA_CB_ASTAT) s in await_not_bsy P iob1 s1)"

definition ndelay_await_not_bsy :: "platform \<Rightarrow> u16 \<Rightarrow> machine \<Rightarrow> (int \<times> machine) option" where
  "ndelay_await_not_bsy P iob1 s = await_not_bsy P iob1 (ndelay 400 s)"

text \<open>
  The loop of \<open>ata_reset\<close> that selects the slave. The boolean of the result says
  whether the loop was left by \<open>goto done\<close> (rather than by \<open>break\<close>).
\<close>

partial_function (option) ata_reset_loop ::
  "platform \<Rightarrow> u16 \<Rightarrow> u64 \<Rightarrow> machine \<Rightarrow> (bool \<times> machine) option" where
  "ata_reset_loop P iob1 endt s =
     (let s1 = outb ATA_CB_DH_DEV1 (iob1 + ATA_CB_DH) s
      in case await_not_bsy P iob1 s1 of
           None \<Rightarrow> None
         | Some (status, s2) \<Rightarrow>
             if status < 0 then Some (True, s2)
             else let (dh, s3) = inb P (iob1 + ATA_CB_DH) s2
                  in if dh = ATA_CB_DH_DEV1 then Some (False, s3)
                     else let (now, s4) = rdtscll P s3
                          in if endt \<le> now then Some (True, s4)
                             else ata_reset_loop P iob1 endt s4)"

declare ata_reset_loop.simps [code]

definition ata_reset :: "platform \<Rightarrow> nat \<Rightarrow> machine \<Rightarrow> machine option" where
  "ata_reset P drv s =
     (let channel = channel_of drv;
          slave = slave_of drv;
          iob1 = iobase1 (channels (ATA s) channel);
          iob2 = iobase2 (channels (ATA s) channel);
          s1 = outb (ATA_CB_DC_HD15 OR ATA_CB_DC_NIEN OR ATA_CB_DC_SRST) (iob2 + ATA_CB_DC) s;
          s2 = udelay 5 s1;
          s3 = outb (ATA_CB_DC_HD15 OR ATA_CB_DC_NIEN) (iob2 + ATA_CB_DC) s2;
          s4 = mdelay 2 s3
      in do {
           (status, s5) \<leftarrow> await_not_bsy P iob1 s4;
           (gone, s6) \<leftarrow>
             (if status < 0 then Some (True, s5)
              else if slave \<noteq> 0
              then (let (endt, s') = calc_future_tsc P (ucast IDE_TIMEOUT) s5
                    in ata_reset_loop P iob1 endt s')
              else Some (False, s5));
           s7 \<leftarrow>
             (if gone then Some s6
              else if type (devices (ATA s6) drv) = ATA_TYPE_ATA
              then map_option snd (await_rdy P iob1 s6)
              else Some s6);
           Some (outb ATA_CB_DC_HD15 (iob2 + ATA_CB_DC) s7)
         })"


subsection \<open>ATA send command\<close>

text \<open>
  \<open>dprintf(lvl, ...)\<close> prints (and evaluates its arguments) when the level is at most
  \<open>CONFIG_DEBUG_LEVEL\<close>. The text printed is not modelled; an argument that reads a
  port is.
\<close>

definition dprintf_inb :: "platform \<Rightarrow> nat \<Rightarrow> u16 \<Rightarrow> machine \<Rightarrow> machine" where
  "dprintf_inb P lvl port s = (if lvl \<le> CONFIG_DEBUG_LEVEL P then snd (inb P port s) else s)"

definition send_cmd ::
  "platform \<Rightarrow> nat \<Rightarrow> ata_pio_command \<Rightarrow> machine \<Rightarrow> (int \<times> machine) option" where
  "send_cmd P drv cmd s =
     (let channel = channel_of drv;
          slave = slave_of drv;
          iob1 = iobase1 (channels (ATA s) channel);
          iob2 = iobase2 (channels (ATA s) channel);
          s1 = outb (ATA_CB_DC_HD15 OR ATA_CB_DC_NIEN) (iob2 + ATA_CB_DC) s
      in do {
           (status, s2) \<leftarrow> await_not_bsy P iob1 s1;
           if status < 0 then Some (status, s2)
           else
             let newdh = (device_reg cmd AND NOT ATA_CB_DH_DEV1)
                           OR (if slave \<noteq> 0 then ATA_CB_DH_DEV1 else ATA_CB_DH_DEV0);
                 (olddh, s3) = inb P (iob1 + ATA_CB_DH) s2;
                 s4 = outb newdh (iob1 + ATA_CB_DH) s3
             in do {
                  (status, s5) \<leftarrow>
                    (if (olddh XOR newdh) AND push_bit 4 1 \<noteq> 0
                     then await_not_bsy P iob1 s4
                     else Some (status, s4));
                  if status < 0 then Some (status, s5)
                  else
                    let s6 = (if command_reg cmd AND 0x04 \<noteq> 0
                              then outb (lba_high2 cmd) (iob1 + ATA_CB_CH)
                                    (outb (lba_mid2 cmd) (iob1 + ATA_CB_CL)
                                      (outb (lba_low2 cmd) (iob1 + ATA_CB_SN)
                                        (outb (sector_count2 cmd) (iob1 + ATA_CB_SC)
                                          (outb 0x00 (iob1 + ATA_CB_FR) s5))))
                              else s5);
                        s7 = outb (command_reg cmd) (iob1 + ATA_CB_CMD)
                              (outb (lba_high cmd) (iob1 + ATA_CB_CH)
                                (outb (lba_mid cmd) (iob1 + ATA_CB_CL)
                                  (outb (lba_low cmd) (iob1 + ATA_CB_SN)
                                    (outb (sector_count cmd) (iob1 + ATA_CB_SC)
                                      (outb (feature cmd) (iob1 + ATA_CB_FR) s6)))))
                    in do {
                         (status, s8) \<leftarrow> ndelay_await_not_bsy P iob1 s7;
                         if status < 0 then Some (status, s8)
                         else if status AND uint ATA_CB_STAT_ERR \<noteq> 0
                         then Some (- 4, dprintf_inb P 6 (iob1 + ATA_CB_ERR) s8)
                         else if status AND uint ATA_CB_STAT_DRQ = 0
                         then Some (- 5, s8)
                         else Some (0, s8)
                       }
                }
         })"

subsection \<open>ATA transfers\<close>

primrec repeat_inw :: "platform \<Rightarrow> u16 \<Rightarrow> nat \<Rightarrow> machine \<Rightarrow> machine" where
  "repeat_inw P port 0 s = s"
| "repeat_inw P port (Suc n) s = repeat_inw P port n (snd (inw P port s))"

primrec repeat_inl :: "platform \<Rightarrow> u16 \<Rightarrow> nat \<Rightarrow> machine \<Rightarrow> machine" where
  "repeat_inl P port 0 s = s"
| "repeat_inl P port (Suc n) s = repeat_inl P port n (snd (inl P port s))"

text \<open>
  \<open>insx_discard\<close>: the loops \<open>for (i=0; i<count; i++)\<close> run \<open>count\<close> times, and not at
  all for a \<open>count\<close> that is not positive.
\<close>

definition insx_discard :: "platform \<Rightarrow> u8 \<Rightarrow> u16 \<Rightarrow> int \<Rightarrow> machine \<Rightarrow> machine" where
  "insx_discard P md iob1 bytes s =
     (if md = ATA_MODE_PIO32
      then repeat_inl P iob1 (nat (c_div bytes 4)) s
      else repeat_inw P iob1 (nat (c_div bytes 2)) s)"

text \<open>
  The \<open>for (;;)\<close> loop of \<open>ata_transfer\<close>. The result is \<open>Inl status\<close> for a \<open>return\<close>
  inside the loop and \<open>Inr status\<close> for the \<open>break\<close>. The counter \<open>current\<close> is an \<open>int\<close>
  that runs from 0 up to \<open>count\<close>.
\<close>

partial_function (option) ata_transfer_loop ::
  "platform \<Rightarrow> bool \<Rightarrow> int \<Rightarrow> int \<Rightarrow> int \<Rightarrow> int \<Rightarrow> u16 \<Rightarrow> u16 \<Rightarrow> u8 \<Rightarrow> int \<Rightarrow> u32 \<Rightarrow> machine
     \<Rightarrow> ((int + int) \<times> machine) option" where
  "ata_transfer_loop P iswrite cnt blocksize skipfirst skiplast iob1 iob2 md current buf s =
     (let bsize = blocksize;
          (bsize, s1) =
            (if skipfirst \<noteq> 0 \<and> current = 0
             then (bsize - skipfirst, insx_discard P md iob1 skipfirst s)
             else (bsize, s));
          bsize = (if skiplast \<noteq> 0 \<and> current = cnt - 1 then bsize - skiplast else bsize);
          s2 = (if iswrite
                then (if md = ATA_MODE_PIO32
                      then outsl_fl iob1 buf (c_div bsize 4) s1
                      else outsw_fl iob1 buf (c_div bsize 2) s1)
                else (if md = ATA_MODE_PIO32
                      then insl_fl P iob1 buf (c_div bsize 4) s1
                      else insw_fl P iob1 buf (c_div bsize 2) s1));
          buf = buf + word_of_int bsize;
          s3 = (if skiplast \<noteq> 0 \<and> current = cnt - 1
                then insx_discard P md iob1 skiplast s2 else s2)
      in case pause_await_not_bsy P iob1 iob2 s3 of
           None \<Rightarrow> None
         | Some (status, s4) \<Rightarrow>
             if status < 0 then Some (Inl status, s4)
             else
               let current = current + 1;
                   s5 = s4\<lparr>ebda_sector_count := word_of_int current\<rparr>
               in if current = cnt then Some (Inr status, s5)
                  else
                    let status = status AND uint (ATA_CB_STAT_BSY OR ATA_CB_STAT_DRQ
                                                   OR ATA_CB_STAT_ERR)
                    in if status \<noteq> uint ATA_CB_STAT_DRQ then Some (Inl (- 6), s5)
                       else ata_transfer_loop P iswrite cnt blocksize skipfirst skiplast
                              iob1 iob2 md current buf s5)"

declare ata_transfer_loop.simps [code]

definition ata_transfer ::
  "platform \<Rightarrow> nat \<Rightarrow> bool \<Rightarrow> int \<Rightarrow> int \<Rightarrow> int \<Rightarrow> int \<Rightarrow> u32 \<Rightarrow> machine
     \<Rightarrow> (int \<times> machine) option" where
  "ata_transfer P drv iswrite cnt blocksize skipfirst skiplast buf s =
     (let s0 = s\<lparr>ebda_sector_count := 0\<rparr>;
          channel = channel_of drv;
          iob1 = iobase1 (channels (ATA s0) channel);
          iob2 = iobase2 (channels (ATA s0) channel);
          md = mode (devices (ATA s0) drv)
      in do {
           (r, s1) \<leftarrow> ata_transfer_loop P iswrite cnt blocksize skipfirst skiplast
                         iob1 iob2 md 0 buf s0;
           case r of
             Inl status \<Rightarrow> Some (status, s1)
           | Inr status \<Rightarrow>
               let status = status AND uint (ATA_CB_STAT_BSY OR ATA_CB_STAT_DF
                                              OR ATA_CB_STAT_DRQ OR ATA_CB_STAT_ERR);
                   status = (if \<not> iswrite then status AND NOT (uint ATA_CB_STAT_DF)
                             else status)
               in if status \<noteq> 0 then Some (- 7, s1)
                  else Some (0, outb ATA_CB_DC_HD15 (iob2 + ATA_CB_DC) s1)
         })"

definition ata_transfer_disk :: "platform \<Rightarrow> disk_op_s \<Rightarrow> machine \<Rightarrow> (int \<times> machine) option" where
  "ata_transfer_disk P op s =
     ata_transfer P (unat (driveid op)) (command op = ATA_CMD_WRITE_SECTORS)
       (uint (count op)) IDE_SECTOR_SIZE 0 0 (buf_fl op) s"

definition ata_transfer_cdrom :: "platform \<Rightarrow> disk_op_s \<Rightarrow> machine \<Rightarrow> (int \<times> machine) option" where
  "ata_transfer_cdrom P op s =
     ata_transfer P (unat (driveid op)) False (uint (count op)) CDROM_SECTOR_SIZE 0 0
       (buf_fl op) s"

text \<open>
  Modelled from the spec: \<open>sector_count\<close> is the "shared progress counter" of the
  extended BIOS data area, declared in biosvar.h (not among the sources); it is taken
  as a 16-bit counter, which every block count of a descriptor fits.
\<close>

definition ata_transfer_cdemu ::
  "platform \<Rightarrow> disk_op_s \<Rightarrow> int \<Rightarrow> int \<Rightarrow> machine \<Rightarrow> (int \<times> machine) option" where
  "ata_transfer_cdemu P op before after s =
     (let vcount = uint (count op) * 4 - before - after
      in do {
           (ret, s1) \<leftarrow> ata_transfer P (unat (driveid op)) False (uint (count op))
                           CDROM_SECTOR_SIZE (before * 512) (after * 512) (buf_fl op) s;
           if ret \<noteq> 0 then Some (ret, s1\<lparr>ebda_sector_count := 0\<rparr>)
           else Some (0, s1\<lparr>ebda_sector_count := word_of_int vcount\<rparr>)
         })"

subsection \<open>ATA hard drive functions\<close>

definition send_cmd_disk :: "platform \<Rightarrow> disk_op_s \<Rightarrow> machine \<Rightarrow> (int \<times> machine) option" where
  "send_cmd_disk P op s = send_cmd P (unat (driveid op)) (send_cmd_disk_cmd op) s"

definition ata_cmd_data :: "platform \<Rightarrow> disk_op_s \<Rightarrow> machine \<Rightarrow> (int \<times> machine) option" where
  "ata_cmd_data P op s =
     do {
       (ret, s1) \<leftarrow> send_cmd_disk P op s;
       if ret \<noteq> 0 then Some (ret, s1) else ata_transfer_disk P op s1
     }"

subsection \<open>ATAPI functions\<close>

text \<open>
  \<open>send_atapi_cmd\<close>: \<open>cmdbuf k\<close> is the byte \<open>cmdbuf[k]\<close> of the packet. The command block
  is not cleared by the source; the four extended fields stay unset and are never read,
  the packet command code having bit \<open>0x04\<close> clear.
\<close>

definition send_atapi_cmd ::
  "platform \<Rightarrow> nat \<Rightarrow> (nat \<Rightarrow> u8) \<Rightarrow> u8 \<Rightarrow> u16 \<Rightarrow> machine \<Rightarrow> (int \<times> machine) option" where
  "send_atapi_cmd P drv cmdbuf cmdlen blocksize s =
     (let channel = channel_of drv;
          iob1 = iobase1 (channels (ATA s) channel);
          iob2 = iobase2 (channels (ATA s) channel);
          cmd = zero_cmd\<lparr>sector_count := 0, feature := 0, lba_low := 0,
                         lba_mid := ucast blocksize,
                         lba_high := ucast (drop_bit 8 blocksize),
                         device_reg := 0,
                         command_reg := ATA_CMD_PACKET\<rparr>
      in do {
           (ret, s1) \<leftarrow> send_cmd P drv cmd s;
           if ret \<noteq> 0 then Some (ret, s1)
           else
             let s2 = s1\<lparr>trace :=
                         E_outsw iob1 (map (\<lambda>k. ucast (cmdbuf (2 * k))
                                               OR push_bit 8 (ucast (cmdbuf (2 * k + 1))))
                                         [0 ..< unat cmdlen div 2]) # trace s1\<rparr>
             in do {
                  (status, s3) \<leftarrow> pause_await_not_bsy P iob1 iob2 s2;
                  if status < 0 then Some (status, s3)
                  else if status AND uint ATA_CB_STAT_ERR \<noteq> 0
                  then Some (- 2, dprintf_inb P 6 (iob1 + ATA_CB_ERR) s3)
                  else if status AND uint ATA_CB_STAT_DRQ = 0
                  then Some (- 3, s3)
                  else Some (0, s3)
                }
         })"

definition atacmd_read :: "disk_op_s \<Rightarrow> nat \<Rightarrow> u8" where
  "atacmd_read op k =
     (if k = 0 then 0x28
      else if k = 7 then ucast (drop_bit 8 (count op AND 0xff00))
      else if k = 8 then ucast (count op AND 0x00ff)
      else if k = 2 then ucast (drop_bit 24 (lba op AND 0xff000000))
      else if k = 3 then ucast (drop_bit 16 (lba op AND 0x00ff0000))
      else if k = 4 then ucast (drop_bit 8 (lba op AND 0x0000ff00))
      else if k = 5 then ucast (lba op AND 0x000000ff)
      else 0)"

definition send_cmd_cdrom :: "platform \<Rightarrow> disk_op_s \<Rightarrow> machine \<Rightarrow> (int \<times> machine) option" where
  "send_cmd_cdrom P op s =
     send_atapi_cmd P (unat (driveid op)) (atacmd_read op) 12 (word_of_int CDROM_SECTOR_SIZE) s"

definition cdrom_read :: "platform \<Rightarrow> disk_op_s \<Rightarrow> machine \<Rightarrow> (int \<times> machine) option" where
  "cdrom_read P op s =
     do {
       (ret, s1) \<leftarrow> send_cmd_cdrom P op s;
       if ret \<noteq> 0 then Some (ret, s1) else ata_transfer_cdrom P op s1
     }"

text \<open>
  The arithmetic at the head of \<open>cdrom_read_512\<close>: the descriptor as the function
  leaves it, and the locals \<open>lba\<close>, \<open>elba\<close>, \<open>before\<close> and \<open>after\<close>.
\<close>

definition cdrom_read_512_locals :: "disk_op_s \<Rightarrow> disk_op_s \<times> u32 \<times> u32 \<times> int \<times> int" where
  "cdrom_read_512_locals op =
     (let vlba = (ucast (lba op) :: u32);
          vcount = (ucast (count op) :: u32);
          lba' = vlba div 4;
          op1 = op\<lparr>lba := ucast lba'\<rparr>;
          velba = vlba + vcount - 1;
          elba = velba div 4;
          op2 = op1\<lparr>count := ucast (elba - lba' + 1)\<rparr>;
          before = uint (vlba mod 4);
          after = uint (3 - velba mod 4)
      in (op2, lba', elba, before, after))"

text \<open>
  The descriptor is changed in place; the result carries it next to the return value.
\<close>

definition cdrom_read_512 ::
  "platform \<Rightarrow> disk_op_s \<Rightarrow> machine \<Rightarrow> ((int \<times> disk_op_s) \<times> machine) option" where
  "cdrom_read_512 P op s =
     (let (op2, lba', elba, before, after) = cdrom_read_512_locals op
      in do {
           (ret, s1) \<leftarrow> send_cmd_cdrom P op2 s;
           if ret \<noteq> 0 then Some ((ret, op2), s1)
           else do {
                  (ret, s2) \<leftarrow> ata_transfer_cdemu P op2 before after s1;
                  Some ((ret, op2), s2)
                }
         })"

definition ata_cmd_packet ::
  "platform \<Rightarrow> nat \<Rightarrow> (nat \<Rightarrow> u8) \<Rightarrow> u8 \<Rightarrow> u32 \<Rightarrow> u32 \<Rightarrow> machine \<Rightarrow> (int \<times> machine) option" where
  "ata_cmd_packet P drv cmdbuf cmdlen len buf s =
     do {
       (ret, s1) \<leftarrow> send_atapi_cmd P drv cmdbuf cmdlen (ucast len) s;
       if ret \<noteq> 0 then Some (ret, s1)
       else ata_transfer P drv False 1 (sint len) 0 0 buf s1
     }"


subsection \<open>Disk geometry translation\<close>

definition get_translation :: "platform \<Rightarrow> nat \<Rightarrow> machine \<Rightarrow> u8 \<times> machine" where
  "get_translation P drv s =
     (if \<not> CONFIG_COREBOOT P
      then (let channel = channel_of drv;
                (transl, s1) = inb_cmos P (CMOS_BIOS_DISKTRANSFLAG + of_nat (channel div 2)) s;
                transl = drop_bit (2 * (drv mod 4)) transl;
                transl = transl AND 0x03
            in (transl, s1))
      else (get_translation_heuristic (pchs (devices (ATA s) drv)), s))"

definition setup_translation :: "platform \<Rightarrow> nat \<Rightarrow> machine \<Rightarrow> machine" where
  "setup_translation P drv s =
     (let (transl, s1) = get_translation P drv s;
          s2 = set_device drv (\<lambda>d. d\<lparr>translation := transl\<rparr>) s1;
          d = devices (ATA s2) drv;
          l = setup_translation_lchs transl (pchs d) (sectors d)
      in set_device drv (\<lambda>d. d\<lparr>lchs := l\<rparr>) s2)"

subsection \<open>ATA detect and init\<close>

definition extract_identify :: "platform \<Rightarrow> nat \<Rightarrow> (nat \<Rightarrow> u16) \<Rightarrow> machine \<Rightarrow> machine" where
  "extract_identify P drv buffer s =
     (let s1 = set_device drv
                 (\<lambda>d. d\<lparr>model := extract_model (model_size P) buffer (model d)\<rparr>) s;
          ataversion = buffer 80;
          s2 = set_device drv (\<lambda>d. d\<lparr>version := of_nat (version_loop ataversion 15)\<rparr>) s1;
          s3 = set_device drv
                 (\<lambda>d. d\<lparr>removable := (if buffer 0 AND 0x80 \<noteq> 0 then 1 else 0)\<rparr>) s2
      in set_device drv
           (\<lambda>d. d\<lparr>mode := (if buffer 48 \<noteq> 0 then ATA_MODE_PIO32 else ATA_MODE_PIO16)\<rparr>) s3)"

text \<open>\<open>memset(buffer, 0, sizeof(buffer))\<close> for the 256 words of the identify buffer.\<close>

definition clear_buffer :: "u32 \<Rightarrow> machine \<Rightarrow> machine" where
  "clear_buffer buf s = s\<lparr>ram := (\<lambda>a. if unat (a - buf) < 512 then 0 else ram s a)\<rparr>"

definition buffer_of :: "machine \<Rightarrow> u32 \<Rightarrow> nat \<Rightarrow> u16" where
  "buffer_of s buf k = ram_word s (buf + 2 * of_nat k)"

definition init_drive_atapi :: "platform \<Rightarrow> nat \<Rightarrow> machine \<Rightarrow> (int \<times> machine) option" where
  "init_drive_atapi P drv s =
     (let buf = identify_buffer P;
          s0 = clear_buffer buf s;
          dop = \<lparr>lba = 1, buf_fl = buf, count = 1, driveid = of_nat drv,
                 command = ATA_CMD_IDENTIFY_DEVICE_PACKET\<rparr>
      in do {
           (ret, s1) \<leftarrow> ata_cmd_data P dop s0;
           if ret \<noteq> 0 then Some (ret, s1)
           else
             let buffer = buffer_of s1 buf;
                 s2 = extract_identify P drv buffer s1;
                 s3 = set_device drv (\<lambda>d. d\<lparr>type := ATA_TYPE_ATAPI\<rparr>) s2;
                 s4 = set_device drv
                        (\<lambda>d. d\<lparr>device := ucast (drop_bit 8 (buffer 0) AND 0x1f)\<rparr>) s3;
                 s5 = set_device drv (\<lambda>d. d\<lparr>blksize := word_of_int CDROM_SECTOR_SIZE\<rparr>) s4;
                 cdc = cdcount (ATA s5);
                 s6 = s5\<lparr>ATA := (ATA s5)\<lparr>idmap :=
                         (idmap (ATA s5))(1 := (idmap (ATA s5) 1)(unat cdc := of_nat drv))\<rparr>\<rparr>;
                 s7 = s6\<lparr>ATA := (ATA s6)\<lparr>cdcount := cdc + 1\<rparr>\<rparr>
             in Some (0, s7)
         })"

definition add_bcv_hd :: "nat \<Rightarrow> u8 list \<Rightarrow> machine \<Rightarrow> machine" where
  "add_bcv_hd drv mdl s = s\<lparr>trace := E_add_bcv_hd drv mdl # trace s\<rparr>"

definition init_drive_ata :: "platform \<Rightarrow> nat \<Rightarrow> machine \<Rightarrow> (int \<times> machine) option" where
  "init_drive_ata P drv s =
     (let buf = identify_buffer P;
          s0 = clear_buffer buf s;
          dop = \<lparr>lba = 1, buf_fl = buf, count = 1, driveid = of_nat drv,
                 command = ATA_CMD_IDENTIFY_DEVICE\<rparr>
      in do {
           (ret, s1) \<leftarrow> ata_cmd_data P dop s0;
           if ret \<noteq> 0 then Some (ret, s1)
           else
             let buffer = buffer_of s1 buf;
                 s2 = extract_identify P drv buffer s1;
                 s3 = set_device drv (\<lambda>d. d\<lparr>type := ATA_TYPE_ATA\<rparr>) s2;
                 s4 = set_device drv (\<lambda>d. d\<lparr>device := ATA_DEVICE_HD\<rparr>) s3;
                 s5 = set_device drv (\<lambda>d. d\<lparr>blksize := word_of_int IDE_SECTOR_SIZE\<rparr>) s4;
                 s6 = set_device drv
                        (\<lambda>d. d\<lparr>pchs := \<lparr>heads = buffer 3, cylinders = buffer 1,
                                          spt = buffer 6\<rparr>\<rparr>) s5;
                 sects = (if buffer 83 AND push_bit 10 1 \<noteq> 0
                          then ucast (buffer 100) OR push_bit 16 (ucast (buffer 101))
                                 OR push_bit 32 (ucast (buffer 102))
                                 OR push_bit 48 (ucast (buffer 103))
                          else ucast (buffer 60) OR push_bit 16 (ucast (buffer 61)));
                 s7 = set_device drv (\<lambda>d. d\<lparr>sectors := sects\<rparr>) s6;
                 s8 = setup_translation P drv s7;
                 s9 = add_bcv_hd drv (model (devices (ATA s8) drv)) s8
             in Some (0, s9)
         })"

text \<open>
  One round of the \<open>for\<close> loop of \<open>ata_detect\<close>, after the test of \<open>iobase1\<close>, in
  two parts. \<open>ata_detect_probe\<close> is the part "Look for device" and "Check if ioport
  registers look valid": it writes the pattern and reads \<open>sc\<close> and \<open>sn\<close> back.
\<close>

definition ata_detect_probe ::
  "platform \<Rightarrow> nat \<Rightarrow> u16 \<Rightarrow> machine \<Rightarrow> (u8 \<times> u8) \<times> machine" where
  "ata_detect_probe P slave iob1 s =
     (let s1 = outb (if slave \<noteq> 0 then ATA_CB_DH_DEV1 else ATA_CB_DH_DEV0) (iob1 + ATA_CB_DH) s;
          s2 = outb 0x55 (iob1 + ATA_CB_SC) s1;
          s3 = outb 0xaa (iob1 + ATA_CB_SN) s2;
          s4 = outb 0xaa (iob1 + ATA_CB_SC) s3;
          s5 = outb 0x55 (iob1 + ATA_CB_SN) s4;
          s6 = outb 0x55 (iob1 + ATA_CB_SC) s5;
          s7 = outb 0xaa (iob1 + ATA_CB_SN) s6;
          (sc, s8) = inb P (iob1 + ATA_CB_SC) s7;
          (sn, s9) = inb P (iob1 + ATA_CB_SN) s8
      in ((sc, sn), s9))"

text \<open>
  \<open>ata_detect_init\<close> is the rest of the round, from "reset the channel" on. The
  result carries \<open>last_reset_driveid\<close>; every \<open>continue\<close> is a result \<open>Some\<close>.
\<close>

definition ata_detect_init ::
  "platform \<Rightarrow> nat \<Rightarrow> nat \<Rightarrow> u16 \<Rightarrow> int \<Rightarrow> machine \<Rightarrow> (int \<times> machine) option" where
  "ata_detect_init P drv slave iob1 last_reset_driveid s =
     do {
       (last_reset, s1) \<leftarrow>
         (if slave \<noteq> 0 \<and> int drv = last_reset_driveid + 1
          then Some (last_reset_driveid, s)
          else map_option (\<lambda>s'. (int drv, s')) (ata_reset P drv s));
       (ret, s2) \<leftarrow> init_drive_atapi P drv s1;
       if ret = 0 then Some (last_reset, s2)
       else
         let (st, s3) = inb P (iob1 + ATA_CB_STAT) s2
         in if st = 0 then Some (last_reset, s3)
            else do {
              (ret, s4) \<leftarrow> await_rdy P iob1 s3;
              if ret < 0 then Some (last_reset, s4)
              else do {
                (ret, s5) \<leftarrow> init_drive_ata P drv s4;
                Some (last_reset, s5)
              }
            }
     }"

definition ata_detect_drive ::
  "platform \<Rightarrow> nat \<Rightarrow> int \<Rightarrow> machine \<Rightarrow> (int \<times> machine) option" where
  "ata_detect_drive P drv last_reset_driveid s =
     (let channel = channel_of drv;
          slave = slave_of drv;
          iob1 = iobase1 (channels (ATA s) channel);
          ((sc, sn), s9) = ata_detect_probe P slave iob1 s
      in if sc \<noteq> 0x55 \<or> sn \<noteq> 0xaa then Some (last_reset_driveid, s9)
         else ata_detect_init P drv slave iob1 last_reset_driveid s9)"

text \<open>
  The \<open>for\<close> loop of \<open>ata_detect\<close>, with its bound \<open>maxdev\<close> (which \<open>ata_detect\<close> sets to
  \<open>CONFIG_MAX_ATA_DEVICES\<close>): it ends when \<open>driveid\<close> reaches the bound, or by the
  \<open>break\<close> at a channel whose \<open>iobase1\<close> is 0.
\<close>

function ata_detect_loop ::
  "platform \<Rightarrow> nat \<Rightarrow> nat \<Rightarrow> int \<Rightarrow> machine \<Rightarrow> machine option" where
  "ata_detect_loop P maxdev drv last_reset_driveid s =
     (if drv < maxdev
      then (if iobase1 (channels (ATA s) (channel_of drv)) = 0 then Some s
            else case ata_detect_drive P drv last_reset_driveid s of
                   None \<Rightarrow> None
                 | Some (last_reset, s') \<Rightarrow> ata_detect_loop P maxdev (drv + 1) last_reset s')
      else Some s)"
  by pat_completeness auto
termination
  by (relation "measure (\<lambda>(P, maxdev, drv, l, s). maxdev - drv)") auto

declare ata_detect_loop.simps [simp del]

definition ata_detect :: "platform \<Rightarrow> machine \<Rightarrow> machine option" where
  "ata_detect P s = ata_detect_loop P (CONFIG_MAX_ATA_DEVICES P) 0 (- 1) s"

text \<open>
  Modelled from the spec: the configuration registers of pci_regs.h and the class code
  of pci_ids.h (not among the sources), for the scan of \<open>ata_init\<close> that reads "class
  code, program-interface byte, base-address registers, interrupt line".
\<close>

definition PCI_CLASS_DEVICE :: u32 where "PCI_CLASS_DEVICE = 0x0a"
definition PCI_CLASS_PROG :: u32 where "PCI_CLASS_PROG = 0x09"
definition PCI_INTERRUPT_LINE :: u32 where "PCI_INTERRUPT_LINE = 0x3c"
definition PCI_BASE_ADDRESS_0 :: u32 where "PCI_BASE_ADDRESS_0 = 0x10"
definition PCI_BASE_ADDRESS_1 :: u32 where "PCI_BASE_ADDRESS_1 = 0x14"
definition PCI_BASE_ADDRESS_2 :: u32 where "PCI_BASE_ADDRESS_2 = 0x18"
definition PCI_BASE_ADDRESS_3 :: u32 where "PCI_BASE_ADDRESS_3 = 0x1c"
definition PCI_CLASS_STORAGE_IDE :: u16 where "PCI_CLASS_STORAGE_IDE = 0x0101"

text \<open>\<open>memset(&ATA, 0, sizeof(ATA))\<close>.\<close>

definition zero_chs :: chs_s where
  "zero_chs = \<lparr>heads = 0, cylinders = 0, spt = 0\<rparr>"

definition zero_ATA :: "platform \<Rightarrow> ata_s" where
  "zero_ATA P =
     \<lparr>channels = (\<lambda>c. \<lparr>iobase1 = 0, iobase2 = 0, pci_bdf = 0, irq = 0\<rparr>),
      devices = (\<lambda>d. \<lparr>type = 0, device = 0, removable = 0, mode = 0, translation = 0,
                       version = 0, blksize = 0, model = replicate (model_size P) 0,
                       lchs = zero_chs, pchs = zero_chs, sectors = 0\<rparr>),
      cdcount = 0,
      idmap = (\<lambda>i d. 0)\<rparr>"

text \<open>The \<open>foreachpci\<close> loop of \<open>ata_init\<close>, over the functions still to visit.\<close>

fun ata_init_pci :: "platform \<Rightarrow> u16 list \<Rightarrow> nat \<Rightarrow> machine \<Rightarrow> machine" where
  "ata_init_pci P [] cnt s = s"
| "ata_init_pci P (bdf # bdfs) cnt s =
     (let (cls, s1) = pci_config_readw P bdf PCI_CLASS_DEVICE s
      in if cls \<noteq> PCI_CLASS_STORAGE_IDE then ata_init_pci P bdfs cnt s1
         else if CONFIG_MAX_ATA_INTERFACES P \<le> cnt then s1
         else
           let (irq_line, s2) = pci_config_readb P bdf PCI_INTERRUPT_LINE s1;
               s3 = set_channel cnt (\<lambda>c. c\<lparr>irq := irq_line, pci_bdf := bdf\<rparr>) s2;
               (prog_if, s4) = pci_config_readb P bdf PCI_CLASS_PROG s3;
               (port1, port2, s5) =
                 (if prog_if AND 1 \<noteq> 0
                  then (let (a, t1) = pci_config_readl P bdf PCI_BASE_ADDRESS_0 s4;
                            (b, t2) = pci_config_readl P bdf PCI_BASE_ADDRESS_1 t1
                        in (a AND NOT 3, b AND NOT 3, t2))
                  else (0x1f0, 0x3f0, s4));
               s6 = set_channel cnt
                      (\<lambda>c. c\<lparr>iobase1 := ucast port1, iobase2 := ucast port2\<rparr>) s5;
               cnt = cnt + 1;
               (port1, port2, s7) =
                 (if prog_if AND 4 \<noteq> 0
                  then (let (a, t1) = pci_config_readl P bdf PCI_BASE_ADDRESS_2 s6;
                            (b, t2) = pci_config_readl P bdf PCI_BASE_ADDRESS_3 t1
                        in (a AND NOT 3, b AND NOT 3, t2))
                  else (0x170, 0x370, s6));
               s8 = set_channel cnt
                      (\<lambda>c. c\<lparr>iobase1 := ucast port1, iobase2 := ucast port2\<rparr>) s7;
               cnt = cnt + 1
           in ata_init_pci P bdfs cnt s8)"

definition ata_init :: "platform \<Rightarrow> machine \<Rightarrow> machine" where
  "ata_init P s =
     (let s1 = s\<lparr>ATA := zero_ATA P\<rparr>;
          s2 = s1\<lparr>ATA := (ATA s1)\<lparr>idmap :=
                  (\<lambda>i d. if i < 2 \<and> d < CONFIG_MAX_ATA_DEVICES P
                         then of_nat (CONFIG_MAX_ATA_DEVICES P) else idmap (ATA s1) i d)\<rparr>\<rparr>
      in ata_init_pci P (pci_functions P) 0 s2)"

definition enable_hwirq :: "nat \<Rightarrow> machine \<Rightarrow> machine" where
  "enable_hwirq n s = s\<lparr>trace := E_enable_hwirq n # trace s\<rparr>"

definition hard_drive_setup :: "platform \<Rightarrow> machine \<Rightarrow> machine option" where
  "hard_drive_setup P s =
     (if \<not> CONFIG_ATA P then Some s
      else do {
        s1 \<leftarrow> ata_detect P (ata_init P s);
        Some (enable_hwirq 14 (s1\<lparr>bda_disk_control_byte := 0xc0\<rparr>))
      })"

subsection \<open>Example inputs\<close>

text \<open>Descriptors for \<open>send_cmd_disk\<close>.\<close>

definition op_wrap :: disk_op_s where
  "op_wrap = \<lparr>lba = 0xFFFFFFFFFFFFFFFF, buf_fl = 0, count = 1, driveid = 0,
              command = ATA_CMD_READ_SECTORS\<rparr>"

definition op_ext :: disk_op_s where
  "op_ext = \<lparr>lba = 0x123456789ABC, buf_fl = 0, count = 0x0201, driveid = 0,
             command = ATA_CMD_READ_SECTORS\<rparr>"

definition op_std :: disk_op_s where
  "op_std = \<lparr>lba = 0, buf_fl = 0, count = 1, driveid = 0, command = ATA_CMD_READ_SECTORS\<rparr>"

text \<open>
  A platform built on coreboot with four channels and eight drives, around a given
  hardware, and a machine whose table \<open>ATA\<close> is zeroed.
\<close>

definition example_platform :: "hardware \<Rightarrow> platform" where
  "example_platform h =
     \<lparr>hw = h, CONFIG_ATA = True, CONFIG_COREBOOT = True, CONFIG_DEBUG_LEVEL = 1,
      CONFIG_MAX_ATA_DEVICES = 8, CONFIG_MAX_ATA_INTERFACES = 4, model_size = 41,
      pci_functions = [], identify_buffer = 0x7000\<rparr>"

definition hw_zero :: hardware where
  "hw_zero t k = 0"

definition example_machine :: machine where
  "example_machine =
     \<lparr>ATA = zero_ATA (example_platform hw_zero), ebda_sector_count = 0,
      bda_disk_control_byte = 0, ram = (\<lambda>a. 0), trace = []\<rparr>"

text \<open>The example machine with a physical geometry and a sector count for drive 0.\<close>

definition drive_with :: "chs_s \<Rightarrow> u64 \<Rightarrow> machine" where
  "drive_with p n = set_device 0 (\<lambda>d. d\<lparr>pchs := p, sectors := n\<rparr>) example_machine"

text \<open>
  Identify buffers: one whose words are all two spaces, and one whose model area holds
  "ATA DISK" (two characters a word, the first in the high byte) padded with spaces.
\<close>

definition spaces_buffer :: "nat \<Rightarrow> u16" where
  "spaces_buffer k = 0x2020"

definition ata_disk_buffer :: "nat \<Rightarrow> u16" where
  "ata_disk_buffer k =
     (if k = 27 then 0x4154 else if k = 28 then 0x4120 else if k = 29 then 0x4449
      else if k = 30 then 0x534B else 0x2020)"

text \<open>
  What a poller of the status register sees. \<open>poll_state P base k s\<close> is the machine
  after \<open>k\<close> rounds of reading the status register and then the time-stamp counter,
  started at \<open>s\<close>; \<open>status_at\<close> and \<open>tsc_at\<close> are the status byte and the counter value
  read in round \<open>k\<close> (rounds count from 0).
\<close>

definition poll_round :: "platform \<Rightarrow> u16 \<Rightarrow> machine \<Rightarrow> machine" where
  "poll_round P base s = snd (rdtscll P (snd (inb P (base + ATA_CB_STAT) s)))"

primrec poll_state :: "platform \<Rightarrow> u16 \<Rightarrow> nat \<Rightarrow> machine \<Rightarrow> machine" where
  "poll_state P base 0 s = s"
| "poll_state P base (Suc k) s = poll_state P base k (poll_round P base s)"

definition status_at :: "platform \<Rightarrow> u16 \<Rightarrow> machine \<Rightarrow> nat \<Rightarrow> u8" where
  "status_at P base s k = fst (inb P (base + ATA_CB_STAT) (poll_state P base k s))"

definition tsc_at :: "platform \<Rightarrow> u16 \<Rightarrow> machine \<Rightarrow> nat \<Rightarrow> u64" where
  "tsc_at P base s k =
     fst (rdtscll P (snd (inb P (base + ATA_CB_STAT) (poll_state P base k s))))"

text \<open>
  A drive that is busy (status \<open>0x80\<close>) while the trace has fewer than \<open>ready\<close> events
  and ready with data request clear (status \<open>0x50\<close>) afterwards, under a clock that
  reads the number of events so far and a deadline four events after its computation.
\<close>

definition hw_poll :: "nat \<Rightarrow> hardware" where
  "hw_poll ready t k =
     (case t of
        E_inb p # _ \<Rightarrow> (if ready \<le> length t then 0x50 else 0x80)
      | E_rdtscll # _ \<Rightarrow> of_nat (length t)
      | E_calc_future_tsc m # _ \<Rightarrow> of_nat (length t) + 4
      | _ \<Rightarrow> 0)"

text \<open>
  Counting the data a transfer moves, on the trace: the bytes read by single \<open>inw\<close>
  and \<open>inl\<close> instructions (which \<open>insx_discard\<close> throws away) and the bytes that the
  string inputs store to the buffer. \<open>new_events s s'\<close> are the events that lead from
  the machine \<open>s\<close> to the later machine \<open>s'\<close>.
\<close>

fun discard_width :: "io_event \<Rightarrow> nat" where
  "discard_width (E_inw p) = 2"
| "discard_width (E_inl p) = 4"
| "discard_width e = 0"

fun store_width :: "io_event \<Rightarrow> nat" where
  "store_width (E_insw p b n) = 2 * nat n"
| "store_width (E_insl p b n) = 4 * nat n"
| "store_width e = 0"

definition discarded_bytes :: "io_event list \<Rightarrow> nat" where
  "discarded_bytes t = sum_list (map discard_width t)"

definition stored_bytes :: "io_event list \<Rightarrow> nat" where
  "stored_bytes t = sum_list (map store_width t)"


text \<open>The example machine with drive 0 in 32-bit mode.\<close>

definition machine_pio32 :: machine where
  "machine_pio32 = set_device 0 (\<lambda>d. d\<lparr>mode := ATA_MODE_PIO32\<rparr>) example_machine"

text \<open>
  Descriptors for \<open>cdrom_read_512\<close>: ten logical blocks from logical block 5, and one
  block at the logical address \<open>2^32\<close>.
\<close>

definition op_cdemu :: disk_op_s where
  "op_cdemu = \<lparr>lba = 5, buf_fl = 0x8000, count = 10, driveid = 0, command = 0\<rparr>"

definition op_far :: disk_op_s where
  "op_far = \<lparr>lba = 0x100000000, buf_fl = 0x8000, count = 1, driveid = 0, command = 0\<rparr>"

text \<open>
  The example machine with channel 0 at the legacy ports, and an optical drive that
  keeps data request set (status \<open>0x48\<close>) until 5120 bytes have been stored from its
  data port, and shows status \<open>0x40\<close> afterwards.
\<close>

definition machine_legacy :: machine where
  "machine_legacy =
     set_channel 0 (\<lambda>c. c\<lparr>iobase1 := 0x1f0, iobase2 := 0x3f0\<rparr>) example_machine"

definition hw_cdrom :: hardware where
  "hw_cdrom t k =
     (case t of
        E_inb p # _ \<Rightarrow> (if 5120 \<le> stored_bytes t then 0x40 else 0x48)
      | _ \<Rightarrow> 0)"

text \<open>
  A machine whose channel 0 is at the legacy ports, whose channel 1 is not configured
  and whose channel 2 has a valid I/O base.
\<close>

definition machine_hole :: machine where
  "machine_hole =
     set_channel 2 (\<lambda>c. c\<lparr>iobase1 := 0x1e8, iobase2 := 0x3e0\<rparr>) machine_legacy"

text \<open>
  A drive that always shows busy (status \<open>0x80\<close>), under a clock that always reads 0
  and a deadline of 1.
\<close>

definition hw_busy :: hardware where
  "hw_busy t k =
     (case t of
        E_inb p # _ \<Rightarrow> 0x80
      | E_calc_future_tsc m # _ \<Rightarrow> 1
      | _ \<Rightarrow> 0)"

section \<open>Properties\<close>

subsection \<open>The 48-bit form of \<open>send_cmd_disk\<close>\<close>

lemma mask24: "(0xffffff :: u64) = mask 24"
  by (simp add: mask_eq_exp_minus_1)

lemma mask4_64: "(0xf :: u64) = mask 4"
  by (simp add: mask_eq_exp_minus_1)

lemma mask4_8: "(0xf :: u8) = mask 4"
  by (simp add: mask_eq_exp_minus_1)

lemma lba48_cond_nat:
  "lba48_cond op \<longleftrightarrow>
     256 \<le> unat (count op) \<or> 2 ^ 28 \<le> (unat (lba op) + unat (count op)) mod 2 ^ 64"
proof -
  have "unat (count op) < 2 ^ 16"
    using unsigned_less [of "count op"] by simp
  then have "unat (count op) mod 18446744073709551616 = unat (count op)"
    by simp
  then show ?thesis
    unfolding lba48_cond_def
    by (simp add: word_le_nat_alt unat_word_ariths unsigned_ucast_eq take_bit_eq_mod)
qed

lemma send_cmd_disk_cmd_ext:
  "lba48_cond op \<Longrightarrow>
   send_cmd_disk_cmd op =
     \<lparr>feature = 0, sector_count = ucast (count op),
      lba_low = ucast (lba op), lba_mid = ucast (drop_bit 8 (lba op)),
      lba_high = ucast (drop_bit 16 (lba op)),
      device_reg = ATA_CB_DH_LBA, command_reg = command op OR 0x04,
      sector_count2 = ucast (drop_bit 8 (count op)),
      lba_low2 = ucast (drop_bit 24 (lba op)), lba_mid2 = ucast (drop_bit 32 (lba op)),
      lba_high2 = ucast (drop_bit 40 (lba op))\<rparr>"
  unfolding send_cmd_disk_cmd_def mask24 mask4_64
  apply (simp add: Let_def zero_cmd_def)
  apply (intro conjI; rule bit_word_eqI)
  apply (auto simp add: bit_simps ATA_CB_DH_LBA_def)
  done

lemma send_cmd_disk_cmd_std:
  "\<not> lba48_cond op \<Longrightarrow>
   send_cmd_disk_cmd op =
     \<lparr>feature = 0, sector_count = ucast (count op),
      lba_low = ucast (lba op), lba_mid = ucast (drop_bit 8 (lba op)),
      lba_high = ucast (drop_bit 16 (lba op)),
      device_reg = (ucast (drop_bit 24 (lba op)) AND 0xf) OR ATA_CB_DH_LBA,
      command_reg = command op,
      sector_count2 = 0, lba_low2 = 0, lba_mid2 = 0, lba_high2 = 0\<rparr>"
  unfolding send_cmd_disk_cmd_def mask4_64 mask4_8
  apply (simp add: Let_def zero_cmd_def)
  apply (rule bit_word_eqI)
  apply (auto simp add: bit_simps ATA_CB_DH_LBA_def)
  done

lemma or4_and4: "(x OR (4::u8)) AND 4 = 4"
  by (simp add: word_ao_absorbs)

lemma high_byte_count: "unat (ucast (drop_bit 8 (c::u16)) :: u8) = unat c div 256"
proof -
  have "unat c < 65536"
    using unsigned_less [of c, where 'a=nat] by simp
  then have "unat c div 256 < 256"
    by arith
  then show ?thesis
    by (simp add: unsigned_ucast_eq unat_drop_bit_eq drop_bit_eq_div take_bit_eq_mod unat_div)
qed

text \<open>
  Claim C1, as the code has it. \<open>send_cmd_disk\<close> takes the 48-bit branch exactly when the
  block count is at least 256 or the sum \<open>lba + count\<close>, formed in 64 bits and so taken
  modulo \<open>2^64\<close>, is at least \<open>2^28\<close>. In that branch the command code is the caller's
  code with bit \<open>0x04\<close> set, the registers LBA low, mid and high hold bytes 0, 1 and 2 of
  the LBA, the extended registers hold bytes 3, 4 and 5 (bits 24 to 47), and the
  extended sector count holds the high byte of the block count. Outside the branch the
  command code is unchanged and the extended fields are 0; for a command code without
  bit \<open>0x04\<close> the built code has the bit exactly in the 48-bit branch. With count 1 and
  LBA 0 the branch is not taken.
\<close>

theorem send_cmd_disk_lba48:
  "(lba48_cond op \<longleftrightarrow>
      256 \<le> unat (count op) \<or> 2 ^ 28 \<le> (unat (lba op) + unat (count op)) mod 2 ^ 64)
   \<and> (lba48_cond op \<longrightarrow>
        command_reg (send_cmd_disk_cmd op) = command op OR 0x04
      \<and> command_reg (send_cmd_disk_cmd op) AND 0x04 = 0x04
      \<and> lba_low (send_cmd_disk_cmd op) = ucast (lba op)
      \<and> lba_mid (send_cmd_disk_cmd op) = ucast (drop_bit 8 (lba op))
      \<and> lba_high (send_cmd_disk_cmd op) = ucast (drop_bit 16 (lba op))
      \<and> device_reg (send_cmd_disk_cmd op) = ATA_CB_DH_LBA
      \<and> lba_low2 (send_cmd_disk_cmd op) = ucast (drop_bit 24 (lba op))
      \<and> lba_mid2 (send_cmd_disk_cmd op) = ucast (drop_bit 32 (lba op))
      \<and> lba_high2 (send_cmd_disk_cmd op) = ucast (drop_bit 40 (lba op))
      \<and> sector_count2 (send_cmd_disk_cmd op) = ucast (drop_bit 8 (count op))
      \<and> unat (sector_count2 (send_cmd_disk_cmd op)) = unat (count op) div 256)
   \<and> (\<not> lba48_cond op \<longrightarrow>
        command_reg (send_cmd_disk_cmd op) = command op
      \<and> sector_count2 (send_cmd_disk_cmd op) = 0
      \<and> lba_low2 (send_cmd_disk_cmd op) = 0
      \<and> lba_mid2 (send_cmd_disk_cmd op) = 0
      \<and> lba_high2 (send_cmd_disk_cmd op) = 0)
   \<and> (command op AND 0x04 = 0 \<longrightarrow>
        (command_reg (send_cmd_disk_cmd op) AND 0x04 \<noteq> 0 \<longleftrightarrow> lba48_cond op))
   \<and> (count op = 1 \<and> lba op = 0 \<longrightarrow> \<not> lba48_cond op)"
proof (intro conjI impI)
  show "lba48_cond op \<longleftrightarrow>
      256 \<le> unat (count op) \<or> 2 ^ 28 \<le> (unat (lba op) + unat (count op)) mod 2 ^ 64"
    by (rule lba48_cond_nat)
next
  assume "count op = 1 \<and> lba op = 0"
  then show "\<not> lba48_cond op"
    by (simp add: lba48_cond_def word_le_nat_alt)
next
  assume "command op AND 0x04 = 0"
  then show "command_reg (send_cmd_disk_cmd op) AND 0x04 \<noteq> 0 \<longleftrightarrow> lba48_cond op"
    by (cases "lba48_cond op")
      (simp_all add: send_cmd_disk_cmd_ext send_cmd_disk_cmd_std or4_and4)
qed (simp_all add: send_cmd_disk_cmd_ext send_cmd_disk_cmd_std or4_and4 high_byte_count)

theorem send_cmd_disk_lba48_witness:
  "lba48_cond op_ext
   \<and> command_reg (send_cmd_disk_cmd op_ext) = 0x24
   \<and> lba_low (send_cmd_disk_cmd op_ext) = 0xBC
   \<and> lba_mid (send_cmd_disk_cmd op_ext) = 0x9A
   \<and> lba_high (send_cmd_disk_cmd op_ext) = 0x78
   \<and> lba_low2 (send_cmd_disk_cmd op_ext) = 0x56
   \<and> lba_mid2 (send_cmd_disk_cmd op_ext) = 0x34
   \<and> lba_high2 (send_cmd_disk_cmd op_ext) = 0x12
   \<and> sector_count2 (send_cmd_disk_cmd op_ext) = 0x02
   \<and> \<not> lba48_cond op_std
   \<and> command_reg (send_cmd_disk_cmd op_std) = 0x20
   \<and> command_reg (send_cmd_disk_cmd op_std) AND 0x04 = 0"
proof -
  have e: "lba48_cond op_ext"
    by (simp add: lba48_cond_def op_ext_def word_le_nat_alt)
  have s: "count op_std = 1 \<and> lba op_std = 0"
    by (simp add: op_std_def)
  have c: "command op_std AND 0x04 = 0"
    by (simp add: op_std_def ATA_CMD_READ_SECTORS_def)
  show ?thesis
    using e s c send_cmd_disk_lba48 [of op_ext] send_cmd_disk_lba48 [of op_std]
    by (simp add: op_ext_def op_std_def ATA_CMD_READ_SECTORS_def drop_bit_eq_div)
qed

text \<open>
  Claim C1 as stated fails where the 64-bit sum wraps: for the LBA \<open>2^64 - 1\<close> and one
  block the sum of LBA and count is \<open>2^64\<close>, far above \<open>2^28\<close>, but the code computes 0
  and builds the 28-bit command.
\<close>

theorem send_cmd_disk_wrap_counterexample:
  "2 ^ 28 \<le> unat (lba op_wrap) + unat (count op_wrap)
   \<and> \<not> lba48_cond op_wrap
   \<and> command_reg (send_cmd_disk_cmd op_wrap) = ATA_CMD_READ_SECTORS
   \<and> command_reg (send_cmd_disk_cmd op_wrap) AND 0x04 = 0"
proof -
  have n: "\<not> lba48_cond op_wrap"
    by (simp add: lba48_cond_def op_wrap_def word_le_nat_alt)
  show ?thesis
    by (simp add: n send_cmd_disk_cmd_std) (simp add: op_wrap_def ATA_CMD_READ_SECTORS_def)
qed

subsection \<open>Geometry translation\<close>

lemma product_no_overflow:
  fixes c h :: u16
  assumes "unat c * unat h < 2 ^ 31"
  shows "sint ((ucast c :: u32) * ucast h) \<le> 131072 \<longleftrightarrow> unat c * unat h \<le> 131072"
proof -
  define n where "n = unat c * unat h"
  have c: "unat (ucast c :: u32) = unat c" and h: "unat (ucast h :: u32) = unat h"
    by (simp_all add: unsigned_ucast_eq take_bit_eq_mod)
      (use unsigned_less [of c, where 'a=nat] unsigned_less [of h, where 'a=nat] in simp_all)
  have "unat ((ucast c :: u32) * ucast h) = n mod 2 ^ 32"
    by (simp add: unat_word_ariths c h n_def)
  also have "\<dots> = n"
    using assms by (simp add: n_def)
  finally have u: "uint ((ucast c :: u32) * ucast h) = int n"
    by (metis of_nat_unat)
  have b: "- (2 ^ 31) \<le> int n" "int n < 2 ^ 31"
    using assms by (simp_all add: n_def del: of_nat_mult)
  have "sint ((ucast c :: u32) * ucast h) = signed_take_bit 31 (int n)"
    by (simp add: sint_uint u del: of_nat_mult)
  also have "\<dots> = int n"
    using b by (rule signed_take_bit_int_eq_self)
  finally have "sint ((ucast c :: u32) * ucast h) = int n" .
  then show ?thesis
    by (simp add: n_def del: of_nat_mult)
qed

lemma get_translation_coreboot:
  "CONFIG_COREBOOT P \<Longrightarrow>
   get_translation P drv s = (get_translation_heuristic (pchs (devices (ATA s) drv)), s)"
  by (simp add: get_translation_def)

lemma heuristic_fits:
  "unat (cylinders p) \<le> 1024 \<and> unat (heads p) \<le> 16 \<and> unat (spt p) \<le> 63 \<Longrightarrow>
   get_translation_heuristic p = ATA_TRANSLATION_NONE"
  by (simp add: get_translation_heuristic_def word_le_nat_alt)

lemma heuristic_large_lba:
  "\<not> (unat (cylinders p) \<le> 1024 \<and> unat (heads p) \<le> 16 \<and> unat (spt p) \<le> 63) \<Longrightarrow>
   unat (cylinders p) * unat (heads p) < 2 ^ 31 \<Longrightarrow>
   get_translation_heuristic p =
     (if unat (cylinders p) * unat (heads p) \<le> 131072 then ATA_TRANSLATION_LARGE
      else ATA_TRANSLATION_LBA)"
  by (auto simp add: get_translation_heuristic_def word_le_nat_alt product_no_overflow)

lemma setup_translation_device:
  "get_translation P drv s = (t, s1) \<Longrightarrow>
   devices (ATA (setup_translation P drv s)) drv =
     (devices (ATA s1) drv)\<lparr>translation := t,
        lchs := setup_translation_lchs t (pchs (devices (ATA s1) drv))
                  (sectors (devices (ATA s1) drv))\<rparr>"
  by (simp add: setup_translation_def set_device_def Let_def)

lemma lchs_none:
  "cylinders p \<le> 1024 \<Longrightarrow> setup_translation_lchs ATA_TRANSLATION_NONE p n = p"
  by (simp add: setup_translation_lchs_def Let_def)

lemma large_loop_halves:
  "\<exists>k. large_loop c h = (drop_bit k c, push_bit k h)
      \<and> (\<forall>j<k. 1024 < drop_bit j c)
      \<and> (drop_bit k c \<le> 1024 \<or> 127 < push_bit k h)"
proof (induction c h rule: large_loop.induct)
  case (1 cyls hds)
  show ?case
  proof (cases "1024 < cyls")
    case False
    then have "large_loop cyls hds = (drop_bit 0 cyls, push_bit 0 hds)" by (simp add: large_loop.simps)
    moreover have "drop_bit 0 cyls \<le> 1024" using False by simp
    ultimately show ?thesis by (intro exI [of _ 0]) simp
  next
    case True
    show ?thesis
    proof (cases "127 < push_bit 1 hds")
      case True
      with \<open>1024 < cyls\<close> have "large_loop cyls hds = (drop_bit 1 cyls, push_bit 1 hds)"
        by (simp add: Let_def large_loop.simps [of cyls])
      then show ?thesis using True \<open>1024 < cyls\<close>
        by (intro exI [of _ 1]) simp
    next
      case False
      from "1.IH" [OF True refl refl False]
      obtain k where k: "large_loop (drop_bit 1 cyls) (push_bit 1 hds) = (drop_bit k (drop_bit 1 cyls), push_bit k (push_bit 1 hds))"
        "\<forall>j<k. 1024 < drop_bit j (drop_bit 1 cyls)"
        "drop_bit k (drop_bit 1 cyls) \<le> 1024 \<or> 127 < push_bit k (push_bit 1 hds)"
        by blast
      have l: "large_loop cyls hds = large_loop (drop_bit 1 cyls) (push_bit 1 hds)"
        using True False by (simp add: Let_def large_loop.simps [of cyls])
      have a: "\<forall>j<Suc k. 1024 < drop_bit j cyls"
      proof (intro allI impI)
        fix j assume "j < Suc k"
        show "1024 < drop_bit j cyls"
        proof (cases j)
          case 0 then show ?thesis using True by simp
        next
          case (Suc i)
          then have "i < k" using \<open>j < Suc k\<close> by simp
          then have "1024 < drop_bit i (drop_bit 1 cyls)" using k(2) by blast
          then show ?thesis using Suc by (simp add: drop_bit_drop_bit)
        qed
      qed
      show ?thesis
        apply (rule exI [of _ "Suc k"])
        using k(1,3) a l by (simp add: drop_bit_drop_bit push_bit_push_bit)
    qed
  qed
qed

lemma lchs_lba_big:
  "63 * 255 * 1024 < unat n \<Longrightarrow>
   setup_translation_lchs ATA_TRANSLATION_LBA p n = \<lparr>heads = 255, cylinders = 1024, spt = 63\<rparr>"
  by (simp add: setup_translation_lchs_def Let_def ATA_TRANSLATION_LBA_def ATA_TRANSLATION_NONE_def word_less_nat_alt)

lemma lba_heads_nat:
  "unat h = q \<Longrightarrow> unat (lba_heads h) =
     (if 128 < q then 255 else if 64 < q then 128 else if 32 < q then 64
      else if 16 < q then 32 else 16)"
  by (auto simp add: lba_heads_def word_less_nat_alt)

lemma lchs_lba_small:
  assumes "unat n \<le> 63 * 255 * 1024"
  defines "sect \<equiv> unat n div 63"
  defines "hds \<equiv> (if 128 < sect div 1024 then 255 else if 64 < sect div 1024 then 128
                 else if 32 < sect div 1024 then 64 else if 16 < sect div 1024 then 32 else 16 :: nat)"
  shows "unat (heads (setup_translation_lchs ATA_TRANSLATION_LBA p n)) = hds"
    and "unat (cylinders (setup_translation_lchs ATA_TRANSLATION_LBA p n)) = min 1024 (sect div hds)"
    and "unat (spt (setup_translation_lchs ATA_TRANSLATION_LBA p n)) = 63"
proof -
  have n32: "unat (ucast n :: u32) = unat n"
    using assms(1) by (simp add: unsigned_ucast_eq take_bit_eq_mod)
  have s: "unat ((ucast n :: u32) div 63) = sect"
    by (simp add: unat_div n32 sect_def)
  have sb: "sect \<le> 261120" using assms(1) by (simp add: sect_def)
  have q: "unat ((ucast n :: u32) div 63 div 1024) = sect div 1024"
    by (simp add: unat_div n32 sect_def)
  have qb: "sect div 1024 \<le> 255" using sb by simp
  have q16: "unat (ucast ((ucast n :: u32) div 63 div 1024) :: u16) = sect div 1024"
    using qb by (simp add: unsigned_ucast_eq take_bit_eq_mod q)
  have h: "unat (lba_heads (ucast ((ucast n :: u32) div 63 div 1024))) = hds"
    unfolding hds_def by (rule lba_heads_nat [OF q16])
  have hb: "16 \<le> hds" "hds \<le> 255" by (simp_all add: hds_def)
  have h32: "unat (ucast (lba_heads (ucast ((ucast n :: u32) div 63 div 1024))) :: u32) = hds"
    using hb by (simp add: unsigned_ucast_eq take_bit_eq_mod h)
  have c32: "unat ((ucast n :: u32) div 63 div ucast (lba_heads (ucast ((ucast n :: u32) div 63 div 1024)))) = sect div hds"
    by (simp add: unat_div n32 sect_def h32)
  have "sect div hds \<le> sect div 16" using hb by (intro div_le_mono2) simp_all
  then have cb: "sect div hds < 65536" using sb by simp
  have c16: "unat (ucast ((ucast n :: u32) div 63 div ucast (lba_heads (ucast ((ucast n :: u32) div 63 div 1024)))) :: u16) = sect div hds"
    using cb by (simp add: unsigned_ucast_eq take_bit_eq_mod c32)
  have nb: "\<not> 63 * 255 * 1024 < n" using assms(1) by (simp add: word_less_nat_alt)
  show "unat (heads (setup_translation_lchs ATA_TRANSLATION_LBA p n)) = hds"
    using nb h by (simp add: setup_translation_lchs_def Let_def ATA_TRANSLATION_LBA_def ATA_TRANSLATION_NONE_def)
  show "unat (cylinders (setup_translation_lchs ATA_TRANSLATION_LBA p n)) = min 1024 (sect div hds)"
    using nb c16 by (simp add: setup_translation_lchs_def Let_def ATA_TRANSLATION_LBA_def ATA_TRANSLATION_NONE_def word_less_nat_alt min_def)
  show "unat (spt (setup_translation_lchs ATA_TRANSLATION_LBA p n)) = 63"
    using nb by (simp add: setup_translation_lchs_def Let_def ATA_TRANSLATION_LBA_def ATA_TRANSLATION_NONE_def)
qed

lemma get_translation_ATA: "ATA (snd (get_translation P drv s)) = ATA s"
  by (simp add: get_translation_def inb_cmos_def Let_def split: prod.splits)

lemma drive_with_pchs [simp]: "pchs (devices (ATA (drive_with p n)) 0) = p"
  by (simp add: drive_with_def set_device_def)

lemma drive_with_sectors [simp]: "sectors (devices (ATA (drive_with p n)) 0) = n"
  by (simp add: drive_with_def set_device_def)

lemma example_platform_coreboot [simp]: "CONFIG_COREBOOT (example_platform h)"
  by (simp add: example_platform_def)

text \<open>
  Claim C3, for the geometries whose product \<open>cylinders * heads\<close> fits the 32-bit \<open>int\<close>
  of the comparison. On coreboot (no hint from the platform) \<open>get_translation\<close> answers
  "none" when the physical geometry is within 1024 cylinders, 16 heads and 63 sectors
  per track, else "large" when \<open>cylinders * heads \<le> 131072\<close>, else "LBA-assist", and
  leaves the machine as it is. Under "none" \<open>setup_translation\<close> stores the physical
  geometry as the logical one; under "large" the logical geometry is the physical one
  with the cylinders halved and the heads doubled \<open>k\<close> times, every earlier cylinder
  count being above 1024, and the cylinders clipped to 1024. The geometry (1024,16,63)
  gives "none" and stays; (2000,16,63) gives "large" and (1000,32,63).
\<close>

theorem get_translation_choice:
  fixes P drv s
  defines "p \<equiv> pchs (devices (ATA s) drv)"
  defines "d' \<equiv> devices (ATA (setup_translation P drv s)) drv"
  assumes cb: "CONFIG_COREBOOT P"
  shows "(unat (cylinders p) \<le> 1024 \<and> unat (heads p) \<le> 16 \<and> unat (spt p) \<le> 63 \<longrightarrow>
            get_translation P drv s = (ATA_TRANSLATION_NONE, s)
          \<and> translation d' = ATA_TRANSLATION_NONE \<and> lchs d' = p)
       \<and> (\<not> (unat (cylinders p) \<le> 1024 \<and> unat (heads p) \<le> 16 \<and> unat (spt p) \<le> 63)
          \<and> unat (cylinders p) * unat (heads p) < 2 ^ 31 \<longrightarrow>
            get_translation P drv s =
              (if unat (cylinders p) * unat (heads p) \<le> 131072 then ATA_TRANSLATION_LARGE
               else ATA_TRANSLATION_LBA, s))
       \<and> (\<not> (unat (cylinders p) \<le> 1024 \<and> unat (heads p) \<le> 16 \<and> unat (spt p) \<le> 63)
          \<and> unat (cylinders p) * unat (heads p) \<le> 131072 \<longrightarrow>
            translation d' = ATA_TRANSLATION_LARGE \<and> spt (lchs d') = spt p
          \<and> (\<exists>k. heads (lchs d') = push_bit k (heads p)
                \<and> cylinders (lchs d') =
                    (if 1024 < drop_bit k (cylinders p) then 1024 else drop_bit k (cylinders p))
                \<and> (\<forall>j<k. 1024 < drop_bit j (cylinders p))
                \<and> (drop_bit k (cylinders p) \<le> 1024 \<or> 127 < push_bit k (heads p))))
       \<and> (p = \<lparr>heads = 16, cylinders = 1024, spt = 63\<rparr> \<longrightarrow>
            translation d' = ATA_TRANSLATION_NONE
          \<and> lchs d' = \<lparr>heads = 16, cylinders = 1024, spt = 63\<rparr>)
       \<and> (p = \<lparr>heads = 16, cylinders = 2000, spt = 63\<rparr> \<longrightarrow>
            translation d' = ATA_TRANSLATION_LARGE
          \<and> lchs d' = \<lparr>heads = 32, cylinders = 1000, spt = 63\<rparr>)"
proof -
  let ?fits = "unat (cylinders p) \<le> 1024 \<and> unat (heads p) \<le> 16 \<and> unat (spt p) \<le> 63"
  have g: "get_translation P drv s = (get_translation_heuristic p, s)"
    using cb by (simp add: get_translation_coreboot p_def)
  have d: "d' = (devices (ATA s) drv)\<lparr>translation := get_translation_heuristic p,
      lchs := setup_translation_lchs (get_translation_heuristic p) p
                (sectors (devices (ATA s) drv))\<rparr>"
    unfolding d'_def by (simp add: setup_translation_device [OF g] p_def)
  have none: "get_translation_heuristic p = ATA_TRANSLATION_NONE
      \<and> translation d' = ATA_TRANSLATION_NONE \<and> lchs d' = p" if f: ?fits
  proof -
    have h: "get_translation_heuristic p = ATA_TRANSLATION_NONE"
      using f by (rule heuristic_fits)
    have "cylinders p \<le> 1024"
      using f by (simp add: word_le_nat_alt)
    then show ?thesis
      by (simp add: d h lchs_none)
  qed
  have large: "translation d' = ATA_TRANSLATION_LARGE \<and> spt (lchs d') = spt p
      \<and> (\<exists>k. heads (lchs d') = push_bit k (heads p)
            \<and> cylinders (lchs d') =
                (if 1024 < drop_bit k (cylinders p) then 1024 else drop_bit k (cylinders p))
            \<and> (\<forall>j<k. 1024 < drop_bit j (cylinders p))
            \<and> (drop_bit k (cylinders p) \<le> 1024 \<or> 127 < push_bit k (heads p)))"
    if nf: "\<not> ?fits" and le: "unat (cylinders p) * unat (heads p) \<le> 131072"
  proof -
    have "unat (cylinders p) * unat (heads p) < 2 ^ 31"
      using le by simp
    then have h: "get_translation_heuristic p = ATA_TRANSLATION_LARGE"
      using nf le by (simp add: heuristic_large_lba)
    obtain k where k: "large_loop (cylinders p) (heads p)
          = (drop_bit k (cylinders p), push_bit k (heads p))"
        "\<forall>j<k. 1024 < drop_bit j (cylinders p)"
        "drop_bit k (cylinders p) \<le> 1024 \<or> 127 < push_bit k (heads p)"
      using large_loop_halves [of "cylinders p" "heads p"] by blast
    have l: "setup_translation_lchs ATA_TRANSLATION_LARGE p (sectors (devices (ATA s) drv))
        = \<lparr>heads = push_bit k (heads p),
           cylinders = (if 1024 < drop_bit k (cylinders p) then 1024
                        else drop_bit k (cylinders p)),
           spt = spt p\<rparr>"
      by (simp add: setup_translation_lchs_def Let_def k(1) ATA_TRANSLATION_LARGE_def
          ATA_TRANSLATION_NONE_def ATA_TRANSLATION_LBA_def ATA_TRANSLATION_RECHS_def
          )
    show ?thesis
      using k(2,3) by (auto simp add: d h l)
  qed
  have ex1: "translation d' = ATA_TRANSLATION_NONE
      \<and> lchs d' = \<lparr>heads = 16, cylinders = 1024, spt = 63\<rparr>"
    if e: "p = \<lparr>heads = 16, cylinders = 1024, spt = 63\<rparr>"
  proof -
    have ?fits by (simp add: e)
    from none [OF this] show ?thesis by (simp add: e)
  qed
  have ex2: "translation d' = ATA_TRANSLATION_LARGE
      \<and> lchs d' = \<lparr>heads = 32, cylinders = 1000, spt = 63\<rparr>"
    if e: "p = \<lparr>heads = 16, cylinders = 2000, spt = 63\<rparr>"
  proof -
    have "get_translation_heuristic p = ATA_TRANSLATION_LARGE"
      by (simp add: e get_translation_heuristic_def word_le_nat_alt)
    moreover have "setup_translation_lchs ATA_TRANSLATION_LARGE
        \<lparr>heads = 16, cylinders = 2000, spt = 63\<rparr> (sectors (devices (ATA s) drv))
        = \<lparr>heads = 32, cylinders = 1000, spt = 63\<rparr>"
      by (simp add: setup_translation_lchs_def Let_def ATA_TRANSLATION_LARGE_def
          ATA_TRANSLATION_NONE_def ATA_TRANSLATION_LBA_def ATA_TRANSLATION_RECHS_def
          word_less_nat_alt large_loop.simps [of 2000] large_loop.simps [of 1000] drop_bit_eq_div)
    ultimately show ?thesis
      by (simp add: d e)
  qed
  show ?thesis
    using none large ex1 ex2 by (auto simp add: g heuristic_large_lba)
qed

theorem get_translation_choice_witness:
  "CONFIG_COREBOOT (example_platform hw_zero)
   \<and> fst (get_translation (example_platform hw_zero) 0
            (drive_with \<lparr>heads = 16, cylinders = 1024, spt = 63\<rparr> 1032192))
       = ATA_TRANSLATION_NONE
   \<and> lchs (devices (ATA (setup_translation (example_platform hw_zero) 0
            (drive_with \<lparr>heads = 16, cylinders = 1024, spt = 63\<rparr> 1032192))) 0)
       = \<lparr>heads = 16, cylinders = 1024, spt = 63\<rparr>
   \<and> fst (get_translation (example_platform hw_zero) 0
            (drive_with \<lparr>heads = 16, cylinders = 2000, spt = 63\<rparr> 2016000))
       = ATA_TRANSLATION_LARGE
   \<and> lchs (devices (ATA (setup_translation (example_platform hw_zero) 0
            (drive_with \<lparr>heads = 16, cylinders = 2000, spt = 63\<rparr> 2016000))) 0)
       = \<lparr>heads = 32, cylinders = 1000, spt = 63\<rparr>
   \<and> fst (get_translation (example_platform hw_zero) 0
            (drive_with \<lparr>heads = 16, cylinders = 16383, spt = 63\<rparr> 16514064))
       = ATA_TRANSLATION_LBA"
  using get_translation_choice [of "example_platform hw_zero"
          "drive_with \<lparr>heads = 16, cylinders = 1024, spt = 63\<rparr> 1032192" 0]
        get_translation_choice [of "example_platform hw_zero"
          "drive_with \<lparr>heads = 16, cylinders = 2000, spt = 63\<rparr> 2016000" 0]
        get_translation_choice [of "example_platform hw_zero"
          "drive_with \<lparr>heads = 16, cylinders = 16383, spt = 63\<rparr> 16514064" 0]
  by simp

text \<open>
  Claim C3 as stated fails where the product leaves the 32-bit \<open>int\<close>: for 65535
  cylinders and 65535 heads the product is far above 131072, yet its 32-bit value is
  negative and the code answers "large", not "LBA-assist".
\<close>

theorem get_translation_overflow_counterexample:
  "\<not> (unat (65535 :: u16) \<le> 1024 \<and> unat (65535 :: u16) \<le> 16 \<and> unat (63 :: u16) \<le> 63)
   \<and> \<not> unat (65535 :: u16) * unat (65535 :: u16) \<le> 131072
   \<and> fst (get_translation (example_platform hw_zero) 0
            (drive_with \<lparr>heads = 65535, cylinders = 65535, spt = 63\<rparr> 16514064))
       = ATA_TRANSLATION_LARGE
   \<and> ATA_TRANSLATION_LARGE \<noteq> ATA_TRANSLATION_LBA"
  by (simp add: get_translation_coreboot get_translation_heuristic_def word_le_nat_alt
      ATA_TRANSLATION_LARGE_def ATA_TRANSLATION_LBA_def)

text \<open>
  Claim C4, with the worked example as the code computes it. Under the LBA-assist
  scheme the logical sectors per track are 63 and the logical cylinders are at most
  1024. When the sector count exceeds \<open>63*255*1024\<close> the result is 255 heads and 1024
  cylinders; otherwise the heads come from the ladder 16, 32, 64, 128, 255 driven by
  \<open>(sectors/63)/1024\<close> and the cylinders are \<open>(sectors/63)/heads\<close>, clipped to 1024. For
  16,514,064 sectors, which is above \<open>63*255*1024 = 16,450,560\<close>, the result is 255
  heads and 1024 cylinders.
\<close>

theorem setup_translation_lba_assist:
  fixes P drv s
  defines "n \<equiv> unat (sectors (devices (ATA s) drv))"
  defines "l \<equiv> lchs (devices (ATA (setup_translation P drv s)) drv)"
  assumes t: "fst (get_translation P drv s) = ATA_TRANSLATION_LBA"
  shows "unat (spt l) = 63
       \<and> unat (cylinders l) \<le> 1024
       \<and> (63 * 255 * 1024 < n \<longrightarrow> unat (heads l) = 255 \<and> unat (cylinders l) = 1024)
       \<and> (n \<le> 63 * 255 * 1024 \<longrightarrow>
            unat (heads l) =
              (if 128 < n div 63 div 1024 then 255
               else if 64 < n div 63 div 1024 then 128
               else if 32 < n div 63 div 1024 then 64
               else if 16 < n div 63 div 1024 then 32 else 16)
          \<and> unat (cylinders l) = min 1024 (n div 63 div unat (heads l)))
       \<and> (n = 16514064 \<longrightarrow> unat (heads l) = 255 \<and> unat (cylinders l) = 1024)"
proof -
  obtain s1 where g: "get_translation P drv s = (ATA_TRANSLATION_LBA, s1)"
    using t by (cases "get_translation P drv s") simp
  have "ATA s1 = ATA s"
    using get_translation_ATA [of P drv s] by (simp add: g)
  then have l: "l = setup_translation_lchs ATA_TRANSLATION_LBA (pchs (devices (ATA s) drv))
      (sectors (devices (ATA s) drv))"
    unfolding l_def by (simp add: setup_translation_device [OF g])
  show ?thesis
  proof (cases "63 * 255 * 1024 < n")
    case True
    then have "l = \<lparr>heads = 255, cylinders = 1024, spt = 63\<rparr>"
      unfolding l n_def by (rule lchs_lba_big)
    then show ?thesis
      using True by simp
  next
    case False
    then have b: "unat (sectors (devices (ATA s) drv)) \<le> 63 * 255 * 1024"
      by (simp add: n_def)
    note r = lchs_lba_small [OF b, of "pchs (devices (ATA s) drv)", folded l n_def]
    have c1: "unat (spt l) = 63"
      by (rule r(3))
    have c2: "unat (heads l) =
        (if 128 < n div 63 div 1024 then 255
         else if 64 < n div 63 div 1024 then 128
         else if 32 < n div 63 div 1024 then 64
         else if 16 < n div 63 div 1024 then 32 else 16)"
      by (rule r(1))
    have c3: "unat (cylinders l) = min 1024 (n div 63 div unat (heads l))"
      unfolding c2 by (rule r(2))
    have c4: "unat (cylinders l) \<le> 1024"
      unfolding c3 by (rule min.cobounded1)
    have c5: "n \<noteq> 16514064"
      using False by simp
    show ?thesis
      using False c1 c2 c3 c4 c5 by blast
  qed
qed

theorem setup_translation_lba_assist_witness:
  "fst (get_translation (example_platform hw_zero) 0
          (drive_with \<lparr>heads = 16, cylinders = 16383, spt = 63\<rparr> 16514064))
     = ATA_TRANSLATION_LBA
   \<and> unat (heads (lchs (devices (ATA (setup_translation (example_platform hw_zero) 0
          (drive_with \<lparr>heads = 16, cylinders = 16383, spt = 63\<rparr> 16514064))) 0))) = 255
   \<and> unat (cylinders (lchs (devices (ATA (setup_translation (example_platform hw_zero) 0
          (drive_with \<lparr>heads = 16, cylinders = 16383, spt = 63\<rparr> 16514064))) 0))) = 1024
   \<and> fst (get_translation (example_platform hw_zero) 0
          (drive_with \<lparr>heads = 16, cylinders = 16383, spt = 63\<rparr> 4000000))
     = ATA_TRANSLATION_LBA
   \<and> unat (heads (lchs (devices (ATA (setup_translation (example_platform hw_zero) 0
          (drive_with \<lparr>heads = 16, cylinders = 16383, spt = 63\<rparr> 4000000))) 0))) = 64
   \<and> unat (cylinders (lchs (devices (ATA (setup_translation (example_platform hw_zero) 0
          (drive_with \<lparr>heads = 16, cylinders = 16383, spt = 63\<rparr> 4000000))) 0))) = 992"
proof -
  have a: "fst (get_translation (example_platform hw_zero) 0
          (drive_with \<lparr>heads = 16, cylinders = 16383, spt = 63\<rparr> 16514064))
     = ATA_TRANSLATION_LBA"
    by (simp add: get_translation_coreboot get_translation_heuristic_def word_le_nat_alt)
  have b: "fst (get_translation (example_platform hw_zero) 0
          (drive_with \<lparr>heads = 16, cylinders = 16383, spt = 63\<rparr> 4000000))
     = ATA_TRANSLATION_LBA"
    by (simp add: get_translation_coreboot get_translation_heuristic_def word_le_nat_alt)
  show ?thesis
    using a b setup_translation_lba_assist [OF a] setup_translation_lba_assist [OF b]
    by simp
qed

text \<open>
  Claim C4 as stated fails at its own example: for 16,514,064 sectors the code stores
  255 heads, not 64.
\<close>

theorem setup_translation_lba_example_counterexample:
  "fst (get_translation (example_platform hw_zero) 0
          (drive_with \<lparr>heads = 16, cylinders = 16383, spt = 63\<rparr> 16514064))
     = ATA_TRANSLATION_LBA
   \<and> heads (lchs (devices (ATA (setup_translation (example_platform hw_zero) 0
          (drive_with \<lparr>heads = 16, cylinders = 16383, spt = 63\<rparr> 16514064))) 0)) = 255
   \<and> heads (lchs (devices (ATA (setup_translation (example_platform hw_zero) 0
          (drive_with \<lparr>heads = 16, cylinders = 16383, spt = 63\<rparr> 16514064))) 0)) \<noteq> 64"
proof -
  have g: "get_translation (example_platform hw_zero) 0
          (drive_with \<lparr>heads = 16, cylinders = 16383, spt = 63\<rparr> 16514064)
     = (ATA_TRANSLATION_LBA,
        drive_with \<lparr>heads = 16, cylinders = 16383, spt = 63\<rparr> 16514064)"
    by (simp add: get_translation_coreboot get_translation_heuristic_def word_le_nat_alt)
  have "(16514064 :: u64) \<noteq> 0 \<and> 63 * 255 * 1024 < unat (16514064 :: u64)"
    by simp
  then have "setup_translation_lchs ATA_TRANSLATION_LBA
      \<lparr>heads = 16, cylinders = 16383, spt = 63\<rparr> 16514064
      = \<lparr>heads = 255, cylinders = 1024, spt = 63\<rparr>"
    by (intro lchs_lba_big) simp
  then show ?thesis
    by (simp add: g setup_translation_device [OF g])
qed

subsection \<open>The model name\<close>

lemma extract_identify_model:
  "model (devices (ATA (extract_identify P drv buffer s)) drv) =
     extract_model (model_size P) buffer (model (devices (ATA s) drv))"
  by (simp add: extract_identify_def set_device_def Let_def)

lemma example_model [simp]: "model (devices (ATA example_machine) drv) = replicate 41 0"
  by (simp add: example_machine_def zero_ATA_def example_platform_def)

lemma example_model_size [simp]: "model_size (example_platform h) = 41"
  by (simp add: example_platform_def)

text \<open>
  Claim C6 at the input where the code departs from it. For an identify buffer whose
  model area is all spaces, \<open>extract_identify\<close> leaves the first byte of the model name a
  space: the trimming loop stops at \<open>i > 0\<close> and never looks at \<open>model[0]\<close>. The name
  is the one-character string " ", not the empty string.
\<close>

theorem extract_identify_all_spaces:
  "model (devices (ATA (extract_identify (example_platform hw_zero) 0 spaces_buffer
      example_machine)) 0) = 0x20 # replicate 40 0x00"
  unfolding extract_identify_model example_model example_model_size
  by code_simp

text \<open>
  The other half of claim C6 holds: the padded, word-swapped "ATA DISK" gives the bytes
  of "ATA DISK" followed by zeros only.
\<close>

lemma extract_identify_ata_disk:
  "model (devices (ATA (extract_identify (example_platform hw_zero) 0 ata_disk_buffer
      example_machine)) 0) = map of_char ''ATA DISK'' @ replicate 33 0x00"
  unfolding extract_identify_model example_model example_model_size
  by code_simp

subsection \<open>Waiting for a status\<close>

lemma status_at_Suc: "status_at P base s (Suc k) = status_at P base (poll_round P base s) k"
  by (simp add: status_at_def)

lemma tsc_at_Suc: "tsc_at P base s (Suc k) = tsc_at P base (poll_round P base s) k"
  by (simp add: tsc_at_def)

lemma await_ide_loop_unfold:
  "await_ide_loop P msk flags base endt s =
     (if status_at P base s 0 AND msk = flags
      then Some (uint (status_at P base s 0), snd (inb P (base + ATA_CB_STAT) s))
      else if endt \<le> tsc_at P base s 0 then Some (- 1, poll_round P base s)
      else await_ide_loop P msk flags base endt (poll_round P base s))"
  by (subst await_ide_loop.simps)
    (simp add: status_at_def tsc_at_def poll_round_def case_prod_beta Let_def)

lemma await_ide_loop_match:
  "status_at P base s 0 AND msk = flags \<Longrightarrow>
   await_ide_loop P msk flags base endt s =
     Some (uint (status_at P base s 0), snd (inb P (base + ATA_CB_STAT) s))"
  by (subst await_ide_loop_unfold) simp

lemma await_ide_loop_timeout:
  "status_at P base s 0 AND msk \<noteq> flags \<Longrightarrow> endt \<le> tsc_at P base s 0 \<Longrightarrow>
   await_ide_loop P msk flags base endt s = Some (- 1, poll_round P base s)"
  by (subst await_ide_loop_unfold) simp

lemma await_ide_loop_step:
  "status_at P base s 0 AND msk \<noteq> flags \<Longrightarrow> tsc_at P base s 0 < endt \<Longrightarrow>
   await_ide_loop P msk flags base endt s =
     await_ide_loop P msk flags base endt (poll_round P base s)"
  by (subst await_ide_loop_unfold) (simp add: not_le [symmetric])

lemma await_ide_loop_rounds:
  "(\<forall>j<k. status_at P base s j AND msk \<noteq> flags \<and> tsc_at P base s j < endt) \<Longrightarrow>
   await_ide_loop P msk flags base endt s =
     await_ide_loop P msk flags base endt (poll_state P base k s)"
proof (induction k arbitrary: s)
  case 0
  show ?case by simp
next
  case (Suc k)
  have first: "status_at P base s 0 AND msk \<noteq> flags" "tsc_at P base s 0 < endt"
    using Suc.prems by auto
  have rest: "\<forall>j<k. status_at P base (poll_round P base s) j AND msk \<noteq> flags
      \<and> tsc_at P base (poll_round P base s) j < endt"
    using Suc.prems by (auto simp add: status_at_Suc [symmetric] tsc_at_Suc [symmetric])
  show ?case
    using await_ide_loop_step [OF first] Suc.IH [OF rest] by simp
qed

lemma status_at_poll_state:
  "status_at P base (poll_state P base k s) 0 = status_at P base s k"
  by (simp add: status_at_def)

lemma tsc_at_poll_state:
  "tsc_at P base (poll_state P base k s) 0 = tsc_at P base s k"
  by (simp add: tsc_at_def)

lemma poll_round_poll_state:
  "poll_round P base (poll_state P base k s) = poll_state P base (Suc k) s"
  by (induction k arbitrary: s) simp_all

lemma await_ide_loop_returns:
  assumes "await_ide_loop P msk flags base endt s = Some y"
  shows "\<exists>k. (\<forall>j<k. status_at P base s j AND msk \<noteq> flags \<and> tsc_at P base s j < endt)
      \<and> (status_at P base s k AND msk = flags \<and> fst y = uint (status_at P base s k)
            \<and> snd y = snd (inb P (base + ATA_CB_STAT) (poll_state P base k s))
          \<or> status_at P base s k AND msk \<noteq> flags \<and> endt \<le> tsc_at P base s k
            \<and> fst y = - 1 \<and> snd y = poll_state P base (Suc k) s)"
proof -
  define Q where "Q = (\<lambda>(x :: ((((platform \<times> u8) \<times> u8) \<times> u16) \<times> u64) \<times> machine)
      (y :: int \<times> machine).
    case x of (((((P, msk), flags), base), endt), s) \<Rightarrow>
      \<exists>k. (\<forall>j<k. status_at P base s j AND msk \<noteq> flags \<and> tsc_at P base s j < endt)
      \<and> (status_at P base s k AND msk = flags \<and> fst y = uint (status_at P base s k)
            \<and> snd y = snd (inb P (base + ATA_CB_STAT) (poll_state P base k s))
          \<or> status_at P base s k AND msk \<noteq> flags \<and> endt \<le> tsc_at P base s k
            \<and> fst y = - 1 \<and> snd y = poll_state P base (Suc k) s))"
  have "Q (((((P, msk), flags), base), endt), s) y"
  proof (rule await_ide_loop.raw_induct [where Pa = Q, OF _ assms])
    fix loop P msk flags base endt s y
    assume IH: "\<And>P msk flags base endt s y. loop P msk flags base endt s = Some y
        \<Longrightarrow> Q (((((P, msk), flags), base), endt), s) y"
    assume body: "(let (status, s1) = inb P (base + ATA_CB_STAT) s
       in if status AND msk = flags then Some (uint status, s1)
          else let (now, s2) = rdtscll P s1
               in if endt \<le> now then Some (- 1, s2)
                  else loop P msk flags base endt s2) = Some y"
    show "Q (((((P, msk), flags), base), endt), s) y"
    proof (cases "status_at P base s 0 AND msk = flags")
      case True
      then have "y = (uint (status_at P base s 0), snd (inb P (base + ATA_CB_STAT) s))"
        using body by (simp add: status_at_def case_prod_beta Let_def)
      then show ?thesis
        unfolding Q_def using True by (auto intro!: exI [of _ 0])
    next
      case nomatch: False
      show ?thesis
      proof (cases "endt \<le> tsc_at P base s 0")
        case True
        then have "y = (- 1, poll_round P base s)"
          using body nomatch
          by (simp add: status_at_def tsc_at_def poll_round_def case_prod_beta Let_def)
        then show ?thesis
          unfolding Q_def using True nomatch by (auto intro!: exI [of _ 0])
      next
        case False
        then have "loop P msk flags base endt (poll_round P base s) = Some y"
          using body nomatch
          by (simp add: status_at_def tsc_at_def poll_round_def case_prod_beta Let_def)
        from IH [OF this] obtain k where
          k: "\<forall>j<k. status_at P base (poll_round P base s) j AND msk \<noteq> flags
                \<and> tsc_at P base (poll_round P base s) j < endt"
             "status_at P base (poll_round P base s) k AND msk = flags
                \<and> fst y = uint (status_at P base (poll_round P base s) k)
                \<and> snd y = snd (inb P (base + ATA_CB_STAT)
                      (poll_state P base k (poll_round P base s)))
              \<or> status_at P base (poll_round P base s) k AND msk \<noteq> flags
                \<and> endt \<le> tsc_at P base (poll_round P base s) k
                \<and> fst y = - 1 \<and> snd y = poll_state P base (Suc k) (poll_round P base s)"
          unfolding Q_def by auto
        have a: "\<forall>j<Suc k. status_at P base s j AND msk \<noteq> flags \<and> tsc_at P base s j < endt"
        proof (intro allI impI)
          fix j assume "j < Suc k"
          show "status_at P base s j AND msk \<noteq> flags \<and> tsc_at P base s j < endt"
          proof (cases j)
            case 0
            then show ?thesis using nomatch False by simp
          next
            case (Suc i)
            then have "i < k" using \<open>j < Suc k\<close> by simp
            then show ?thesis using k(1) Suc by (simp add: status_at_Suc tsc_at_Suc)
          qed
        qed
        show ?thesis
          unfolding Q_def using a k(2)
          by (auto simp add: status_at_Suc tsc_at_Suc intro!: exI [of _ "Suc k"])
      qed
    qed
  qed
  then show ?thesis
    by (simp add: Q_def)
qed

lemma await_ide_unfold:
  "await_ide P msk flags base timeout s =
     await_ide_loop P msk flags base (fst (calc_future_tsc P (ucast timeout) s))
       (snd (calc_future_tsc P (ucast timeout) s))"
  by (simp add: await_ide_def case_prod_beta)

text \<open>
  Claim C7. Let \<open>endt\<close> be the deadline that \<open>calc_future_tsc\<close> computes and \<open>s0\<close> the
  machine after that. If round \<open>k\<close> is the first whose status read satisfies
  \<open>(status & mask) == flags\<close>, and no earlier clock read reached the deadline, \<open>await_ide\<close>
  returns that status byte, right after reading it. If round \<open>k\<close> is the first whose
  clock read reaches the deadline, and no status read up to it matched, \<open>await_ide\<close>
  returns -1. Conversely every return is one of the two: a return of -1 comes after a
  clock read that reached the deadline, all earlier clock reads being below it, and
  after at least one status read (those of rounds 0 to \<open>k\<close>), none of which matched.
\<close>

theorem await_ide_result:
  fixes P msk flags base timeout s
  defines "endt \<equiv> fst (calc_future_tsc P (ucast timeout) s)"
  defines "s0 \<equiv> snd (calc_future_tsc P (ucast timeout) s)"
  shows "(\<forall>k. (\<forall>j<k. status_at P base s0 j AND msk \<noteq> flags \<and> tsc_at P base s0 j < endt)
              \<and> status_at P base s0 k AND msk = flags \<longrightarrow>
            await_ide P msk flags base timeout s =
              Some (uint (status_at P base s0 k),
                    snd (inb P (base + ATA_CB_STAT) (poll_state P base k s0))))
       \<and> (\<forall>k. (\<forall>j<k. status_at P base s0 j AND msk \<noteq> flags \<and> tsc_at P base s0 j < endt)
              \<and> status_at P base s0 k AND msk \<noteq> flags \<and> endt \<le> tsc_at P base s0 k \<longrightarrow>
            await_ide P msk flags base timeout s = Some (- 1, poll_state P base (Suc k) s0))
       \<and> (\<forall>r s'. await_ide P msk flags base timeout s = Some (r, s') \<longrightarrow>
            (\<exists>k. (\<forall>j<k. status_at P base s0 j AND msk \<noteq> flags \<and> tsc_at P base s0 j < endt)
               \<and> (status_at P base s0 k AND msk = flags \<and> r = uint (status_at P base s0 k)
                    \<and> s' = snd (inb P (base + ATA_CB_STAT) (poll_state P base k s0))
                  \<or> status_at P base s0 k AND msk \<noteq> flags \<and> endt \<le> tsc_at P base s0 k
                    \<and> r = - 1 \<and> s' = poll_state P base (Suc k) s0)))
       \<and> (\<forall>s'. await_ide P msk flags base timeout s = Some (- 1, s') \<longrightarrow>
            (\<exists>k. endt \<le> tsc_at P base s0 k
               \<and> (\<forall>j<k. tsc_at P base s0 j < endt)
               \<and> (\<forall>j\<le>k. status_at P base s0 j AND msk \<noteq> flags)
               \<and> s' = poll_state P base (Suc k) s0))"
proof (intro conjI allI impI)
  fix k
  assume a: "(\<forall>j<k. status_at P base s0 j AND msk \<noteq> flags \<and> tsc_at P base s0 j < endt)
      \<and> status_at P base s0 k AND msk = flags"
  then have "await_ide_loop P msk flags base endt s0
      = await_ide_loop P msk flags base endt (poll_state P base k s0)"
    by (intro await_ide_loop_rounds) simp
  also have "\<dots> = Some (uint (status_at P base (poll_state P base k s0) 0),
      snd (inb P (base + ATA_CB_STAT) (poll_state P base k s0)))"
    using a by (intro await_ide_loop_match) (simp add: status_at_poll_state)
  finally show "await_ide P msk flags base timeout s =
      Some (uint (status_at P base s0 k),
            snd (inb P (base + ATA_CB_STAT) (poll_state P base k s0)))"
    by (simp add: await_ide_unfold endt_def s0_def status_at_poll_state)
next
  fix k
  assume a: "(\<forall>j<k. status_at P base s0 j AND msk \<noteq> flags \<and> tsc_at P base s0 j < endt)
      \<and> status_at P base s0 k AND msk \<noteq> flags \<and> endt \<le> tsc_at P base s0 k"
  then have "await_ide_loop P msk flags base endt s0
      = await_ide_loop P msk flags base endt (poll_state P base k s0)"
    by (intro await_ide_loop_rounds) simp
  also have "\<dots> = Some (- 1, poll_round P base (poll_state P base k s0))"
    using a by (intro await_ide_loop_timeout)
      (simp_all add: status_at_poll_state tsc_at_poll_state)
  finally show "await_ide P msk flags base timeout s = Some (- 1, poll_state P base (Suc k) s0)"
    by (simp add: await_ide_unfold endt_def s0_def poll_round_poll_state
        del: poll_state.simps)
next
  fix r s'
  assume "await_ide P msk flags base timeout s = Some (r, s')"
  then have "await_ide_loop P msk flags base endt s0 = Some (r, s')"
    by (simp add: await_ide_unfold endt_def s0_def)
  from await_ide_loop_returns [OF this]
  show "\<exists>k. (\<forall>j<k. status_at P base s0 j AND msk \<noteq> flags \<and> tsc_at P base s0 j < endt)
      \<and> (status_at P base s0 k AND msk = flags \<and> r = uint (status_at P base s0 k)
            \<and> s' = snd (inb P (base + ATA_CB_STAT) (poll_state P base k s0))
          \<or> status_at P base s0 k AND msk \<noteq> flags \<and> endt \<le> tsc_at P base s0 k
            \<and> r = - 1 \<and> s' = poll_state P base (Suc k) s0)"
    by simp
next
  fix s'
  assume "await_ide P msk flags base timeout s = Some (- 1, s')"
  then have "await_ide_loop P msk flags base endt s0 = Some (- 1, s')"
    by (simp add: await_ide_unfold endt_def s0_def)
  from await_ide_loop_returns [OF this]
  obtain k where k: "\<forall>j<k. status_at P base s0 j AND msk \<noteq> flags \<and> tsc_at P base s0 j < endt"
    and d: "status_at P base s0 k AND msk = flags \<and> (- 1 :: int) = uint (status_at P base s0 k)
            \<and> s' = snd (inb P (base + ATA_CB_STAT) (poll_state P base k s0))
          \<or> status_at P base s0 k AND msk \<noteq> flags \<and> endt \<le> tsc_at P base s0 k
            \<and> s' = poll_state P base (Suc k) s0"
    by auto
  have "(- 1 :: int) \<noteq> uint (status_at P base s0 k)"
    using uint_ge_0 [of "status_at P base s0 k"] by arith
  with d have t: "status_at P base s0 k AND msk \<noteq> flags" "endt \<le> tsc_at P base s0 k"
      "s' = poll_state P base (Suc k) s0"
    by auto
  have "\<forall>j\<le>k. status_at P base s0 j AND msk \<noteq> flags"
    using k t(1) by (auto simp add: le_less)
  then show "\<exists>k. endt \<le> tsc_at P base s0 k
      \<and> (\<forall>j<k. tsc_at P base s0 j < endt)
      \<and> (\<forall>j\<le>k. status_at P base s0 j AND msk \<noteq> flags)
      \<and> s' = poll_state P base (Suc k) s0"
    using k t by blast
qed

lemmas poll_eval = status_at_def tsc_at_def poll_round_def inb_def rdtscll_def
  calc_future_tsc_def hw_poll_def example_platform_def example_machine_def Let_def
  ATA_CB_STAT_def ATA_CB_STAT_BSY_def IDE_TIMEOUT_def

theorem await_ide_result_witness:
  "map_option fst (await_ide (example_platform (hw_poll 4)) ATA_CB_STAT_BSY 0 0x1f0
      IDE_TIMEOUT example_machine) = Some 0x50
   \<and> map_option (trace \<circ> snd) (await_ide (example_platform (hw_poll 4)) ATA_CB_STAT_BSY 0
      0x1f0 IDE_TIMEOUT example_machine)
     = Some [E_inb 0x1f7, E_rdtscll, E_inb 0x1f7, E_calc_future_tsc 32000]
   \<and> map_option fst (await_ide (example_platform (hw_poll 100)) ATA_CB_STAT_BSY 0 0x1f0
      IDE_TIMEOUT example_machine) = Some (- 1)
   \<and> map_option (trace \<circ> snd) (await_ide (example_platform (hw_poll 100)) ATA_CB_STAT_BSY 0
      0x1f0 IDE_TIMEOUT example_machine)
     = Some [E_rdtscll, E_inb 0x1f7, E_rdtscll, E_inb 0x1f7, E_calc_future_tsc 32000]"
proof -
  let ?P = "example_platform (hw_poll 4)" and ?Q = "example_platform (hw_poll 100)"
  let ?s0 = "\<lambda>P. snd (calc_future_tsc P (ucast IDE_TIMEOUT) example_machine)"
  let ?e = "\<lambda>P. fst (calc_future_tsc P (ucast IDE_TIMEOUT) example_machine)"
  have m: "(\<forall>j<1. status_at ?P 0x1f0 (?s0 ?P) j AND ATA_CB_STAT_BSY \<noteq> 0
                \<and> tsc_at ?P 0x1f0 (?s0 ?P) j < ?e ?P)
      \<and> status_at ?P 0x1f0 (?s0 ?P) 1 AND ATA_CB_STAT_BSY = 0"
    by (simp add: poll_eval)
  have t: "(\<forall>j<1. status_at ?Q 0x1f0 (?s0 ?Q) j AND ATA_CB_STAT_BSY \<noteq> 0
                \<and> tsc_at ?Q 0x1f0 (?s0 ?Q) j < ?e ?Q)
      \<and> status_at ?Q 0x1f0 (?s0 ?Q) 1 AND ATA_CB_STAT_BSY \<noteq> 0
      \<and> ?e ?Q \<le> tsc_at ?Q 0x1f0 (?s0 ?Q) 1"
    by (simp add: poll_eval)
  note r1 = await_ide_result [where P = ?P and base = "0x1f0" and timeout = IDE_TIMEOUT
      and s = example_machine and msk = ATA_CB_STAT_BSY and flags = 0,
      THEN conjunct1, THEN spec, where x = 1, THEN mp, OF m]
  note r2 = await_ide_result [where P = ?Q and base = "0x1f0" and timeout = IDE_TIMEOUT
      and s = example_machine and msk = ATA_CB_STAT_BSY and flags = 0,
      THEN conjunct2, THEN conjunct1, THEN spec, where x = 1, THEN mp, OF t]
  show ?thesis
    unfolding r1 r2 by (simp add: poll_eval)
qed

subsection \<open>What the port operations leave alone\<close>

lemma inb_frame [simp]:
  "ATA (snd (inb P port s)) = ATA s"
  "ram (snd (inb P port s)) = ram s"
  "ebda_sector_count (snd (inb P port s)) = ebda_sector_count s"
  "trace (snd (inb P port s)) = E_inb port # trace s"
  by (simp_all add: inb_def Let_def)

lemma inw_frame [simp]:
  "ATA (snd (inw P port s)) = ATA s"
  "ram (snd (inw P port s)) = ram s"
  "ebda_sector_count (snd (inw P port s)) = ebda_sector_count s"
  "trace (snd (inw P port s)) = E_inw port # trace s"
  by (simp_all add: inw_def Let_def)

lemma inl_frame [simp]:
  "ATA (snd (inl P port s)) = ATA s"
  "ram (snd (inl P port s)) = ram s"
  "ebda_sector_count (snd (inl P port s)) = ebda_sector_count s"
  "trace (snd (inl P port s)) = E_inl port # trace s"
  by (simp_all add: inl_def Let_def)

lemma outb_frame [simp]:
  "ATA (outb v port s) = ATA s"
  "ram (outb v port s) = ram s"
  "ebda_sector_count (outb v port s) = ebda_sector_count s"
  "trace (outb v port s) = E_outb v port # trace s"
  by (simp_all add: outb_def)

lemma rdtscll_frame [simp]:
  "ATA (snd (rdtscll P s)) = ATA s"
  "ram (snd (rdtscll P s)) = ram s"
  "ebda_sector_count (snd (rdtscll P s)) = ebda_sector_count s"
  "trace (snd (rdtscll P s)) = E_rdtscll # trace s"
  by (simp_all add: rdtscll_def Let_def)

lemma calc_future_tsc_frame [simp]:
  "ATA (snd (calc_future_tsc P m s)) = ATA s"
  "ram (snd (calc_future_tsc P m s)) = ram s"
  "ebda_sector_count (snd (calc_future_tsc P m s)) = ebda_sector_count s"
  "trace (snd (calc_future_tsc P m s)) = E_calc_future_tsc m # trace s"
  by (simp_all add: calc_future_tsc_def Let_def)

lemma delay_frame [simp]:
  "ATA (ndelay n s) = ATA s" "ATA (udelay n s) = ATA s" "ATA (mdelay n s) = ATA s"
  "ram (ndelay n s) = ram s" "ram (udelay n s) = ram s" "ram (mdelay n s) = ram s"
  "ebda_sector_count (ndelay n s) = ebda_sector_count s"
  "ebda_sector_count (udelay n s) = ebda_sector_count s"
  "ebda_sector_count (mdelay n s) = ebda_sector_count s"
  "trace (ndelay n s) = E_ndelay n # trace s"
  "trace (udelay n s) = E_udelay n # trace s"
  "trace (mdelay n s) = E_mdelay n # trace s"
  by (simp_all add: ndelay_def udelay_def mdelay_def)

lemma inb_cmos_frame [simp]:
  "ATA (snd (inb_cmos P reg s)) = ATA s"
  by (simp add: inb_cmos_def Let_def)

lemma string_io_frame [simp]:
  "ATA (insw_fl P port buf n s) = ATA s"
  "ATA (insl_fl P port buf n s) = ATA s"
  "ATA (outsw_fl port buf n s) = ATA s"
  "ATA (outsl_fl port buf n s) = ATA s"
  "ebda_sector_count (insw_fl P port buf n s) = ebda_sector_count s"
  "ebda_sector_count (insl_fl P port buf n s) = ebda_sector_count s"
  "ebda_sector_count (outsw_fl port buf n s) = ebda_sector_count s"
  "ebda_sector_count (outsl_fl port buf n s) = ebda_sector_count s"
  "trace (insw_fl P port buf n s) = E_insw port buf n # trace s"
  "trace (insl_fl P port buf n s) = E_insl port buf n # trace s"
  by (simp_all add: insw_fl_def insl_fl_def outsw_fl_def outsl_fl_def Let_def)

lemma repeat_inw_frame [simp]:
  "ATA (repeat_inw P port n s) = ATA s"
  "ram (repeat_inw P port n s) = ram s"
  "ebda_sector_count (repeat_inw P port n s) = ebda_sector_count s"
  "trace (repeat_inw P port n s) = replicate n (E_inw port) @ trace s"
  by (induction n arbitrary: s; simp add: replicate_app_Cons_same)+

lemma repeat_inl_frame [simp]:
  "ATA (repeat_inl P port n s) = ATA s"
  "ram (repeat_inl P port n s) = ram s"
  "ebda_sector_count (repeat_inl P port n s) = ebda_sector_count s"
  "trace (repeat_inl P port n s) = replicate n (E_inl port) @ trace s"
  by (induction n arbitrary: s; simp add: replicate_app_Cons_same)+

lemma insx_discard_frame [simp]:
  "ATA (insx_discard P md iob1 bytes s) = ATA s"
  "ram (insx_discard P md iob1 bytes s) = ram s"
  "ebda_sector_count (insx_discard P md iob1 bytes s) = ebda_sector_count s"
  by (simp_all add: insx_discard_def)

lemma insx_discard_trace:
  "trace (insx_discard P md iob1 bytes s) =
     (if md = ATA_MODE_PIO32 then replicate (nat (c_div bytes 4)) (E_inl iob1)
      else replicate (nat (c_div bytes 2)) (E_inw iob1)) @ trace s"
  by (simp add: insx_discard_def)

lemma dprintf_inb_frame [simp]:
  "ATA (dprintf_inb P lvl port s) = ATA s"
  by (simp add: dprintf_inb_def)

lemma poll_state_frame [simp]:
  "ATA (poll_state P base k s) = ATA s"
  "ram (poll_state P base k s) = ram s"
  "ebda_sector_count (poll_state P base k s) = ebda_sector_count s"
  by (induction k arbitrary: s; simp add: poll_round_def)+


text \<open>The waiting functions touch nothing but the trace.\<close>

lemma await_ide_frame:
  assumes "await_ide P msk flags base timeout s = Some y"
  shows "ATA (snd y) = ATA s" and "ram (snd y) = ram s"
    and "ebda_sector_count (snd y) = ebda_sector_count s"
proof -
  have "await_ide_loop P msk flags base (fst (calc_future_tsc P (ucast timeout) s))
      (snd (calc_future_tsc P (ucast timeout) s)) = Some y"
    using assms by (simp add: await_ide_unfold)
  from await_ide_loop_returns [OF this]
  obtain k where "snd y = snd (inb P (base + ATA_CB_STAT)
        (poll_state P base k (snd (calc_future_tsc P (ucast timeout) s))))
      \<or> snd y = poll_state P base (Suc k) (snd (calc_future_tsc P (ucast timeout) s))"
    by blast
  then show "ATA (snd y) = ATA s" and "ram (snd y) = ram s"
    and "ebda_sector_count (snd y) = ebda_sector_count s"
    by (auto simp del: poll_state.simps)
qed

lemma await_not_bsy_frame:
  assumes "await_not_bsy P base s = Some y"
  shows "ATA (snd y) = ATA s" and "ram (snd y) = ram s"
    and "ebda_sector_count (snd y) = ebda_sector_count s"
  using await_ide_frame [OF assms [unfolded await_not_bsy_def]] by simp_all

lemma await_rdy_frame:
  assumes "await_rdy P base s = Some y"
  shows "ATA (snd y) = ATA s" and "ram (snd y) = ram s"
    and "ebda_sector_count (snd y) = ebda_sector_count s"
  using await_ide_frame [OF assms [unfolded await_rdy_def]] by simp_all

lemma pause_await_not_bsy_frame:
  assumes "pause_await_not_bsy P iob1 iob2 s = Some y"
  shows "ATA (snd y) = ATA s" and "ram (snd y) = ram s"
    and "ebda_sector_count (snd y) = ebda_sector_count s"
  using assms await_not_bsy_frame [of P iob1 "snd (inb P (iob2 + ATA_CB_ASTAT) s)" y]
  by (simp_all add: pause_await_not_bsy_def case_prod_beta)

lemma ndelay_await_not_bsy_frame:
  assumes "ndelay_await_not_bsy P iob1 s = Some y"
  shows "ATA (snd y) = ATA s" and "ram (snd y) = ram s"
    and "ebda_sector_count (snd y) = ebda_sector_count s"
  using assms await_not_bsy_frame [of P iob1 "ndelay 400 s" y]
  by (simp_all add: ndelay_await_not_bsy_def)

subsection \<open>The table \<open>ATA\<close> under commands and transfers\<close>

lemma send_cmd_ATA:
  assumes "send_cmd P drv cmd s = Some y"
  shows "ATA (snd y) = ATA s"
  using assms
  by (auto simp add: send_cmd_def Let_def case_prod_beta
      split: Option.bind_splits if_splits
      dest!: await_not_bsy_frame(1) ndelay_await_not_bsy_frame(1))

lemma ata_transfer_loop_ATA:
  assumes "ata_transfer_loop P iswrite cnt blocksize skipfirst skiplast iob1 iob2 md current
      buf s = Some y"
  shows "ATA (snd y) = ATA s"
proof -
  define Q where "Q = (\<lambda>(x :: ((((((((((platform \<times> bool) \<times> int) \<times> int) \<times> int) \<times> int)
      \<times> u16) \<times> u16) \<times> u8) \<times> int) \<times> u32) \<times> machine) (y :: (int + int) \<times> machine).
    ATA (snd y) = ATA (snd x))"
  have "Q (((((((((((P, iswrite), cnt), blocksize), skipfirst), skiplast), iob1), iob2), md),
      current), buf), s) y"
  proof (rule ata_transfer_loop.raw_induct [where Pa = Q, OF _ assms])
    fix loop P iswrite cnt blocksize skipfirst skiplast iob1 iob2 md current buf s y
    assume IH: "\<And>P iswrite cnt blocksize skipfirst skiplast iob1 iob2 md current buf s y.
        loop P iswrite cnt blocksize skipfirst skiplast iob1 iob2 md current buf s = Some y
        \<Longrightarrow> Q (((((((((((P, iswrite), cnt), blocksize), skipfirst), skiplast), iob1), iob2),
              md), current), buf), s) y"
    assume body: "(let bsize = blocksize;
          (bsize, s1) =
            (if skipfirst \<noteq> 0 \<and> current = 0
             then (bsize - skipfirst, insx_discard P md iob1 skipfirst s)
             else (bsize, s));
          bsize = (if skiplast \<noteq> 0 \<and> current = cnt - 1 then bsize - skiplast else bsize);
          s2 = (if iswrite
                then (if md = ATA_MODE_PIO32
                      then outsl_fl iob1 buf (c_div bsize 4) s1
                      else outsw_fl iob1 buf (c_div bsize 2) s1)
                else (if md = ATA_MODE_PIO32
                      then insl_fl P iob1 buf (c_div bsize 4) s1
                      else insw_fl P iob1 buf (c_div bsize 2) s1));
          buf = buf + word_of_int bsize;
          s3 = (if skiplast \<noteq> 0 \<and> current = cnt - 1
                then insx_discard P md iob1 skiplast s2 else s2)
      in case pause_await_not_bsy P iob1 iob2 s3 of
           None \<Rightarrow> None
         | Some (status, s4) \<Rightarrow>
             if status < 0 then Some (Inl status, s4)
             else
               let current = current + 1;
                   s5 = s4\<lparr>ebda_sector_count := word_of_int current\<rparr>
               in if current = cnt then Some (Inr status, s5)
                  else
                    let status = status AND uint (ATA_CB_STAT_BSY OR ATA_CB_STAT_DRQ
                                                   OR ATA_CB_STAT_ERR)
                    in if status \<noteq> uint ATA_CB_STAT_DRQ then Some (Inl (- 6), s5)
                       else loop P iswrite cnt blocksize skipfirst skiplast
                              iob1 iob2 md current buf s5) = Some y"
    show "Q (((((((((((P, iswrite), cnt), blocksize), skipfirst), skiplast), iob1), iob2), md),
      current), buf), s) y"
      using body unfolding Q_def
      by (auto simp add: Let_def case_prod_beta
          split: option.splits if_splits
          dest!: pause_await_not_bsy_frame(1) IH [unfolded Q_def])
  qed
  then show ?thesis
    by (simp add: Q_def)
qed

lemma ata_transfer_ATA:
  assumes "ata_transfer P drv iswrite cnt blocksize skipfirst skiplast buf s = Some y"
  shows "ATA (snd y) = ATA s"
  using assms
  by (auto simp add: ata_transfer_def Let_def case_prod_beta
      split: Option.bind_splits if_splits sum.splits
      dest!: ata_transfer_loop_ATA)

subsection \<open>The bytes a single block moves\<close>

lemma discarded_bytes_simps [simp]:
  "discarded_bytes [] = 0"
  "discarded_bytes (e # t) = discard_width e + discarded_bytes t"
  "discarded_bytes (t @ u) = discarded_bytes t + discarded_bytes u"
  "discarded_bytes (replicate n e) = n * discard_width e"
  by (simp_all add: discarded_bytes_def sum_list_replicate)

lemma stored_bytes_simps [simp]:
  "stored_bytes [] = 0"
  "stored_bytes (e # t) = store_width e + stored_bytes t"
  "stored_bytes (t @ u) = stored_bytes t + stored_bytes u"
  "stored_bytes (replicate n e) = n * store_width e"
  by (simp_all add: stored_bytes_def sum_list_replicate)














lemma hw_zero_status [simp]: "status_at (example_platform hw_zero) base s k = 0"
  by (simp add: status_at_def inb_def hw_zero_def example_platform_def Let_def)

lemma await_not_bsy_hw_zero:
  "await_not_bsy (example_platform hw_zero) base s =
     Some (0, snd (inb (example_platform hw_zero) (base + ATA_CB_STAT)
            (snd (calc_future_tsc (example_platform hw_zero) (ucast IDE_TIMEOUT) s))))"
  using await_ide_loop_match [of "example_platform hw_zero" base
      "snd (calc_future_tsc (example_platform hw_zero) (ucast IDE_TIMEOUT) s)"
      ATA_CB_STAT_BSY 0]
  by (simp add: await_not_bsy_def await_ide_unfold)


lemma example_mode [simp]:
  "mode (devices (ATA example_machine) drv) = 0"
  "mode (devices (ATA machine_pio32) 0) = ATA_MODE_PIO32"
  by (simp_all add: example_machine_def zero_ATA_def machine_pio32_def set_device_def)

lemma hw_busy_status [simp]:
  "status_at (example_platform hw_busy) base s k = 0x80"
  "tsc_at (example_platform hw_busy) base s k = 0"
  "fst (calc_future_tsc (example_platform hw_busy) m s) = 1"
  by (simp_all add: status_at_def tsc_at_def inb_def rdtscll_def calc_future_tsc_def
      hw_busy_def example_platform_def Let_def)





subsection \<open>Emulated 512-byte sectors\<close>

lemma cdrom_read_512_op:
  assumes "cdrom_read_512 P op s = Some ((ret, op'), s')"
  shows "op' = fst (cdrom_read_512_locals op)"
  using assms
  by (auto simp add: cdrom_read_512_def case_prod_beta split: Option.bind_splits if_splits)

lemma cdrom_read_512_locals_op:
  "fst (cdrom_read_512_locals op) =
     op\<lparr>lba := ucast ((ucast (lba op) :: u32) div 4),
        count := ucast (((ucast (lba op) :: u32) + ucast (count op) - 1) div 4
                          - (ucast (lba op) :: u32) div 4 + 1)\<rparr>"
  by (simp add: cdrom_read_512_locals_def Let_def)

lemma unat_low32: "unat (ucast (x :: u64) :: u32) = unat x mod 2 ^ 32"
  by (simp add: unsigned_ucast_eq take_bit_eq_mod)

lemma unat_lba_div4:
  "unat (ucast ((ucast (x :: u64) :: u32) div 4) :: u64) = (unat x mod 2 ^ 32) div 4"
proof -
  have "unat ((ucast x :: u32) div 4) = (unat x mod 2 ^ 32) div 4"
    by (simp add: unat_div unat_low32)
  moreover have "(unat x mod 2 ^ 32) div 4 < 2 ^ 64"
    by (rule le_less_trans [of _ "2 ^ 32"]) simp_all
  ultimately show ?thesis
    by (simp add: unsigned_ucast_eq take_bit_eq_mod)
qed

lemma touched_bounds:
  fixes v n :: int
  assumes "0 \<le> v" "1 \<le> n" "n < 65536"
  shows "1 \<le> (v + n - 1) div 4 - v div 4 + 1" "(v + n - 1) div 4 - v div 4 + 1 < 65536"
  using assms by arith+

lemma touched_arith:
  fixes v n :: int
  assumes "0 \<le> v" "v < 4294967296" "1 \<le> n" "n < 65536"
  shows "(((v + n - 1) mod 4294967296) div 4 - v div 4 + 1) mod 65536
    = (v + n - 1) div 4 - v div 4 + 1"
proof -
  define d where "d = (v + n - 1) div 4 - v div 4 + 1"
  have db: "0 \<le> d" "d < 65536"
    using touched_bounds [OF assms(1,3,4)] by (simp_all add: d_def)
  show ?thesis
  proof (cases "v + n - 1 < 4294967296")
    case True
    then have "(v + n - 1) mod 4294967296 = v + n - 1"
      using assms by simp
    then show ?thesis
      using db by (simp add: d_def [symmetric])
  next
    case False
    then have m: "(v + n - 1) mod 4294967296 = v + n - 1 - 4294967296"
      using assms by (simp add: mod_pos_geq)
    have "(v + n - 1 - 4294967296) div 4 = (v + n - 1) div 4 - 1073741824"
      by arith
    then have "((v + n - 1) mod 4294967296) div 4 - v div 4 + 1 = d - 16384 * 65536"
      by (simp add: m d_def)
    then have "(((v + n - 1) mod 4294967296) div 4 - v div 4 + 1) mod 65536 = d mod 65536"
      by (simp only: mod_diff_right_eq [symmetric, of d "16384 * 65536" 65536] mod_mult_self2_is_0
          diff_zero mod_mod_trivial)
    then show ?thesis
      using db by (simp add: d_def [symmetric])
  qed
qed

lemma uint_u16_less: "uint (c :: u16) < 65536"
  using uint_lt2p [of c] by simp

lemma uint_u16_pos:
  assumes "1 \<le> unat (c :: u16)"
  shows "1 \<le> uint c"
proof -
  have "int 1 \<le> int (unat c)"
    using assms by (simp only: of_nat_le_iff)
  then show ?thesis
    by simp
qed

lemma uint_low32: "uint (ucast (x :: u64) :: u32) = uint x mod 4294967296"
  by (simp add: unsigned_ucast_eq take_bit_eq_mod)

lemma uint_u16_u32: "uint (ucast (c :: u16) :: u32) = uint c"
  using uint_u16_less [of c] by (simp add: unsigned_ucast_eq take_bit_eq_mod)

lemma uint_add_sub1_u32: "uint ((a :: u32) + b - 1) = (uint a + uint b - 1) mod 4294967296"
  by (simp add: uint_word_ariths mod_simps)

lemma uint_div4_u32: "uint ((a :: u32) div 4) = uint a div 4"
  by (simp add: uint_div)

lemma uint_sub_add1_u32: "uint ((a :: u32) - b + 1) = (uint a - uint b + 1) mod 4294967296"
  by (simp add: uint_word_ariths mod_simps)

lemma uint_low16: "uint (ucast (a :: u32) :: u16) = uint a mod 65536"
  by (simp add: unsigned_ucast_eq take_bit_eq_mod)

lemma mod_32_16: "((k :: int) mod 4294967296) mod 65536 = k mod 65536"
  by (rule mod_mod_cancel) simp

lemma physical_count_any:
  fixes x :: u64 and c :: u16
  assumes c: "1 \<le> unat c"
  shows "unat (ucast (((ucast x :: u32) + ucast c - 1) div 4 - (ucast x :: u32) div 4 + 1) :: u16)
    = (unat x mod 2 ^ 32 + unat c - 1) div 4 - (unat x mod 2 ^ 32) div 4 + 1"
proof -
  define v where "v = uint x mod 4294967296"
  define n where "n = uint c"
  have vb: "0 \<le> v" "v < 4294967296"
    by (simp_all add: v_def)
  have nb: "1 \<le> n" "n < 65536"
    using uint_u16_pos [OF c] uint_u16_less [of c] by (simp_all add: n_def)
  have "uint (ucast (((ucast x :: u32) + ucast c - 1) div 4 - (ucast x :: u32) div 4 + 1) :: u16)
      = ((((v + n - 1) mod 4294967296) div 4 - v div 4 + 1) mod 4294967296) mod 65536"
    unfolding uint_low16 uint_sub_add1_u32 uint_div4_u32 uint_add_sub1_u32 uint_low32
      uint_u16_u32 v_def n_def ..
  also have "\<dots> = (((v + n - 1) mod 4294967296) div 4 - v div 4 + 1) mod 65536"
    by (rule mod_32_16)
  also have "\<dots> = (v + n - 1) div 4 - v div 4 + 1"
    using vb nb by (rule touched_arith)
  finally have u: "uint (ucast (((ucast x :: u32) + ucast c - 1) div 4
      - (ucast x :: u32) div 4 + 1) :: u16) = (v + n - 1) div 4 - v div 4 + 1" .
  define a where "a = unat x mod 4294967296"
  define b where "b = unat c"
  have vn: "v = int a" "n = int b"
    by (simp_all add: v_def n_def a_def b_def zmod_int)
  have le: "a div 4 \<le> (a + b - 1) div 4"
    using c by (intro div_le_mono) (simp add: b_def)
  have b1: "1 \<le> a + b"
    using c by (simp add: b_def)
  have "(v + n - 1) div 4 - v div 4 + 1 = int ((a + b - 1) div 4 - a div 4 + 1)"
    using le b1 unfolding vn by (simp add: of_nat_diff zdiv_int)
  then have "int (unat (ucast (((ucast x :: u32) + ucast c - 1) div 4
      - (ucast x :: u32) div 4 + 1) :: u16)) = int ((a + b - 1) div 4 - a div 4 + 1)"
    using u by simp
  then have "unat (ucast (((ucast x :: u32) + ucast c - 1) div 4
      - (ucast x :: u32) div 4 + 1) :: u16) = (a + b - 1) div 4 - a div 4 + 1"
    by (simp only: of_nat_eq_iff)
  then show ?thesis
    by (simp add: a_def b_def)
qed

text \<open>
  Claim C10, as the code has it. When \<open>cdrom_read_512\<close> returns, with success or with an
  error, the descriptor holds in \<open>lba\<close> the low 32 bits of the caller's LBA divided by 4
  (which is the caller's LBA divided by 4 when that LBA is below \<open>2^32\<close>), and in \<open>count\<close>
  the sector count of the physical request, the 16-bit value of \<open>elba - lba + 1\<close>. For a
  range of \<open>n\<close> blocks from the 32-bit block \<open>v\<close>, with \<open>n\<close> at least 1, that count is
  \<open>(v + n - 1) div 4 - v div 4 + 1\<close>, the number of 2048-byte sectors that the blocks
  \<open>v\<close> to \<open>v + n - 1\<close> lie in, also when the range passes \<open>2^32\<close>. The fields \<open>driveid\<close>,
  \<open>buf_fl\<close> and \<open>command\<close> are as before.
\<close>

theorem cdrom_read_512_descriptor:
  assumes run: "cdrom_read_512 P op s = Some ((ret, op'), s')"
  shows "unat (lba op') = (unat (lba op) mod 2 ^ 32) div 4
       \<and> (unat (lba op) < 2 ^ 32 \<longrightarrow> unat (lba op') = unat (lba op) div 4)
       \<and> count op' = ucast (((ucast (lba op) :: u32) + ucast (count op) - 1) div 4
                               - (ucast (lba op) :: u32) div 4 + 1)
       \<and> (1 \<le> unat (count op) \<longrightarrow>
            unat (count op') =
              (unat (lba op) mod 2 ^ 32 + unat (count op) - 1) div 4
                - (unat (lba op) mod 2 ^ 32) div 4 + 1)
       \<and> driveid op' = driveid op \<and> buf_fl op' = buf_fl op \<and> command op' = command op"
proof -
  have o: "op' = op\<lparr>lba := ucast ((ucast (lba op) :: u32) div 4),
        count := ucast (((ucast (lba op) :: u32) + ucast (count op) - 1) div 4
                          - (ucast (lba op) :: u32) div 4 + 1)\<rparr>"
    using cdrom_read_512_op [OF run] by (simp add: cdrom_read_512_locals_op)
  have l: "unat (lba op') = (unat (lba op) mod 2 ^ 32) div 4"
    by (simp add: o unat_lba_div4)
  have c: "unat (count op') =
        (unat (lba op) mod 2 ^ 32 + unat (count op) - 1) div 4
          - (unat (lba op) mod 2 ^ 32) div 4 + 1"
    if "1 \<le> unat (count op)"
    using that physical_count_any [of "count op" "lba op"] by (simp add: o)
  show ?thesis
    using l c by (simp add: o)
qed

lemma send_cmd_hw_zero:
  "\<exists>s'. send_cmd (example_platform hw_zero) drv cmd s = Some (- 5, s')"
  by (simp add: send_cmd_def Let_def await_not_bsy_hw_zero ndelay_await_not_bsy_def
      case_prod_beta ATA_CB_STAT_ERR_def ATA_CB_STAT_DRQ_def)

lemma cdrom_read_512_hw_zero:
  "\<exists>s'. cdrom_read_512 (example_platform hw_zero) op s
     = Some ((- 5, fst (cdrom_read_512_locals op)), s')"
proof -
  obtain s' where "send_cmd (example_platform hw_zero)
      (unat (driveid (fst (cdrom_read_512_locals op))))
      (zero_cmd\<lparr>sector_count := 0, feature := 0, lba_low := 0,
         lba_mid := ucast (word_of_int CDROM_SECTOR_SIZE :: u16),
         lba_high := ucast (drop_bit 8 (word_of_int CDROM_SECTOR_SIZE :: u16)),
         device_reg := 0, command_reg := ATA_CMD_PACKET\<rparr>) s = Some (- 5, s')"
    using send_cmd_hw_zero by blast
  then show ?thesis
    by (simp add: cdrom_read_512_def send_cmd_cdrom_def send_atapi_cmd_def Let_def
        case_prod_beta)
qed

theorem cdrom_read_512_descriptor_witness:
  "map_option (\<lambda>((r, op'), s'). (lba op', count op', driveid op', buf_fl op'))
     (cdrom_read_512 (example_platform hw_zero) op_cdemu example_machine)
   = Some (1, 3, 0, 0x8000)"
proof -
  obtain r op' s' where run: "cdrom_read_512 (example_platform hw_zero) op_cdemu
      example_machine = Some ((r, op'), s')"
    using cdrom_read_512_hw_zero [of op_cdemu example_machine] by auto
  have "unat (lba op') = 1" "unat (count op') = 3" "driveid op' = 0" "buf_fl op' = 0x8000"
    using cdrom_read_512_descriptor [OF run] by (simp_all add: op_cdemu_def)
  then have "lba op' = 1" "count op' = 3" "driveid op' = 0" "buf_fl op' = 0x8000"
    by (simp_all add: word_unat_eq_iff)
  then show ?thesis
    by (simp add: run)
qed

text \<open>
  Claim C10 as stated fails for an LBA of \<open>2^32\<close> or more: the code keeps only the low
  32 bits, so for the LBA \<open>2^32\<close> the descriptor ends with LBA 0, not \<open>2^32 / 4\<close>.
\<close>

theorem cdrom_read_512_far_counterexample:
  "map_option (\<lambda>((r, op'), s'). lba op')
     (cdrom_read_512 (example_platform hw_zero) op_far example_machine) = Some 0
   \<and> lba op_far div 4 = 0x40000000"
proof -
  obtain s' where run: "cdrom_read_512 (example_platform hw_zero) op_far example_machine
      = Some ((- 5, fst (cdrom_read_512_locals op_far)), s')"
    using cdrom_read_512_hw_zero [of op_far example_machine] by auto
  have "lba (fst (cdrom_read_512_locals op_far)) = 0"
    by (simp add: cdrom_read_512_locals_op op_far_def)
  then show ?thesis
    by (simp add: run) (simp add: op_far_def)
qed

lemma ata_transfer_cdemu_count:
  assumes "ata_transfer_cdemu P op before after s = Some (0, s')"
  shows "ebda_sector_count s' = word_of_int (uint (count op) * 4 - before - after)"
  using assms
  by (auto simp add: ata_transfer_cdemu_def Let_def split: Option.bind_splits if_splits)

lemma cdrom_read_512_success:
  assumes "cdrom_read_512 P op s = Some ((0, op'), s')"
  shows "case cdrom_read_512_locals op of
           (op2, l, e, before, after) \<Rightarrow>
             op' = op2
           \<and> ebda_sector_count s' = word_of_int (uint (count op2) * 4 - before - after)"
proof -
  obtain op2 l e before after where loc: "cdrom_read_512_locals op = (op2, l, e, before, after)"
    by (cases "cdrom_read_512_locals op") auto
  obtain s1 where "ata_transfer_cdemu P op2 before after s1 = Some (0, s')" and "op' = op2"
    using assms
    by (auto simp add: cdrom_read_512_def loc split: Option.bind_splits if_splits)
  then show ?thesis
    using ata_transfer_cdemu_count [of P op2 before after s1 s'] by (simp add: loc)
qed

lemma cdrom_read_512_locals_example:
  "lba op = 5 \<Longrightarrow> count op = 10 \<Longrightarrow>
   cdrom_read_512_locals op = (op\<lparr>lba := 1, count := 3\<rparr>, 1, 3, 1, 1)"
  by (simp add: cdrom_read_512_locals_def Let_def)

lemma cdrom_read_512_visible_count_all:
  "(lba op = 5 \<and> count op = 10 \<longrightarrow>
      cdrom_read_512_locals op = (op\<lparr>lba := 1, count := 3\<rparr>, 1, 3, 1, 1))
   \<and> (\<forall>P s op' s'. cdrom_read_512 P op s = Some ((0, op'), s') \<longrightarrow>
        (case cdrom_read_512_locals op of
           (op2, l, e, before, after) \<Rightarrow>
             op' = op2
           \<and> ebda_sector_count s' = word_of_int (uint (count op2) * 4 - before - after))
      \<and> (lba op = 5 \<and> count op = 10 \<longrightarrow>
            lba op' = 1 \<and> count op' = 3 \<and> ebda_sector_count s' = 10))"
proof -
  have ex: "cdrom_read_512_locals op = (op\<lparr>lba := 1, count := 3\<rparr>, 1, 3, 1, 1)"
    if "lba op = 5 \<and> count op = 10"
    using that by (simp add: cdrom_read_512_locals_example)
  have cnt: "lba op' = 1 \<and> count op' = 3 \<and> ebda_sector_count s' = 10"
    if "cdrom_read_512 P op s = Some ((0, op'), s')" and "lba op = 5 \<and> count op = 10"
    for P s op' s'
    using cdrom_read_512_success [OF that(1)] ex [OF that(2)] by simp
  show ?thesis
  proof (rule conjI)
    show "lba op = 5 \<and> count op = 10 \<longrightarrow>
        cdrom_read_512_locals op = (op\<lparr>lba := 1, count := 3\<rparr>, 1, 3, 1, 1)"
      using ex by (rule impI)
  next
    show "\<forall>P s op' s'. cdrom_read_512 P op s = Some ((0, op'), s') \<longrightarrow>
        (case cdrom_read_512_locals op of
           (op2, l, e, before, after) \<Rightarrow>
             op' = op2
           \<and> ebda_sector_count s' = word_of_int (uint (count op2) * 4 - before - after))
      \<and> (lba op = 5 \<and> count op = 10 \<longrightarrow>
            lba op' = 1 \<and> count op' = 3 \<and> ebda_sector_count s' = 10)"
    proof (intro allI impI)
      fix P s op' s'
      assume run: "cdrom_read_512 P op s = Some ((0, op'), s')"
      have "lba op = 5 \<and> count op = 10 \<longrightarrow>
            lba op' = 1 \<and> count op' = 3 \<and> ebda_sector_count s' = 10"
        using cnt [OF run] by (rule impI)
      with cdrom_read_512_success [OF run]
      show "(case cdrom_read_512_locals op of
           (op2, l, e, before, after) \<Rightarrow>
             op' = op2
           \<and> ebda_sector_count s' = word_of_int (uint (count op2) * 4 - before - after))
      \<and> (lba op = 5 \<and> count op = 10 \<longrightarrow>
            lba op' = 1 \<and> count op' = 3 \<and> ebda_sector_count s' = 10)"
        by (rule conjI)
    qed
  qed
qed

text \<open>
  Claim C2, with the worked example as the code computes it. For the logical start 5
  and the logical count 10, \<open>cdrom_read_512\<close> computes the physical LBA 1, the last
  physical LBA 3, the physical count 3, \<open>before = 1\<close> and \<open>after = 1\<close> (the last logical
  block 14 is the third of its four in its sector), and a successful call leaves the
  value \<open>3*4 - 1 - 1 = 10\<close> in the progress counter. In general a successful call
  leaves there the physical count times 4 less \<open>before\<close> and \<open>after\<close>.
\<close>

theorem cdrom_read_512_visible_count:
  "(lba op = 5 \<and> count op = 10 \<longrightarrow>
      cdrom_read_512_locals op = (op\<lparr>lba := 1, count := 3\<rparr>, 1, 3, 1, 1))
   \<and> (\<forall>P s op' s'. cdrom_read_512 P op s = Some ((0, op'), s') \<longrightarrow>
        (case cdrom_read_512_locals op of
           (op2, l, e, before, after) \<Rightarrow>
             op' = op2
           \<and> ebda_sector_count s' = word_of_int (uint (count op2) * 4 - before - after))
      \<and> (lba op = 5 \<and> count op = 10 \<longrightarrow>
            lba op' = 1 \<and> count op' = 3 \<and> ebda_sector_count s' = 10))"
  by (rule cdrom_read_512_visible_count_all)

lemma hw_cdrom_status:
  "fst (inb (example_platform hw_cdrom) port s)
     = (if 5120 \<le> stored_bytes (trace s) then 0x40 else 0x48)"
  by (simp add: inb_def hw_cdrom_def example_platform_def Let_def)

lemma await_not_bsy_hw_cdrom:
  "await_not_bsy (example_platform hw_cdrom) base s =
     Some (if 5120 \<le> stored_bytes (trace s) then 0x40 else 0x48,
           snd (inb (example_platform hw_cdrom) (base + ATA_CB_STAT)
             (snd (calc_future_tsc (example_platform hw_cdrom) (ucast IDE_TIMEOUT) s))))"
proof -
  let ?P = "example_platform hw_cdrom"
  let ?s0 = "snd (calc_future_tsc ?P (ucast IDE_TIMEOUT) s)"
  have st: "status_at ?P base ?s0 0 = (if 5120 \<le> stored_bytes (trace s) then 0x40 else 0x48)"
    by (simp add: status_at_def hw_cdrom_status)
  then have "status_at ?P base ?s0 0 AND ATA_CB_STAT_BSY = 0"
    by (simp add: ATA_CB_STAT_BSY_def)
  from await_ide_loop_match [OF this]
  show ?thesis
    by (simp add: await_not_bsy_def await_ide_unfold st)
qed

lemma machine_legacy_simps [simp]:
  "iobase1 (channels (ATA machine_legacy) 0) = 0x1f0"
  "iobase2 (channels (ATA machine_legacy) 0) = 0x3f0"
  "mode (devices (ATA machine_legacy) 0) = 0"
  "trace machine_legacy = []"
  by (simp_all add: machine_legacy_def set_channel_def example_machine_def zero_ATA_def)

lemmas atabits =
  ATA_CB_DATA_def ATA_CB_ERR_def ATA_CB_FR_def ATA_CB_SC_def ATA_CB_SN_def ATA_CB_CL_def
  ATA_CB_CH_def ATA_CB_DH_def ATA_CB_STAT_def ATA_CB_CMD_def ATA_CB_ASTAT_def ATA_CB_DC_def
  ATA_CB_STAT_BSY_def ATA_CB_STAT_RDY_def ATA_CB_STAT_DF_def ATA_CB_STAT_DRQ_def
  ATA_CB_STAT_ERR_def ATA_CB_DH_LBA_def ATA_CB_DH_DEV0_def ATA_CB_DH_DEV1_def
  ATA_CB_DC_HD15_def ATA_CB_DC_SRST_def ATA_CB_DC_NIEN_def ATA_CMD_PACKET_def
  ATA_MODE_PIO16_def ATA_MODE_PIO32_def

lemma c_div_simps [simp]: "c_div 512 2 = 256" "c_div 1536 2 = 768" "c_div 2048 2 = 1024"
  by (simp_all add: c_div_def)

lemma trace_update_simps [simp]:
  "trace (s\<lparr>ebda_sector_count := c\<rparr>) = trace s"
  "ATA (s\<lparr>ebda_sector_count := c\<rparr>) = ATA s"
  "ATA (s\<lparr>trace := t\<rparr>) = ATA s"
  by simp_all

lemma send_cmd_cdrom_ok:
  "\<exists>s'. send_cmd_cdrom (example_platform hw_cdrom) (op_cdemu\<lparr>lba := 1, count := 3\<rparr>)
      machine_legacy = Some (0, s') \<and> ATA s' = ATA machine_legacy \<and> stored_bytes (trace s') = 0"
  apply (simp add: send_cmd_cdrom_def send_atapi_cmd_def send_cmd_def
      pause_await_not_bsy_def ndelay_await_not_bsy_def await_not_bsy_hw_cdrom Let_def
      case_prod_beta channel_of_def slave_of_def op_cdemu_def hw_cdrom_status
      zero_cmd_def CDROM_SECTOR_SIZE_def atabits)
  done


lemmas run_simps =
  pause_await_not_bsy_def ndelay_await_not_bsy_def await_not_bsy_hw_cdrom Let_def
  case_prod_beta channel_of_def slave_of_def op_cdemu_def hw_cdrom_status
  CDROM_SECTOR_SIZE_def insx_discard_trace atabits

lemma ata_transfer_cdemu_ok:
  assumes "ATA s1 = ATA machine_legacy" and "stored_bytes (trace s1) = 0"
  shows "\<exists>s'. ata_transfer_cdemu (example_platform hw_cdrom) (op_cdemu\<lparr>lba := 1, count := 3\<rparr>)
      1 1 s1 = Some (0, s')"
  using assms
  apply (simp add: ata_transfer_cdemu_def ata_transfer_def run_simps)
  apply (subst ata_transfer_loop.simps)
  apply (simp add: run_simps)
  apply (subst ata_transfer_loop.simps)
  apply (simp add: run_simps)
  apply (subst ata_transfer_loop.simps)
  apply (simp add: run_simps)
  done

lemma cdrom_read_512_run:
  "\<exists>s'. cdrom_read_512 (example_platform hw_cdrom) op_cdemu machine_legacy
     = Some ((0, op_cdemu\<lparr>lba := 1, count := 3\<rparr>), s')"
proof -
  have loc: "cdrom_read_512_locals op_cdemu = (op_cdemu\<lparr>lba := 1, count := 3\<rparr>, 1, 3, 1, 1)"
    by (rule cdrom_read_512_locals_example) (simp_all add: op_cdemu_def)
  obtain s1 where c: "send_cmd_cdrom (example_platform hw_cdrom)
        (op_cdemu\<lparr>lba := 1, count := 3\<rparr>) machine_legacy = Some (0, s1)"
      and f: "ATA s1 = ATA machine_legacy" "stored_bytes (trace s1) = 0"
    using send_cmd_cdrom_ok by blast
  obtain s' where "ata_transfer_cdemu (example_platform hw_cdrom)
        (op_cdemu\<lparr>lba := 1, count := 3\<rparr>) 1 1 s1 = Some (0, s')"
    using ata_transfer_cdemu_ok [OF f] by blast
  then show ?thesis
    by (simp add: cdrom_read_512_def loc c)
qed

theorem cdrom_read_512_visible_count_witness:
  "map_option (\<lambda>((r, op'), s'). (r, lba op', count op', ebda_sector_count s'))
     (cdrom_read_512 (example_platform hw_cdrom) op_cdemu machine_legacy)
   = Some (0, 1, 3, 10)"
proof -
  obtain s' where run: "cdrom_read_512 (example_platform hw_cdrom) op_cdemu machine_legacy
      = Some ((0, op_cdemu\<lparr>lba := 1, count := 3\<rparr>), s')"
    using cdrom_read_512_run by blast
  have e: "lba op_cdemu = 5 \<and> count op_cdemu = 10"
    by (simp add: op_cdemu_def)
  have "ebda_sector_count s' = 10"
    using cdrom_read_512_visible_count [of op_cdemu] run e by blast
  then show ?thesis
    by (simp add: run)
qed

text \<open>
  Claim C2 as stated fails at its own example: \<open>after\<close> is 1, not 2, and the counter of
  a successful call is 10, not 9.
\<close>

theorem cdrom_read_512_example_counterexample:
  "cdrom_read_512_locals op_cdemu = (op_cdemu\<lparr>lba := 1, count := 3\<rparr>, 1, 3, 1, 1)
   \<and> map_option (\<lambda>((r, op'), s'). (r, ebda_sector_count s'))
        (cdrom_read_512 (example_platform hw_cdrom) op_cdemu machine_legacy)
      = Some (0, 10)"
proof -
  obtain s' where run: "cdrom_read_512 (example_platform hw_cdrom) op_cdemu machine_legacy
      = Some ((0, op_cdemu\<lparr>lba := 1, count := 3\<rparr>), s')"
    using cdrom_read_512_run by blast
  have e: "lba op_cdemu = 5 \<and> count op_cdemu = 10"
    by (simp add: op_cdemu_def)
  have "ebda_sector_count s' = 10"
    using cdrom_read_512_visible_count_all [of op_cdemu] run e by blast
  then show ?thesis
    using cdrom_read_512_locals_example [of op_cdemu] e by (simp add: run)
qed

subsection \<open>The table \<open>ATA\<close> under the operations of the driver\<close>

lemma ata_cmd_data_ATA:
  assumes "ata_cmd_data P op s = Some y"
  shows "ATA (snd y) = ATA s"
  using assms
  by (auto simp add: ata_cmd_data_def send_cmd_disk_def ata_transfer_disk_def
      split: Option.bind_splits if_splits dest!: send_cmd_ATA ata_transfer_ATA)

lemma send_atapi_cmd_ATA:
  assumes "send_atapi_cmd P drv cmdbuf cmdlen blocksize s = Some y"
  shows "ATA (snd y) = ATA s"
  using assms
  by (auto simp add: send_atapi_cmd_def Let_def
      split: Option.bind_splits if_splits
      dest!: send_cmd_ATA pause_await_not_bsy_frame(1))

lemma cdrom_read_ATA:
  assumes "cdrom_read P op s = Some y"
  shows "ATA (snd y) = ATA s"
  using assms
  by (auto simp add: cdrom_read_def send_cmd_cdrom_def ata_transfer_cdrom_def
      split: Option.bind_splits if_splits dest!: send_atapi_cmd_ATA ata_transfer_ATA)

lemma ata_transfer_cdemu_ATA:
  assumes "ata_transfer_cdemu P op before after s = Some y"
  shows "ATA (snd y) = ATA s"
  using assms
  by (auto simp add: ata_transfer_cdemu_def Let_def
      split: Option.bind_splits if_splits dest!: ata_transfer_ATA)

lemma cdrom_read_512_ATA:
  assumes "cdrom_read_512 P op s = Some y"
  shows "ATA (snd y) = ATA s"
  using assms
  by (auto simp add: cdrom_read_512_def send_cmd_cdrom_def case_prod_beta
      split: Option.bind_splits if_splits dest!: send_atapi_cmd_ATA ata_transfer_cdemu_ATA)

lemma ata_cmd_packet_ATA:
  assumes "ata_cmd_packet P drv cmdbuf cmdlen len buf s = Some y"
  shows "ATA (snd y) = ATA s"
  using assms
  by (auto simp add: ata_cmd_packet_def
      split: Option.bind_splits if_splits dest!: send_atapi_cmd_ATA ata_transfer_ATA)

lemma ata_reset_loop_ATA:
  assumes "ata_reset_loop P iob1 endt s = Some y"
  shows "ATA (snd y) = ATA s"
proof -
  define Q where "Q = (\<lambda>(x :: ((platform \<times> u16) \<times> u64) \<times> machine) (y :: bool \<times> machine).
    ATA (snd y) = ATA (snd x))"
  have "Q (((P, iob1), endt), s) y"
  proof (rule ata_reset_loop.raw_induct [where Pa = Q, OF _ assms])
    fix loop P iob1 endt s y
    assume IH: "\<And>P iob1 endt s y. loop P iob1 endt s = Some y \<Longrightarrow> Q (((P, iob1), endt), s) y"
    assume body: "(let s1 = outb ATA_CB_DH_DEV1 (iob1 + ATA_CB_DH) s
      in case await_not_bsy P iob1 s1 of
           None \<Rightarrow> None
         | Some (status, s2) \<Rightarrow>
             if status < 0 then Some (True, s2)
             else let (dh, s3) = inb P (iob1 + ATA_CB_DH) s2
                  in if dh = ATA_CB_DH_DEV1 then Some (False, s3)
                     else let (now, s4) = rdtscll P s3
                          in if endt \<le> now then Some (True, s4)
                             else loop P iob1 endt s4) = Some y"
    show "Q (((P, iob1), endt), s) y"
      using body unfolding Q_def
      by (auto simp add: Let_def case_prod_beta
          split: option.splits if_splits
          dest!: await_not_bsy_frame(1) IH [unfolded Q_def])
  qed
  then show ?thesis
    by (simp add: Q_def)
qed

lemma ata_reset_ATA:
  assumes "ata_reset P drv s = Some s'"
  shows "ATA s' = ATA s"
  using assms
  by (auto simp add: ata_reset_def Let_def case_prod_beta
      split: Option.bind_splits if_splits
      dest!: await_not_bsy_frame(1) await_rdy_frame(1) ata_reset_loop_ATA)

subsection \<open>Detection: what it writes\<close>

lemma set_device_simps [simp]:
  "channels (ATA (set_device drv f s)) = channels (ATA s)"
  "devices (ATA (set_device drv f s)) d
     = (if d = drv then f (devices (ATA s) drv) else devices (ATA s) d)"
  "trace (set_device drv f s) = trace s"
  by (simp_all add: set_device_def)

lemma extract_identify_simps [simp]:
  "channels (ATA (extract_identify P drv buffer s)) = channels (ATA s)"
  "type (devices (ATA (extract_identify P drv buffer s)) d) = type (devices (ATA s) d)"
  by (simp_all add: extract_identify_def Let_def)

lemma setup_translation_simps [simp]:
  "channels (ATA (setup_translation P drv s)) = channels (ATA s)"
  "type (devices (ATA (setup_translation P drv s)) d) = type (devices (ATA s) d)"
  using get_translation_ATA [of P drv s]
  by (simp_all add: setup_translation_def Let_def case_prod_beta)

lemma clear_buffer_ATA [simp]: "ATA (clear_buffer buf s) = ATA s"
  by (simp add: clear_buffer_def)

lemma add_bcv_hd_ATA [simp]: "ATA (add_bcv_hd drv mdl s) = ATA s"
  by (simp add: add_bcv_hd_def)

lemma init_drive_atapi_writes:
  assumes "init_drive_atapi P drv s = Some (r, s')"
  shows "channels (ATA s') = channels (ATA s)"
    and "type (devices (ATA s') d)
      = (if r = 0 \<and> d = drv then ATA_TYPE_ATAPI else type (devices (ATA s) d))"
proof -
  obtain s1 where c: "ata_cmd_data P
      \<lparr>lba = 1, buf_fl = identify_buffer P, count = 1, driveid = of_nat drv,
        command = ATA_CMD_IDENTIFY_DEVICE_PACKET\<rparr> (clear_buffer (identify_buffer P) s)
      = Some (r, s1)"
    using assms
    by (auto simp add: init_drive_atapi_def Let_def split: Option.bind_splits if_splits)
  have a: "ATA s1 = ATA s"
    using ata_cmd_data_ATA [OF c] by simp
  show "channels (ATA s') = channels (ATA s)"
    using assms a by (auto simp add: init_drive_atapi_def Let_def c split: if_splits)
  show "type (devices (ATA s') d)
      = (if r = 0 \<and> d = drv then ATA_TYPE_ATAPI else type (devices (ATA s) d))"
    using assms a by (auto simp add: init_drive_atapi_def Let_def c split: if_splits)
qed

lemma init_drive_ata_writes:
  assumes "init_drive_ata P drv s = Some (r, s')"
  shows "channels (ATA s') = channels (ATA s)"
    and "type (devices (ATA s') d)
      = (if r = 0 \<and> d = drv then ATA_TYPE_ATA else type (devices (ATA s) d))"
proof -
  obtain s1 where c: "ata_cmd_data P
      \<lparr>lba = 1, buf_fl = identify_buffer P, count = 1, driveid = of_nat drv,
        command = ATA_CMD_IDENTIFY_DEVICE\<rparr> (clear_buffer (identify_buffer P) s)
      = Some (r, s1)"
    using assms
    by (auto simp add: init_drive_ata_def Let_def split: Option.bind_splits if_splits)
  have a: "ATA s1 = ATA s"
    using ata_cmd_data_ATA [OF c] by simp
  show "channels (ATA s') = channels (ATA s)"
    using assms a by (auto simp add: init_drive_ata_def Let_def c split: if_splits)
  show "type (devices (ATA s') d)
      = (if r = 0 \<and> d = drv then ATA_TYPE_ATA else type (devices (ATA s) d))"
    using assms a by (auto simp add: init_drive_ata_def Let_def c split: if_splits)
qed

lemma ata_detect_probe_frame [simp]:
  "ATA (snd (ata_detect_probe P slave iob1 s)) = ATA s"
  by (simp add: ata_detect_probe_def Let_def case_prod_beta)

lemma ata_detect_init_writes:
  assumes "ata_detect_init P drv slave iob1 l s = Some (l', s')"
  shows "channels (ATA s') = channels (ATA s)
      \<and> (type (devices (ATA s') d) = type (devices (ATA s) d)
         \<or> d = drv \<and> type (devices (ATA s') d) \<in> {ATA_TYPE_ATA, ATA_TYPE_ATAPI})"
proof -
  obtain lr s1 where r: "(if slave \<noteq> 0 \<and> int drv = l + 1 then Some (l, s)
      else map_option (\<lambda>s'. (int drv, s')) (ata_reset P drv s)) = Some (lr, s1)"
    using assms by (auto simp add: ata_detect_init_def split: Option.bind_splits)
  have a1: "ATA s1 = ATA s"
    using r by (auto split: if_splits dest: ata_reset_ATA)
  obtain ret s2 where i: "init_drive_atapi P drv s1 = Some (ret, s2)"
    using assms r by (auto simp add: ata_detect_init_def split: Option.bind_splits)
  note w2 = init_drive_atapi_writes [OF i]
  show ?thesis
  proof (cases "ret = 0")
    case True
    then have "s' = s2"
      using assms r i by (simp add: ata_detect_init_def)
    then show ?thesis
      using w2(1) w2(2) [of d] a1 True by auto
  next
    case nz: False
    let ?s3 = "snd (inb P (iob1 + ATA_CB_STAT) s2)"
    have t2: "channels (ATA s2) = channels (ATA s)"
        "type (devices (ATA s2) d) = type (devices (ATA s) d)"
      using w2(1) w2(2) [of d] a1 nz by simp_all
    show ?thesis
    proof (cases "fst (inb P (iob1 + ATA_CB_STAT) s2) = 0")
      case True
      then have "s' = ?s3"
        using assms r i nz by (simp add: ata_detect_init_def case_prod_beta)
      then show ?thesis
        using t2 by simp
    next
      case st: False
      obtain ret4 s4 where w: "await_rdy P iob1 ?s3 = Some (ret4, s4)"
        using assms r i nz st
        by (auto simp add: ata_detect_init_def case_prod_beta split: Option.bind_splits)
      have a4: "ATA s4 = ATA s2"
        using await_rdy_frame(1) [OF w] by simp
      show ?thesis
      proof (cases "ret4 < 0")
        case True
        then have "s' = s4"
          using assms r i nz st w by (simp add: ata_detect_init_def case_prod_beta)
        then show ?thesis
          using t2 a4 by simp
      next
        case False
        obtain ret5 where j: "init_drive_ata P drv s4 = Some (ret5, s')"
          using assms r i nz st w False
          by (auto simp add: ata_detect_init_def case_prod_beta split: Option.bind_splits)
        show ?thesis
          using init_drive_ata_writes(1) [OF j] init_drive_ata_writes(2) [OF j, of d] t2 a4 by auto
      qed
    qed
  qed
qed

lemma ata_detect_drive_writes:
  assumes "ata_detect_drive P drv l s = Some (l', s')"
  shows "channels (ATA s') = channels (ATA s)"
    and "type (devices (ATA s') d) = type (devices (ATA s) d)
       \<or> d = drv \<and> type (devices (ATA s') d) \<in> {ATA_TYPE_ATA, ATA_TYPE_ATAPI}"
proof -
  let ?p = "ata_detect_probe P (slave_of drv) (iobase1 (channels (ATA s) (channel_of drv))) s"
  have "channels (ATA s') = channels (ATA s)
      \<and> (type (devices (ATA s') d) = type (devices (ATA s) d)
         \<or> d = drv \<and> type (devices (ATA s') d) \<in> {ATA_TYPE_ATA, ATA_TYPE_ATAPI})"
  proof (cases "fst (fst ?p) \<noteq> 0x55 \<or> snd (fst ?p) \<noteq> 0xaa")
    case True
    then have "s' = snd ?p"
      using assms by (auto simp add: ata_detect_drive_def Let_def case_prod_beta)
    then show ?thesis
      by simp
  next
    case False
    then have "ata_detect_init P drv (slave_of drv)
        (iobase1 (channels (ATA s) (channel_of drv))) l (snd ?p) = Some (l', s')"
      using assms by (auto simp add: ata_detect_drive_def Let_def case_prod_beta)
    from ata_detect_init_writes [OF this, of d] show ?thesis
      by simp
  qed
  then show "channels (ATA s') = channels (ATA s)"
    and "type (devices (ATA s') d) = type (devices (ATA s) d)
       \<or> d = drv \<and> type (devices (ATA s') d) \<in> {ATA_TYPE_ATA, ATA_TYPE_ATAPI}"
    by simp_all
qed

lemma ata_detect_loop_writes:
  "ata_detect_loop P maxdev drv l s = Some s' \<Longrightarrow>
   channels (ATA s') = channels (ATA s)
   \<and> (\<forall>d. type (devices (ATA s') d) = type (devices (ATA s) d)
          \<or> type (devices (ATA s') d) \<in> {ATA_TYPE_ATA, ATA_TYPE_ATAPI})"
proof (induction P maxdev drv l s rule: ata_detect_loop.induct)
  case (1 P maxdev drv l s)
  show ?case
  proof (cases "drv < maxdev \<and> iobase1 (channels (ATA s) (channel_of drv)) \<noteq> 0")
    case False
    then have "s' = s"
      using "1.prems" by (subst (asm) ata_detect_loop.simps) (auto split: if_splits)
    then show ?thesis
      by simp
  next
    case True
    then obtain l1 s1 where d: "ata_detect_drive P drv l s = Some (l1, s1)"
        and r: "ata_detect_loop P maxdev (drv + 1) l1 s1 = Some s'"
      using "1.prems" by (subst (asm) ata_detect_loop.simps) (auto split: option.splits)
    have ih: "channels (ATA s') = channels (ATA s1)
        \<and> (\<forall>d. type (devices (ATA s') d) = type (devices (ATA s1) d)
               \<or> type (devices (ATA s') d) \<in> {ATA_TYPE_ATA, ATA_TYPE_ATAPI})"
      using "1.IH" True d r by auto
    show ?thesis
      using ih ata_detect_drive_writes [OF d] by (metis insert_iff)
  qed
qed

lemma pci_config_read_frame [simp]:
  "ATA (snd (pci_config_readb P bdf a s)) = ATA s"
  "ATA (snd (pci_config_readw P bdf a s)) = ATA s"
  "ATA (snd (pci_config_readl P bdf a s)) = ATA s"
  by (simp_all add: pci_config_readb_def pci_config_readw_def pci_config_readl_def Let_def)

lemma set_channel_devices [simp]:
  "devices (ATA (set_channel ch f s)) = devices (ATA s)"
  by (simp add: set_channel_def)

lemma ata_init_pci_devices [simp]:
  "devices (ATA (ata_init_pci P bdfs cnt s)) = devices (ATA s)"
proof (induction bdfs arbitrary: cnt s)
  case Nil
  show ?case by simp
next
  case (Cons bdf bdfs)
  show ?case
    by (simp add: Let_def case_prod_beta Cons.IH)
qed

lemma ata_init_types [simp]:
  "type (devices (ATA (ata_init P s)) d) = ATA_TYPE_NONE"
  by (simp add: ata_init_def zero_ATA_def ATA_TYPE_NONE_def)

lemma hard_drive_setup_types:
  assumes "CONFIG_ATA P" and "hard_drive_setup P s = Some s'"
  shows "type (devices (ATA s') d) \<in> {ATA_TYPE_NONE, ATA_TYPE_ATA, ATA_TYPE_ATAPI}"
proof -
  obtain s1 where d: "ata_detect_loop P (CONFIG_MAX_ATA_DEVICES P) 0 (- 1) (ata_init P s)
        = Some s1"
      and e: "ATA s' = ATA s1"
    using assms
    by (auto simp add: hard_drive_setup_def ata_detect_def enable_hwirq_def
        split: Option.bind_splits)
  from ata_detect_loop_writes [OF d] show ?thesis
    by (auto simp add: e)
qed

subsection \<open>Detection: where the scan ends and what it skips\<close>

lemma ata_detect_loop_break:
  "iobase1 (channels (ATA s) (channel_of dz)) = 0 \<Longrightarrow> drv \<le> dz \<Longrightarrow> dz \<le> maxdev \<Longrightarrow>
   ata_detect_loop P maxdev drv l s = ata_detect_loop P dz drv l s"
proof (induction "dz - drv" arbitrary: drv l s)
  case 0
  then have "drv = dz"
    by simp
  then show ?case
    using "0.prems"(1)
    by (simp add: ata_detect_loop.simps [of P maxdev dz l s] ata_detect_loop.simps [of P dz dz l s])
next
  case (Suc n)
  then have lt: "drv < dz" "drv < maxdev"
    by simp_all
  show ?case
  proof (cases "iobase1 (channels (ATA s) (channel_of drv)) = 0")
    case True
    then show ?thesis
      using lt
      by (simp add: ata_detect_loop.simps [of P maxdev drv l s] ata_detect_loop.simps [of P dz drv l s])
  next
    case nz: False
    show ?thesis
    proof (cases "ata_detect_drive P drv l s")
      case None
      then show ?thesis
        using lt nz
        by (simp add: ata_detect_loop.simps [of P maxdev drv l s] ata_detect_loop.simps [of P dz drv l s])
    next
      case (Some y)
      obtain l1 s1 where y: "y = (l1, s1)"
        by (cases y)
      have d: "ata_detect_drive P drv l s = Some (l1, s1)"
        using Some y by simp
      have "channels (ATA s1) = channels (ATA s)"
        using ata_detect_drive_writes(1) [OF d] .
      then have z: "iobase1 (channels (ATA s1) (channel_of dz)) = 0"
        using Suc.prems(1) by simp
      have "ata_detect_loop P maxdev (drv + 1) l1 s1 = ata_detect_loop P dz (drv + 1) l1 s1"
        using Suc.hyps(2) Suc.prems(2,3) lt by (intro Suc.hyps(1) z) simp_all
      then show ?thesis
        using lt nz d
        by (simp add: ata_detect_loop.simps [of P maxdev drv l s] ata_detect_loop.simps [of P dz drv l s])
    qed
  qed
qed

lemma ata_detect_loop_at_zero:
  "iobase1 (channels (ATA s) (channel_of dz)) = 0 \<Longrightarrow> ata_detect_loop P maxdev dz l s = Some s"
  by (simp add: ata_detect_loop.simps [of P maxdev dz l s])

lemma ata_detect_loop_skip:
  assumes "drv < maxdev" and "iobase1 (channels (ATA s) (channel_of drv)) \<noteq> 0"
    and "fst (fst (ata_detect_probe P (slave_of drv)
            (iobase1 (channels (ATA s) (channel_of drv))) s)) \<noteq> 0x55
       \<or> snd (fst (ata_detect_probe P (slave_of drv)
            (iobase1 (channels (ATA s) (channel_of drv))) s)) \<noteq> 0xaa"
  shows "ata_detect_loop P maxdev drv l s =
     ata_detect_loop P maxdev (drv + 1) l
       (snd (ata_detect_probe P (slave_of drv) (iobase1 (channels (ATA s) (channel_of drv))) s))"
proof -
  have "ata_detect_drive P drv l s = Some (l,
      snd (ata_detect_probe P (slave_of drv) (iobase1 (channels (ATA s) (channel_of drv))) s))"
    using assms(3) by (auto simp add: ata_detect_drive_def Let_def case_prod_beta)
  then show ?thesis
    using assms(1,2) by (simp add: ata_detect_loop.simps [of P maxdev drv l s])
qed

text \<open>
  Claim C9. The scan starts at drive 0 and goes up by one. If the channel of the drive
  \<open>dz\<close> has \<open>iobase1 = 0\<close>, the scan from any drive up to \<open>dz\<close> is the scan of a table
  that ends at \<open>dz\<close>: no drive from \<open>dz\<close> on is probed, whatever the I/O bases of the
  higher channels, and the loop entered at \<open>dz\<close> itself leaves the machine as it is.
  If instead the channel of a drive is configured and the pattern read back is not
  \<open>0x55\<close>, \<open>0xaa\<close>, the scan goes on with the next drive, from the machine the probe left
  and with the same \<open>last_reset_driveid\<close>.
\<close>

theorem ata_detect_break_and_skip:
  "ata_detect P s = ata_detect_loop P (CONFIG_MAX_ATA_DEVICES P) 0 (- 1) s
   \<and> (iobase1 (channels (ATA s) (channel_of dz)) = 0 \<and> drv \<le> dz \<and> dz \<le> maxdev \<longrightarrow>
        ata_detect_loop P maxdev drv l s = ata_detect_loop P dz drv l s)
   \<and> (iobase1 (channels (ATA s) (channel_of dz)) = 0 \<longrightarrow>
        ata_detect_loop P maxdev dz l s = Some s)
   \<and> (drv < maxdev \<and> iobase1 (channels (ATA s) (channel_of drv)) \<noteq> 0
        \<and> (fst (fst (ata_detect_probe P (slave_of drv)
                  (iobase1 (channels (ATA s) (channel_of drv))) s)) \<noteq> 0x55
           \<or> snd (fst (ata_detect_probe P (slave_of drv)
                  (iobase1 (channels (ATA s) (channel_of drv))) s)) \<noteq> 0xaa) \<longrightarrow>
        ata_detect_loop P maxdev drv l s =
          ata_detect_loop P maxdev (drv + 1) l
            (snd (ata_detect_probe P (slave_of drv)
                   (iobase1 (channels (ATA s) (channel_of drv))) s)))"
  using ata_detect_loop_break [of s dz drv maxdev P l]
    ata_detect_loop_at_zero [of s dz P maxdev l]
    ata_detect_loop_skip [of drv maxdev s P l]
  by (simp add: ata_detect_def)

lemma machine_hole_simps [simp]:
  "iobase1 (channels (ATA machine_hole) 0) = 0x1f0"
  "iobase1 (channels (ATA machine_hole) (Suc 0)) = 0"
  "iobase1 (channels (ATA machine_hole) 2) = 0x1e8"
  "trace machine_hole = []"
  by (simp_all add: machine_hole_def machine_legacy_def set_channel_def example_machine_def
      zero_ATA_def)

lemma ata_detect_probe_hw_zero:
  "ata_detect_probe (example_platform hw_zero) slave iob1 s =
     ((0, 0), s\<lparr>trace :=
        [E_inb (iob1 + 3), E_inb (iob1 + 2), E_outb 0xaa (iob1 + 3), E_outb 0x55 (iob1 + 2),
         E_outb 0x55 (iob1 + 3), E_outb 0xaa (iob1 + 2), E_outb 0xaa (iob1 + 3),
         E_outb 0x55 (iob1 + 2),
         E_outb (if slave \<noteq> 0 then 0xb0 else 0xa0) (iob1 + 6)] @ trace s\<rparr>)"
  by (simp add: ata_detect_probe_def inb_def outb_def Let_def example_platform_def hw_zero_def
      atabits)

theorem ata_detect_break_and_skip_witness:
  "iobase1 (channels (ATA machine_hole) (channel_of 0)) = 0x1f0
   \<and> iobase1 (channels (ATA machine_hole) (channel_of 2)) = 0
   \<and> iobase1 (channels (ATA machine_hole) (channel_of 4)) = 0x1e8
   \<and> CONFIG_MAX_ATA_DEVICES (example_platform hw_zero) = 8
   \<and> map_option trace (ata_detect (example_platform hw_zero) machine_hole) =
       Some [E_inb 0x1f3, E_inb 0x1f2, E_outb 0xaa 0x1f3, E_outb 0x55 0x1f2,
             E_outb 0x55 0x1f3, E_outb 0xaa 0x1f2, E_outb 0xaa 0x1f3, E_outb 0x55 0x1f2,
             E_outb 0xb0 0x1f6,
             E_inb 0x1f3, E_inb 0x1f2, E_outb 0xaa 0x1f3, E_outb 0x55 0x1f2,
             E_outb 0x55 0x1f3, E_outb 0xaa 0x1f2, E_outb 0xaa 0x1f3, E_outb 0x55 0x1f2,
             E_outb 0xa0 0x1f6]"
proof -
  let ?P = "example_platform hw_zero"
  define s1 where "s1 = snd (ata_detect_probe ?P (slave_of 0) 0x1f0 machine_hole)"
  define s2 where "s2 = snd (ata_detect_probe ?P (slave_of 1) 0x1f0 s1)"
  have a1: "ATA s1 = ATA machine_hole" and a2: "ATA s2 = ATA machine_hole"
    by (simp_all add: s1_def s2_def)
  have ch: "channel_of 0 = 0" "channel_of (Suc 0) = 0" "channel_of 2 = Suc 0"
    "channel_of (Suc (Suc 0)) = Suc 0" "channel_of 4 = 2"
    by (simp_all add: channel_of_def)
  have n: "CONFIG_MAX_ATA_DEVICES ?P = 8"
    by (simp add: example_platform_def)
  note at_start = ata_detect_break_and_skip [where P = "?P" and s = machine_hole and dz = 2
      and drv = 0 and maxdev = 2 and l = "- 1"]
  have "ata_detect ?P machine_hole = ata_detect_loop ?P 8 0 (- 1) machine_hole"
    using at_start [THEN conjunct1] n by simp
  also have "\<dots> = ata_detect_loop ?P 2 0 (- 1) machine_hole"
    using ata_detect_break_and_skip [where P = "?P" and s = machine_hole and dz = 2
        and drv = 0 and maxdev = 8 and l = "- 1", THEN conjunct2, THEN conjunct1]
    by (simp add: ch)
  also have "\<dots> = ata_detect_loop ?P 2 1 (- 1) s1"
    using at_start [THEN conjunct2, THEN conjunct2, THEN conjunct2]
    by (simp add: ch s1_def ata_detect_probe_hw_zero slave_of_def)
  also have "\<dots> = ata_detect_loop ?P 2 2 (- 1) s2"
    using ata_detect_break_and_skip [where P = "?P" and s = s1 and dz = 2
        and drv = 1 and maxdev = 2 and l = "- 1", THEN conjunct2, THEN conjunct2,
        THEN conjunct2]
    by (simp add: ch a1 s2_def ata_detect_probe_hw_zero slave_of_def numeral_2_eq_2 [symmetric])
  also have "\<dots> = Some s2"
    using ata_detect_break_and_skip [where P = "?P" and s = s2 and dz = 2
        and drv = 2 and maxdev = 2 and l = "- 1", THEN conjunct2, THEN conjunct2,
        THEN conjunct1]
    by (simp add: ch a2 numeral_2_eq_2 [symmetric])
  finally have "ata_detect ?P machine_hole = Some s2" .
  moreover have "trace s2 =
       [E_inb 0x1f3, E_inb 0x1f2, E_outb 0xaa 0x1f3, E_outb 0x55 0x1f2,
        E_outb 0x55 0x1f3, E_outb 0xaa 0x1f2, E_outb 0xaa 0x1f3, E_outb 0x55 0x1f2,
        E_outb 0xb0 0x1f6,
        E_inb 0x1f3, E_inb 0x1f2, E_outb 0xaa 0x1f3, E_outb 0x55 0x1f2,
        E_outb 0x55 0x1f3, E_outb 0xaa 0x1f2, E_outb 0xaa 0x1f3, E_outb 0x55 0x1f2,
        E_outb 0xa0 0x1f6]"
    by (simp add: s1_def s2_def ata_detect_probe_hw_zero slave_of_def)
  ultimately show ?thesis
    by (simp add: ch n)
qed


subsection \<open>The device table after detection\<close>

lemma ata_cmd_data_hw_zero:
  "\<exists>s'. ata_cmd_data (example_platform hw_zero) op s = Some (- 5, s')"
proof -
  obtain s' where "send_cmd (example_platform hw_zero) (unat (driveid op))
      (send_cmd_disk_cmd op) s = Some (- 5, s')"
    using send_cmd_hw_zero by blast
  then show ?thesis
    by (simp add: ata_cmd_data_def send_cmd_disk_def)
qed

lemma send_atapi_cmd_hw_zero:
  "\<exists>s'. send_atapi_cmd (example_platform hw_zero) drv cmdbuf cmdlen blocksize s
     = Some (- 5, s')"
proof -
  obtain s' where "send_cmd (example_platform hw_zero) drv
      (zero_cmd\<lparr>sector_count := 0, feature := 0, lba_low := 0,
         lba_mid := ucast blocksize, lba_high := ucast (drop_bit 8 blocksize),
         device_reg := 0, command_reg := ATA_CMD_PACKET\<rparr>) s = Some (- 5, s')"
    using send_cmd_hw_zero by blast
  then show ?thesis
    by (simp add: send_atapi_cmd_def Let_def)
qed

lemma cdrom_read_hw_zero:
  "\<exists>s'. cdrom_read (example_platform hw_zero) op s = Some (- 5, s')"
proof -
  obtain s' where "send_atapi_cmd (example_platform hw_zero) (unat (driveid op))
      (atacmd_read op) 12 (word_of_int CDROM_SECTOR_SIZE) s = Some (- 5, s')"
    using send_atapi_cmd_hw_zero by blast
  then show ?thesis
    by (simp add: cdrom_read_def send_cmd_cdrom_def)
qed

lemma ata_cmd_packet_hw_zero:
  "\<exists>s'. ata_cmd_packet (example_platform hw_zero) drv cmdbuf cmdlen len buf s
     = Some (- 5, s')"
proof -
  obtain s' where "send_atapi_cmd (example_platform hw_zero) drv cmdbuf cmdlen (ucast len) s
      = Some (- 5, s')"
    using send_atapi_cmd_hw_zero by blast
  then show ?thesis
    by (simp add: ata_cmd_packet_def)
qed

lemma ata_reset_hw_zero:
  "\<exists>s'. ata_reset (example_platform hw_zero) 0 example_machine = Some s'"
  by (simp add: ata_reset_def Let_def await_not_bsy_hw_zero slave_of_def channel_of_def
      example_machine_def zero_ATA_def ATA_TYPE_ATA_def)

lemma hard_drive_setup_hw_zero:
  "\<exists>s'. hard_drive_setup (example_platform hw_zero) example_machine = Some s'"
  by (simp add: hard_drive_setup_def ata_detect_def ata_init_def Let_def example_platform_def
      zero_ATA_def channel_of_def
      ata_detect_loop.simps [of _ _ 0])

text \<open>
  Claim C8. No transfer operation writes the device table: whenever \<open>ata_cmd_data\<close>,
  \<open>cdrom_read\<close>, \<open>cdrom_read_512\<close>, \<open>ata_cmd_packet\<close> or \<open>ata_reset\<close> returns, with
  whatever result code, the table \<open>ATA\<close> (and so the \<open>type\<close>, \<open>mode\<close> and \<open>blksize\<close> of
  every drive) is the one it was called with. When \<open>hard_drive_setup\<close> returns with
  \<open>CONFIG_ATA\<close> set, the \<open>type\<close> of every drive is one of \<open>ATA_TYPE_NONE\<close>, \<open>ATA_TYPE_ATA\<close>
  and \<open>ATA_TYPE_ATAPI\<close>.
\<close>

theorem device_table_stable:
  "(ata_cmd_data P opa s = Some (ra, sa) \<longrightarrow> ATA sa = ATA s)
   \<and> (cdrom_read P opb s = Some (rb, sb) \<longrightarrow> ATA sb = ATA s)
   \<and> (cdrom_read_512 P opc s = Some ((rc, opr), sc) \<longrightarrow> ATA sc = ATA s)
   \<and> (ata_cmd_packet P drv cmdbuf cmdlen len buf s = Some (rd, sd) \<longrightarrow> ATA sd = ATA s)
   \<and> (ata_reset P drive s = Some se \<longrightarrow> ATA se = ATA s)
   \<and> (CONFIG_ATA P \<and> hard_drive_setup P s = Some sf \<longrightarrow>
        type (devices (ATA sf) d) \<in> {ATA_TYPE_NONE, ATA_TYPE_ATA, ATA_TYPE_ATAPI})"
  using ata_cmd_data_ATA [of P opa s "(ra, sa)"] cdrom_read_ATA [of P opb s "(rb, sb)"]
    cdrom_read_512_ATA [of P opc s "((rc, opr), sc)"]
    ata_cmd_packet_ATA [of P drv cmdbuf cmdlen len buf s "(rd, sd)"]
    ata_reset_ATA [of P drive s se] hard_drive_setup_types [of P s sf d]
  by simp

theorem device_table_stable_witness:
  "map_option (\<lambda>(r, s'). (r, ATA s' = ATA example_machine))
       (ata_cmd_data (example_platform hw_zero) op_std example_machine) = Some (- 5, True)
   \<and> map_option (\<lambda>(r, s'). (r, ATA s' = ATA example_machine))
       (cdrom_read (example_platform hw_zero) op_cdemu example_machine) = Some (- 5, True)
   \<and> map_option (\<lambda>((r, op'), s'). (r, ATA s' = ATA machine_legacy))
       (cdrom_read_512 (example_platform hw_cdrom) op_cdemu machine_legacy) = Some (0, True)
   \<and> map_option (\<lambda>(r, s'). (r, ATA s' = ATA example_machine))
       (ata_cmd_packet (example_platform hw_zero) 0 (\<lambda>k. 0) 12 2048 0x8000 example_machine)
       = Some (- 5, True)
   \<and> map_option (\<lambda>s'. ATA s' = ATA example_machine)
       (ata_reset (example_platform hw_zero) 0 example_machine) = Some True
   \<and> CONFIG_ATA (example_platform hw_zero)
   \<and> map_option (\<lambda>s'. type (devices (ATA s') 0) \<in> {ATA_TYPE_NONE, ATA_TYPE_ATA, ATA_TYPE_ATAPI})
       (hard_drive_setup (example_platform hw_zero) example_machine) = Some True"
proof -
  let ?Z = "example_platform hw_zero"
  obtain sa where a: "ata_cmd_data ?Z op_std example_machine = Some (- 5, sa)"
    using ata_cmd_data_hw_zero by blast
  obtain sb where b: "cdrom_read ?Z op_cdemu example_machine = Some (- 5, sb)"
    using cdrom_read_hw_zero by blast
  obtain sc where c: "cdrom_read_512 (example_platform hw_cdrom) op_cdemu machine_legacy
      = Some ((0, op_cdemu\<lparr>lba := 1, count := 3\<rparr>), sc)"
    using cdrom_read_512_run by blast
  obtain sd where d: "ata_cmd_packet ?Z 0 (\<lambda>k. 0) 12 2048 0x8000 example_machine
      = Some (- 5, sd)"
    using ata_cmd_packet_hw_zero by blast
  obtain se where e: "ata_reset ?Z 0 example_machine = Some se"
    using ata_reset_hw_zero by blast
  obtain sf where f: "hard_drive_setup ?Z example_machine = Some sf"
    using hard_drive_setup_hw_zero by blast
  have g: "CONFIG_ATA ?Z"
    by (simp add: example_platform_def)
  note t = device_table_stable [where P = "?Z" and s = example_machine and opa = op_std
      and ra = "- 5" and sa = sa and opb = op_cdemu and rb = "- 5" and sb = sb
      and drv = 0 and cmdbuf = "\<lambda>k. 0" and cmdlen = 12 and len = 2048 and buf = "0x8000"
      and rd = "- 5" and sd = sd and drive = 0 and se = se and sf = sf and d = 0]
  note u = device_table_stable [where P = "example_platform hw_cdrom" and s = machine_legacy
      and opc = op_cdemu and rc = 0 and opr = "op_cdemu\<lparr>lba := 1, count := 3\<rparr>" and sc = sc]
  show ?thesis
    using t u a b c d e f g by simp
qed

end
